theory Spec2Isabelle
  imports Main "HOL-Library.Word" "HOL-Library.Signed_Division"
begin

unbundle bit_operations_syntax

section \<open>The value model (package object)\<close>

text \<open>
  Go's \<open>int64\<close> and \<open>uint64\<close> are 64-bit words: \<open>+\<close>, \<open>-\<close> and \<open>*\<close> wrap around,
  \<open>sint\<close> reads a word as a signed and \<open>uint\<close> as an unsigned number, and the conversion
  \<open>uint64(v)\<close> keeps the bits. A \<open>float64\<close> is carried as its 64 bits; the arithmetic on
  it belongs to the host and is a parameter of the model (record \<open>Host\<close> below). Go's
  \<open>int\<close> (stack pointer, frame index, instruction pointer) is modelled as \<open>int\<close>: every
  value of it that the machine computes is bounded by the sizes of its arrays.
\<close>

type_synonym int64 = "64 word"
type_synonym uint64 = "64 word"
type_synonym float64 = "64 word"
type_synonym byte = "8 word"

text \<open>
  \<open>ObjectType\<close> is a string type in the source with one constant per kind of object.
  The model keeps the constants as an enumeration. The last four tags are used by the
  machine (\<open>object.FLOAT_OBJ\<close>, closures, compiled functions, dates) but their
  declarations belong to a later version of package object than the one modelled here.
\<close>

datatype ObjectType =
    INTEGER_OBJ | BOOLEAN_OBJ | NULL_OBJ | RETURN_VALUE_OBJ | ERROR_OBJ | FUNCTION_OBJ
  | STRING_OBJ | BUILTIN_OBJ | ARRAY_OBJ | DICT_OBJ
  | FLOAT_OBJ | COMPILED_FUNCTION_OBJ | CLOSURE_OBJ | DATE_OBJ

text \<open>The opcodes that the dispatch loop of the machine distinguishes (package code).\<close>

datatype Opcode =
    OpConstant | OpAdd | OpSub | OpMul | OpDiv | OpMod | OpAnd | OpOr
  | OpEqual | OpNotEqual | OpGreaterThan | OpLessThan | OpLessThanOrEqual
  | OpGreaterThanOrEqual | OpTrue | OpFalse | OpBang | OpMinus | OpPop | OpJump
  | OpJumpNotTruthy | OpNull | OpSetGlobal | OpGetGlobal | OpArray | OpDict | OpIndex
  | OpCall | OpReturnValue | OpReturn | OpSetLocal | OpGetLocal | OpGetBuiltin
  | OpClosure | OpGetFree | OpCurrentClosure | OpWhile | OpGetAttr

text \<open>
  A message built by \<open>fmt.Errorf\<close>, \<open>fmt.Sprintf\<close> or \<open>NewError\<close> is kept as the format
  string of the source together with its arguments, not rendered.
\<close>

datatype fmtarg =
    ArgInt int
  | ArgType ObjectType
  | ArgOp Opcode
  | ArgStr string
  | ArgGoType "ObjectType option"

text \<open>The run-time panics of Go that the code can raise; none of them is recovered.\<close>

datatype GoPanic =
    IndexOutOfRange | SliceBounds | MakeSliceLen | NilDereference | TypeAssertion | DivideByZero

text \<open>
  A function of the machine either returns an error value (\<open>Errorf\<close>) or panics.
\<close>

datatype failure = Errorf string "fmtarg list" | Panic GoPanic

datatype DictKey = DictKey (KeyType: ObjectType) (KeyValue: uint64)

record CompiledFunction =
  Instructions :: "byte list"
  NumLocals :: int
  NumParameters :: int

text \<open>
  Modelled from the spec: the declaration of \<open>Date\<close> is not among the source files; a
  calendar record with fields year, month, day, hour, minute, second and a display string.
\<close>

record DateRec =
  Year :: int
  Month :: int
  Day :: int
  Hour :: int
  Minute :: int
  Second :: int
  FullDate :: string

text \<open>The built-in functions of the array library, named after their constructors.\<close>

datatype BuiltinFunction =
    Fn_removeFromArray | Fn_addToArrayStart | Fn_addToArrayEnd | Fn_max | Fn_min
  | Fn_first | Fn_last | Fn_allButFirst | Fn_indexOf | Fn_organize | Fn_sum

text \<open>
  An \<open>Object\<close> is an interface value of the source. \<open>NilObject\<close> is the nil interface
  (an unused stack slot, the result of a built-in that returns no value); \<open>Null\<close> is the
  object of the language. Objects are modelled by their contents: the machine creates
  Booleans and Null only through its singletons \<open>True\<close>, \<open>False\<close> and \<open>Null\<close>, so a
  Boolean stands for the singleton of its value. \<open>ReturnValue\<close> and \<open>Function\<close> belong to
  the tree-walking evaluator and are never created by the machine; they are left out.
\<close>

datatype Object =
    NilObject
  | Integer int64
  | Float float64
  | Boolean bool
  | Null
  | String string
  | Array "Object list"
  | Dict "DictKey \<Rightarrow> DictPair option"
  | Error string "fmtarg list"
  | CompiledFunctionObj CompiledFunction
  | ClosureObj Closure
  | Builtin BuiltinFunction
  | Date DateRec
and DictPair = DictPair (Key: Object) (Value: Object)
and Closure = Closure (Fn: CompiledFunction) (Free: "Object list")

text \<open>The method \<open>Type()\<close>; on the nil interface the call panics.\<close>

fun Type :: "Object \<Rightarrow> GoPanic + ObjectType" where
  "Type NilObject = Inl NilDereference"
| "Type (Integer v) = Inr INTEGER_OBJ"
| "Type (Float v) = Inr FLOAT_OBJ"
| "Type (Boolean v) = Inr BOOLEAN_OBJ"
| "Type Null = Inr NULL_OBJ"
| "Type (String v) = Inr STRING_OBJ"
| "Type (Array v) = Inr ARRAY_OBJ"
| "Type (Dict v) = Inr DICT_OBJ"
| "Type (Error f as) = Inr ERROR_OBJ"
| "Type (CompiledFunctionObj v) = Inr COMPILED_FUNCTION_OBJ"
| "Type (ClosureObj v) = Inr CLOSURE_OBJ"
| "Type (Builtin v) = Inr BUILTIN_OBJ"
| "Type (Date v) = Inr DATE_OBJ"

subsection \<open>Hash keys\<close>

text \<open>
  \<open>hash/fnv\<close>, \<open>New64a\<close>: the state starts at the offset basis; \<open>Write\<close> takes each byte
  in turn, xors it into the state and multiplies by the prime, in 64-bit arithmetic.
\<close>

definition offset64 :: uint64 where
  "offset64 = 14695981039346656037"

definition prime64 :: uint64 where
  "prime64 = 1099511628211"

fun fnv64a_Write :: "uint64 \<Rightarrow> string \<Rightarrow> uint64" where
  "fnv64a_Write hash [] = hash"
| "fnv64a_Write hash (c # cs) = fnv64a_Write ((hash XOR of_nat (of_char c)) * prime64) cs"

definition Boolean_DictKey :: "bool \<Rightarrow> DictKey" where
  "Boolean_DictKey b = DictKey BOOLEAN_OBJ (if b then 1 else 0)"

definition Integer_DictKey :: "int64 \<Rightarrow> DictKey" where
  "Integer_DictKey i = DictKey INTEGER_OBJ i"

definition String_DictKey :: "string \<Rightarrow> DictKey" where
  "String_DictKey s = DictKey STRING_OBJ (fnv64a_Write offset64 s)"

text \<open>
  The interface \<open>Dictable\<close>: the assertion \<open>key.(object.Dictable)\<close> succeeds for the
  three types that have a method \<open>DictKey\<close>, and the result is then that method's.
\<close>

fun Dictable :: "Object \<Rightarrow> DictKey option" where
  "Dictable (Boolean b) = Some (Boolean_DictKey b)"
| "Dictable (Integer i) = Some (Integer_DictKey i)"
| "Dictable (String s) = Some (String_DictKey s)"
| "Dictable other = None"

text \<open>
  The words of the specification, on numbers: the hash is FNV-1a on 64 bits, and an
  Integer is reinterpreted as unsigned.
\<close>

fun fnv1a_64_spec :: "nat \<Rightarrow> nat list \<Rightarrow> nat" where
  "fnv1a_64_spec h [] = h"
| "fnv1a_64_spec h (b # bs) = fnv1a_64_spec (((h XOR b) * 1099511628211) mod 2 ^ 64) bs"

definition reinterpret_unsigned64 :: "int \<Rightarrow> int" where
  "reinterpret_unsigned64 v = (if v < 0 then v + 2 ^ 64 else v)"


section \<open>The virtual machine (package vm)\<close>

subsection \<open>State\<close>

text \<open>
  Modelled from the spec: the declaration of \<open>Frame\<close> and \<open>NewFrame\<close> is not among the
  source files; a frame holds the closure being executed, an instruction pointer that
  starts at -1 and a base pointer. The machine reads the fields \<open>cl\<close>, \<open>ip\<close> and
  \<open>basePointer\<close> and the method \<open>Instructions()\<close>.
\<close>

record Frame =
  cl :: Closure
  ip :: int
  basePointer :: int

definition NewFrame :: "Closure \<Rightarrow> int \<Rightarrow> Frame" where
  "NewFrame c bp = \<lparr>cl = c, ip = - 1, basePointer = bp\<rparr>"

definition Frame_Instructions :: "Frame \<Rightarrow> byte list" where
  "Frame_Instructions f = Instructions (Fn (cl f))"

definition StackSize :: int where
  "StackSize = 2048"

definition GlobalSize :: int where
  "GlobalSize = 65536"

definition MaxFrames :: int where
  "MaxFrames = 1024"

text \<open>
  The frame stack is a slice of pointers to frames: a slot that was never written holds
  the nil pointer (\<open>None\<close>). Every frame is allocated by \<open>NewFrame\<close> for one slot, so
  the slots do not alias.
\<close>

record VM =
  constants :: "Object list"
  stack :: "Object list"
  sp :: int
  globals :: "Object list"
  frames :: "Frame option list"
  framesIndex :: int

text \<open>
  What the machine takes from other packages and from the host: the numbering of the
  opcodes (package code), the table of built-ins in the order of their indices, the
  floating-point arithmetic of the host and the identity of two pointers.
\<close>

record Host =
  opcodeOf :: "byte \<Rightarrow> Opcode option"
  Builtins :: "Object list"
  f64_add :: "float64 \<Rightarrow> float64 \<Rightarrow> float64"
  f64_sub :: "float64 \<Rightarrow> float64 \<Rightarrow> float64"
  f64_mul :: "float64 \<Rightarrow> float64 \<Rightarrow> float64"
  f64_div :: "float64 \<Rightarrow> float64 \<Rightarrow> float64"
  f64_eq :: "float64 \<Rightarrow> float64 \<Rightarrow> bool"
  f64_lt :: "float64 \<Rightarrow> float64 \<Rightarrow> bool"
  f64_le :: "float64 \<Rightarrow> float64 \<Rightarrow> bool"
  f64_of_int64 :: "int64 \<Rightarrow> float64"
  int64_of_f64 :: "float64 \<Rightarrow> int64"
  math_Max :: "float64 \<Rightarrow> float64 \<Rightarrow> float64"
  math_Min :: "float64 \<Rightarrow> float64 \<Rightarrow> float64"
  same_pointer :: "Object \<Rightarrow> Object \<Rightarrow> bool"

text \<open>
  A method of the machine changes the state in place and returns its result or an
  error; the model returns both, the state as it is when the method returns or panics.
\<close>

definition ok :: "'a \<Rightarrow> VM \<Rightarrow> (failure + 'a) \<times> VM" where
  "ok x vm = (Inr x, vm)"

definition throw :: "failure \<Rightarrow> VM \<Rightarrow> (failure + 'a) \<times> VM" where
  "throw e vm = (Inl e, vm)"

definition andThen ::
  "(VM \<Rightarrow> (failure + 'a) \<times> VM) \<Rightarrow> ('a \<Rightarrow> VM \<Rightarrow> (failure + 'b) \<times> VM) \<Rightarrow> VM \<Rightarrow> (failure + 'b) \<times> VM" where
  "andThen m f vm = (case m vm of (Inl e, vm') \<Rightarrow> (Inl e, vm') | (Inr x, vm') \<Rightarrow> f x vm')"

definition lift :: "GoPanic + 'a \<Rightarrow> VM \<Rightarrow> (failure + 'a) \<times> VM" where
  "lift r vm = (case r of Inl p \<Rightarrow> (Inl (Panic p), vm) | Inr x \<Rightarrow> (Inr x, vm))"

text \<open>A call whose returned error the source drops; a panic still propagates.\<close>

definition ignoreError :: "(VM \<Rightarrow> (failure + unit) \<times> VM) \<Rightarrow> VM \<Rightarrow> (failure + unit) \<times> VM" where
  "ignoreError m vm = (case m vm of (Inl (Errorf f as), vm') \<Rightarrow> (Inr (), vm') | r \<Rightarrow> r)"

text \<open>Reading a slice at an index, with the bounds check of Go.\<close>

definition elemAt :: "'a list \<Rightarrow> int \<Rightarrow> GoPanic + 'a" where
  "elemAt xs i = (if 0 \<le> i \<and> i < int (length xs) then Inr (xs ! nat i) else Inl IndexOutOfRange)"

definition sliceFrom :: "'a list \<Rightarrow> int \<Rightarrow> GoPanic + 'a list" where
  "sliceFrom xs i = (if 0 \<le> i \<and> i \<le> int (length xs) then Inr (drop (nat i) xs) else Inl SliceBounds)"

text \<open>
  Modelled from the spec: \<open>code.ReadUint16\<close> and \<open>code.ReadUint8\<close> are not among the
  source files; operands are 16-bit big-endian unsigned and 8-bit unsigned.
\<close>

definition ReadUint16 :: "byte list \<Rightarrow> GoPanic + int" where
  "ReadUint16 bs = (case bs of b0 # b1 # rest \<Rightarrow> Inr (uint b0 * 256 + uint b1) | _ \<Rightarrow> Inl IndexOutOfRange)"

definition ReadUint8 :: "byte list \<Rightarrow> GoPanic + int" where
  "ReadUint8 bs = (case bs of b0 # rest \<Rightarrow> Inr (uint b0) | _ \<Rightarrow> Inl IndexOutOfRange)"

definition operand16 :: "byte list \<Rightarrow> int \<Rightarrow> GoPanic + int" where
  "operand16 ins i = (case sliceFrom ins i of Inl p \<Rightarrow> Inl p | Inr bs \<Rightarrow> ReadUint16 bs)"

definition operand8 :: "byte list \<Rightarrow> int \<Rightarrow> GoPanic + int" where
  "operand8 ins i = (case sliceFrom ins i of Inl p \<Rightarrow> Inl p | Inr bs \<Rightarrow> ReadUint8 bs)"

text \<open>
  Modelled from the spec: the bytecode bundle of the compiler is not among the source
  files; \<open>New\<close> takes its instructions and its constants.
\<close>

definition New :: "byte list \<Rightarrow> Object list \<Rightarrow> VM" where
  "New instructions consts =
     \<lparr>constants = consts,
      stack = replicate (nat StackSize) NilObject,
      sp = 0,
      globals = replicate (nat GlobalSize) NilObject,
      frames = (replicate (nat MaxFrames) None)
        [0 := Some (NewFrame (Closure \<lparr>Instructions = instructions, NumLocals = 0, NumParameters = 0\<rparr> []) 0)],
      framesIndex = 1\<rparr>"

definition NewWithGlobalsStore :: "byte list \<Rightarrow> Object list \<Rightarrow> Object list \<Rightarrow> VM" where
  "NewWithGlobalsStore instructions consts s = (New instructions consts)\<lparr>globals := s\<rparr>"

definition StackTop :: "VM \<Rightarrow> GoPanic + Object" where
  "StackTop vm = (if sp vm = 0 then Inr NilObject else elemAt (stack vm) (sp vm - 1))"

definition LastPoppedStackElem :: "VM \<Rightarrow> GoPanic + Object" where
  "LastPoppedStackElem vm = elemAt (stack vm) (sp vm)"

subsection \<open>Stack and frames\<close>

definition push :: "Object \<Rightarrow> VM \<Rightarrow> (failure + unit) \<times> VM" where
  "push obj vm =
     (if sp vm \<ge> StackSize then (Inl (Errorf ''stack overflow'' []), vm)
      else if sp vm < 0 \<or> sp vm \<ge> int (length (stack vm)) then (Inl (Panic IndexOutOfRange), vm)
      else (Inr (), vm\<lparr>stack := (stack vm)[nat (sp vm) := obj], sp := sp vm + 1\<rparr>))"

definition pop :: "VM \<Rightarrow> (failure + Object) \<times> VM" where
  "pop vm =
     (case elemAt (stack vm) (sp vm - 1) of
        Inl p \<Rightarrow> (Inl (Panic p), vm)
      | Inr obj \<Rightarrow> (Inr obj, vm\<lparr>sp := sp vm - 1\<rparr>))"

definition set_sp :: "int \<Rightarrow> VM \<Rightarrow> (failure + unit) \<times> VM" where
  "set_sp n vm = (Inr (), vm\<lparr>sp := n\<rparr>)"

definition get_sp :: "VM \<Rightarrow> (failure + int) \<times> VM" where
  "get_sp vm = (Inr (sp vm), vm)"

definition currentFrame :: "VM \<Rightarrow> (failure + Frame) \<times> VM" where
  "currentFrame vm =
     (case elemAt (frames vm) (framesIndex vm - 1) of
        Inl p \<Rightarrow> (Inl (Panic p), vm)
      | Inr None \<Rightarrow> (Inl (Panic NilDereference), vm)
      | Inr (Some f) \<Rightarrow> (Inr f, vm))"

text \<open>An assignment to \<open>vm.currentFrame().ip\<close>.\<close>

definition currentFrame_ip_update :: "(int \<Rightarrow> int) \<Rightarrow> VM \<Rightarrow> (failure + unit) \<times> VM" where
  "currentFrame_ip_update g vm =
     (case currentFrame vm of
        (Inl e, vm') \<Rightarrow> (Inl e, vm')
      | (Inr f, vm') \<Rightarrow>
          (Inr (), vm'\<lparr>frames := (frames vm')[nat (framesIndex vm' - 1) := Some (f\<lparr>ip := g (ip f)\<rparr>)]\<rparr>))"

definition pushFrame :: "Frame \<Rightarrow> VM \<Rightarrow> (failure + unit) \<times> VM" where
  "pushFrame f vm =
     (if 0 \<le> framesIndex vm \<and> framesIndex vm < int (length (frames vm))
      then (Inr (), vm\<lparr>frames := (frames vm)[nat (framesIndex vm) := Some f],
                        framesIndex := framesIndex vm + 1\<rparr>)
      else (Inl (Panic IndexOutOfRange), vm))"

text \<open>
  \<open>popFrame\<close> decrements the index and then reads the slot; its callers read a field of
  the frame at once, which panics on the nil pointer.
\<close>

definition popFrame :: "VM \<Rightarrow> (failure + Frame) \<times> VM" where
  "popFrame vm =
     (let vm' = vm\<lparr>framesIndex := framesIndex vm - 1\<rparr> in
      case elemAt (frames vm') (framesIndex vm') of
        Inl p \<Rightarrow> (Inl (Panic p), vm')
      | Inr None \<Rightarrow> (Inl (Panic NilDereference), vm')
      | Inr (Some f) \<Rightarrow> (Inr f, vm'))"

definition nativeBoolToBooleanObject :: "bool \<Rightarrow> Object" where
  "nativeBoolToBooleanObject input = (if input then Boolean True else Boolean False)"

fun isTruthy :: "Object \<Rightarrow> bool" where
  "isTruthy (Boolean v) = v"
| "isTruthy Null = False"
| "isTruthy other = True"

text \<open>The type assertions \<open>x.(*object.Integer)\<close> and its like; they panic on another type.\<close>

fun asInteger :: "Object \<Rightarrow> GoPanic + int64" where
  "asInteger (Integer v) = Inr v"
| "asInteger other = Inl TypeAssertion"

fun asFloat :: "Object \<Rightarrow> GoPanic + float64" where
  "asFloat (Float v) = Inr v"
| "asFloat other = Inl TypeAssertion"

fun asString :: "Object \<Rightarrow> GoPanic + string" where
  "asString (String v) = Inr v"
| "asString other = Inl TypeAssertion"

fun asArray :: "Object \<Rightarrow> GoPanic + Object list" where
  "asArray (Array v) = Inr v"
| "asArray other = Inl TypeAssertion"

fun asDict :: "Object \<Rightarrow> GoPanic + (DictKey \<Rightarrow> DictPair option)" where
  "asDict (Dict v) = Inr v"
| "asDict other = Inl TypeAssertion"


section \<open>The array library (package builtins)\<close>

text \<open>
  A built-in takes the argument slice and returns an object, possibly the nil interface
  (\<open>NilObject\<close>), or panics. Four built-ins (\<open>removeFromArray\<close>, \<open>addToArrayStart\<close>,
  \<open>addToArrayEnd\<close>, \<open>organize\<close>) assign to \<open>arr.Elements\<close> and return the pointer \<open>arr\<close>
  they were given. An object of this model is a value, not a pointer: the model returns
  the array with its new elements, and another reference to \<open>arr\<close> (a global, a local, a
  free variable) keeps the old ones, which in the source it does not. The properties
  below concern the value returned and the stack slot it is pushed to; none of them reads
  an array through a second reference after one of these four calls.
\<close>

definition bindP :: "GoPanic + 'a \<Rightarrow> ('a \<Rightarrow> GoPanic + 'b) \<Rightarrow> GoPanic + 'b" where
  "bindP r f = (case r of Inl p \<Rightarrow> Inl p | Inr x \<Rightarrow> f x)"

text \<open>
  Modelled from the spec: the helpers \<open>NewError\<close>, \<open>NewInteger\<close> and \<open>NewFloat\<close> of the
  package are not among the source files; they make a value of error kind from a format
  and its arguments, an Integer and a Float.
\<close>

definition NewError :: "string \<Rightarrow> fmtarg list \<Rightarrow> Object" where
  "NewError format as = Error format as"

definition NewInteger :: "int64 \<Rightarrow> Object" where
  "NewInteger v = Integer v"

definition NewFloat :: "float64 \<Rightarrow> Object" where
  "NewFloat v = Float v"

definition RemoveFromArrayBuiltin :: "Object list \<Rightarrow> GoPanic + Object" where
  "RemoveFromArrayBuiltin args =
     (if length args \<noteq> 2
      then Inr (NewError ''wrong number of arguments. got=%d, want=2'' [ArgInt (int (length args))])
      else bindP (Type (args ! 0)) (\<lambda>t0.
        if t0 \<noteq> ARRAY_OBJ
        then Inr (NewError ''argument to `removeFromArray` must be ARRAY, got %s'' [ArgType t0])
        else bindP (Type (args ! 1)) (\<lambda>t1.
          if t1 \<noteq> INTEGER_OBJ
          then Inr (NewError ''index argument to `removeFromArray` must be INTEGER, got %s'' [ArgType t1])
          else bindP (asArray (args ! 0)) (\<lambda>elements.
            bindP (asInteger (args ! 1)) (\<lambda>idx.
              if sint idx < 0 \<or> sint idx \<ge> int (length elements)
              then Inr (NewError ''index out of bounds: %d'' [ArgInt (sint idx)])
              else Inr (Array (take (nat (sint idx)) elements @ drop (nat (sint idx + 1)) elements)))))))"

definition AddToArrayStartBuiltin :: "Object list \<Rightarrow> GoPanic + Object" where
  "AddToArrayStartBuiltin args =
     (if length args \<noteq> 2
      then Inr (NewError ''wrong number of arguments. got=%d, want=2'' [ArgInt (int (length args))])
      else bindP (Type (args ! 0)) (\<lambda>t0.
        if t0 \<noteq> ARRAY_OBJ
        then Inr (NewError ''argument to `addToArrayStart` must be ARRAY, got %s'' [ArgType t0])
        else bindP (asArray (args ! 0)) (\<lambda>elements. Inr (Array ([args ! 1] @ elements)))))"

definition AddToArrayEndBuiltin :: "Object list \<Rightarrow> GoPanic + Object" where
  "AddToArrayEndBuiltin args =
     (if length args \<noteq> 2
      then Inr (NewError ''wrong number of arguments. got=%d, want=2'' [ArgInt (int (length args))])
      else bindP (Type (args ! 0)) (\<lambda>t0.
        if t0 \<noteq> ARRAY_OBJ
        then Inr (NewError ''argument to `addToArrayEnd` must be ARRAY, got %s'' [ArgType t0])
        else bindP (asArray (args ! 0)) (\<lambda>elements. Inr (Array (elements @ [args ! 1])))))"

text \<open>The loop of \<open>max\<close> over \<open>arr.Elements[1:]\<close>, with the running maximum.\<close>

fun max_loop :: "Host \<Rightarrow> Object \<Rightarrow> Object list \<Rightarrow> GoPanic + Object" where
  "max_loop h mx [] = Inr mx"
| "max_loop h mx (el # els) =
     (case asInteger mx of Inl p \<Rightarrow> Inl p | Inr a \<Rightarrow>
      case asInteger el of Inl p \<Rightarrow> Inl p | Inr b \<Rightarrow>
        max_loop h
          (if f64_eq h (math_Max h (f64_of_int64 h a) (f64_of_int64 h b)) (f64_of_int64 h b)
           then el else mx) els)"

definition MaxBuiltin :: "Host \<Rightarrow> Object list \<Rightarrow> GoPanic + Object" where
  "MaxBuiltin h args =
     (if length args \<noteq> 1
      then Inr (NewError ''wrong number of arguments. got=%d, want=1'' [ArgInt (int (length args))])
      else bindP (Type (args ! 0)) (\<lambda>t0.
        if t0 \<noteq> ARRAY_OBJ
        then Inr (NewError ''argument to `max` must be ARRAY, got %s'' [ArgType t0])
        else bindP (asArray (args ! 0)) (\<lambda>elements.
          if length elements = 0 then Inr NilObject
          else max_loop h (elements ! 0) (drop 1 elements))))"

fun min_loop :: "Host \<Rightarrow> Object \<Rightarrow> Object list \<Rightarrow> GoPanic + Object" where
  "min_loop h mn [] = Inr mn"
| "min_loop h mn (el # els) =
     (case asInteger mn of Inl p \<Rightarrow> Inl p | Inr a \<Rightarrow>
      case asInteger el of Inl p \<Rightarrow> Inl p | Inr b \<Rightarrow>
        min_loop h
          (if f64_eq h (math_Min h (f64_of_int64 h a) (f64_of_int64 h b)) (f64_of_int64 h b)
           then el else mn) els)"

definition MinBuiltin :: "Host \<Rightarrow> Object list \<Rightarrow> GoPanic + Object" where
  "MinBuiltin h args =
     (if length args \<noteq> 1
      then Inr (NewError ''wrong number of arguments. got=%d, want=1'' [ArgInt (int (length args))])
      else bindP (Type (args ! 0)) (\<lambda>t0.
        if t0 \<noteq> ARRAY_OBJ
        then Inr (NewError ''argument to `min` must be ARRAY, got %s'' [ArgType t0])
        else bindP (asArray (args ! 0)) (\<lambda>elements.
          if length elements = 0 then Inr NilObject
          else min_loop h (elements ! 0) (drop 1 elements))))"

definition ArrayFirstBuiltin :: "Object list \<Rightarrow> GoPanic + Object" where
  "ArrayFirstBuiltin args =
     (if length args \<noteq> 1
      then Inr (NewError ''wrong number of arguments. got=%d, want=1'' [ArgInt (int (length args))])
      else bindP (Type (args ! 0)) (\<lambda>t0.
        if t0 \<noteq> ARRAY_OBJ
        then Inr (NewError ''argument to `first` must be ARRAY, got %s'' [ArgType t0])
        else bindP (asArray (args ! 0)) (\<lambda>elements.
          if length elements > 0 then Inr (elements ! 0) else Inr NilObject)))"

definition ArrayLastBuiltin :: "Object list \<Rightarrow> GoPanic + Object" where
  "ArrayLastBuiltin args =
     (if length args \<noteq> 1
      then Inr (NewError ''wrong number of arguments. got=%d, want=1'' [ArgInt (int (length args))])
      else bindP (Type (args ! 0)) (\<lambda>t0.
        if t0 \<noteq> ARRAY_OBJ
        then Inr (NewError ''argument to `last` must be ARRAY, got %s'' [ArgType t0])
        else bindP (asArray (args ! 0)) (\<lambda>elements.
          if length elements > 0 then Inr (elements ! (length elements - 1)) else Inr NilObject)))"

definition AllButFirstBuiltin :: "Object list \<Rightarrow> GoPanic + Object" where
  "AllButFirstBuiltin args =
     (if length args \<noteq> 1
      then Inr (NewError ''wrong number of arguments. got=%d, want=1'' [ArgInt (int (length args))])
      else bindP (Type (args ! 0)) (\<lambda>t0.
        if t0 \<noteq> ARRAY_OBJ
        then Inr (NewError ''argument to `allButFirst` must be ARRAY, got %s'' [ArgType t0])
        else bindP (asArray (args ! 0)) (\<lambda>elements.
          if length elements > 0 then Inr (Array (drop 1 elements)) else Inr NilObject)))"

text \<open>
  The loop of \<open>indexOf\<close>: \<open>typeOf\<close> is the type of the second argument \<open>idx\<close>, and \<open>i\<close>
  counts the elements seen.
\<close>

fun indexOf_loop :: "ObjectType \<Rightarrow> Object \<Rightarrow> Object list \<Rightarrow> int \<Rightarrow> GoPanic + Object" where
  "indexOf_loop typeOf idx [] i = Inr (NewInteger (- 1))"
| "indexOf_loop typeOf idx (el # els) i =
     (case (if typeOf = INTEGER_OBJ
            then (case asInteger el of Inl p \<Rightarrow> Inl p | Inr v \<Rightarrow>
                  case asInteger idx of Inl p \<Rightarrow> Inl p | Inr w \<Rightarrow> Inr (v = w))
            else Inr False) of
        Inl p \<Rightarrow> Inl p
      | Inr True \<Rightarrow> Inr (NewInteger (of_int i))
      | Inr False \<Rightarrow>
         (case (if typeOf = STRING_OBJ
                then (case asString el of Inl p \<Rightarrow> Inl p | Inr v \<Rightarrow>
                      case asString idx of Inl p \<Rightarrow> Inl p | Inr w \<Rightarrow> Inr (v = w))
                else Inr False) of
            Inl p \<Rightarrow> Inl p
          | Inr True \<Rightarrow> Inr (NewInteger (of_int i))
          | Inr False \<Rightarrow> indexOf_loop typeOf idx els (i + 1)))"

definition IndexOfBuiltin :: "Object list \<Rightarrow> GoPanic + Object" where
  "IndexOfBuiltin args =
     (if length args \<noteq> 2
      then Inr (NewError ''wrong number of arguments. got=%d, want=2'' [ArgInt (int (length args))])
      else bindP (Type (args ! 0)) (\<lambda>t0.
        if t0 \<noteq> ARRAY_OBJ
        then Inr (NewError ''argument to `indexOf` must be ARRAY, got %s'' [ArgType t0])
        else bindP (Type (args ! 1)) (\<lambda>t1.
          if t1 \<noteq> INTEGER_OBJ \<and> t1 \<noteq> STRING_OBJ
          then Inr (NewError ''index argument to `indexOf` must be INTEGER, got %s'' [ArgType t1])
          else bindP (asArray (args ! 0)) (\<lambda>elements.
            indexOf_loop t1 (args ! 1) elements 0))))"

text \<open>
  \<open>sort.Slice\<close> with a less function that asserts both of its elements to be Integers:
  on fewer than two elements less is never called; otherwise every element takes part
  in a comparison, so the call panics unless all of them are Integers, and then it
  leaves them in the order of less. Equal Integers are equal objects here, so that the
  sort is not stable cannot be seen.
\<close>

fun isInteger :: "Object \<Rightarrow> bool" where
  "isInteger (Integer v) = True"
| "isInteger other = False"

fun Integer_Value :: "Object \<Rightarrow> int64" where
  "Integer_Value (Integer v) = v"
| "Integer_Value other = 0"

definition sort_Slice :: "bool \<Rightarrow> Object list \<Rightarrow> GoPanic + Object list" where
  "sort_Slice descending elements =
     (if length elements < 2 then Inr elements
      else if list_all isInteger elements
      then Inr (map Integer
             (if descending then rev (sort_key sint (map Integer_Value elements))
              else sort_key sint (map Integer_Value elements)))
      else Inl TypeAssertion)"

definition OrganizeBuiltins :: "Object list \<Rightarrow> GoPanic + Object" where
  "OrganizeBuiltins args =
     bindP (elemAt args 0) (\<lambda>a0.
     bindP (Type a0) (\<lambda>t0.
       if t0 \<noteq> ARRAY_OBJ
       then Inr (NewError ''first argument to `organize` must be ARRAY, got %s'' [ArgType t0])
       else bindP (if length args > 1
                   then bindP (Type (args ! 1)) (\<lambda>t1.
                          if t1 = STRING_OBJ then asString (args ! 1) else Inr ''asc'')
                   else Inr ''asc'') (\<lambda>by.
            bindP (asArray a0) (\<lambda>elements.
              if by = ''asc'' then bindP (sort_Slice False elements) (\<lambda>sorted. Inr (Array sorted))
              else if by = ''desc'' then bindP (sort_Slice True elements) (\<lambda>sorted. Inr (Array sorted))
              else Inr (Array elements)))))"

fun sum_loop :: "Host \<Rightarrow> Object list \<Rightarrow> float64 \<Rightarrow> bool \<Rightarrow> GoPanic + Object" where
  "sum_loop h [] acc hasFloat =
     (if hasFloat then Inr (NewFloat acc) else Inr (NewInteger (int64_of_f64 h acc)))"
| "sum_loop h (el # els) acc hasFloat =
     (case Type el of Inl p \<Rightarrow> Inl p | Inr t \<Rightarrow>
        if t \<noteq> INTEGER_OBJ \<and> t \<noteq> FLOAT_OBJ
        then Inr (NewError ''argument to `sum` must be INTEGER or FLOAT, got %s'' [ArgType t])
        else if t = FLOAT_OBJ
        then (case asFloat el of Inl p \<Rightarrow> Inl p
              | Inr v \<Rightarrow> sum_loop h els (f64_add h acc v) True)
        else (case asInteger el of Inl p \<Rightarrow> Inl p
              | Inr v \<Rightarrow> sum_loop h els (f64_add h acc (f64_of_int64 h v)) hasFloat))"

definition SumBuiltin :: "Host \<Rightarrow> Object list \<Rightarrow> GoPanic + Object" where
  "SumBuiltin h args =
     (if length args \<noteq> 1
      then Inr (NewError ''wrong number of arguments. got=%d, want=1'' [ArgInt (int (length args))])
      else bindP (Type (args ! 0)) (\<lambda>t0.
        if t0 \<noteq> ARRAY_OBJ
        then Inr (NewError ''argument to `sum` must be ARRAY, got %s'' [ArgType t0])
        else bindP (asArray (args ! 0)) (\<lambda>elements. sum_loop h elements 0 False)))"

text \<open>The field \<open>Fn\<close> of a built-in object.\<close>

fun Builtin_Fn :: "Host \<Rightarrow> BuiltinFunction \<Rightarrow> Object list \<Rightarrow> GoPanic + Object" where
  "Builtin_Fn h Fn_removeFromArray = RemoveFromArrayBuiltin"
| "Builtin_Fn h Fn_addToArrayStart = AddToArrayStartBuiltin"
| "Builtin_Fn h Fn_addToArrayEnd = AddToArrayEndBuiltin"
| "Builtin_Fn h Fn_max = MaxBuiltin h"
| "Builtin_Fn h Fn_min = MinBuiltin h"
| "Builtin_Fn h Fn_first = ArrayFirstBuiltin"
| "Builtin_Fn h Fn_last = ArrayLastBuiltin"
| "Builtin_Fn h Fn_allButFirst = AllButFirstBuiltin"
| "Builtin_Fn h Fn_indexOf = IndexOfBuiltin"
| "Builtin_Fn h Fn_organize = OrganizeBuiltins"
| "Builtin_Fn h Fn_sum = SumBuiltin h"


section \<open>The operations of the machine\<close>

subsection \<open>Arithmetic\<close>

text \<open>
  The operators \<open>/\<close> and \<open>%\<close> of Go on \<open>int64\<close>: the quotient is truncated towards zero,
  the remainder has the sign of the dividend, the result is taken on 64 bits, and a zero
  divisor is a run-time panic (checked by the caller below).
\<close>

definition int64_quo :: "int64 \<Rightarrow> int64 \<Rightarrow> int64" where
  "int64_quo a b = word_of_int (sint a sdiv sint b)"

definition int64_rem :: "int64 \<Rightarrow> int64 \<Rightarrow> int64" where
  "int64_rem a b = word_of_int (sint a smod sint b)"

definition executeBinaryIntegerOperation ::
  "Opcode \<Rightarrow> Object \<Rightarrow> Object \<Rightarrow> VM \<Rightarrow> (failure + unit) \<times> VM" where
  "executeBinaryIntegerOperation op left right =
     andThen (lift (asInteger left)) (\<lambda>leftValue.
     andThen (lift (asInteger right)) (\<lambda>rightValue.
       case op of
         OpAdd \<Rightarrow> push (Integer (leftValue + rightValue))
       | OpSub \<Rightarrow> push (Integer (leftValue - rightValue))
       | OpMul \<Rightarrow> push (Integer (leftValue * rightValue))
       | OpDiv \<Rightarrow>
           if rightValue = 0 then throw (Panic DivideByZero)
           else push (Integer (int64_quo leftValue rightValue))
       | OpMod \<Rightarrow>
           if rightValue = 0 then throw (Panic DivideByZero)
           else push (Integer (int64_rem leftValue rightValue))
       | _ \<Rightarrow> throw (Errorf ''unknown integer operator: %d'' [ArgOp op])))"

definition executeFloatOperation ::
  "Host \<Rightarrow> Opcode \<Rightarrow> Object \<Rightarrow> Object \<Rightarrow> VM \<Rightarrow> (failure + unit) \<times> VM" where
  "executeFloatOperation h op left right =
     andThen (lift (asFloat left)) (\<lambda>leftValue.
     andThen (lift (asFloat right)) (\<lambda>rightValue.
       case op of
         OpAdd \<Rightarrow> push (Float (f64_add h leftValue rightValue))
       | OpSub \<Rightarrow> push (Float (f64_sub h leftValue rightValue))
       | OpMul \<Rightarrow> push (Float (f64_mul h leftValue rightValue))
       | OpDiv \<Rightarrow> push (Float (f64_div h leftValue rightValue))
       | _ \<Rightarrow> throw (Errorf ''unknown float operator: %d'' [ArgOp op])))"

definition executeIntLeftFloatRight ::
  "Host \<Rightarrow> Opcode \<Rightarrow> Object \<Rightarrow> Object \<Rightarrow> VM \<Rightarrow> (failure + unit) \<times> VM" where
  "executeIntLeftFloatRight h op left right =
     andThen (lift (asInteger left)) (\<lambda>leftValue.
     andThen (lift (asFloat right)) (\<lambda>rightValue.
       case op of
         OpAdd \<Rightarrow> push (Float (f64_add h (f64_of_int64 h leftValue) rightValue))
       | OpSub \<Rightarrow> push (Float (f64_sub h (f64_of_int64 h leftValue) rightValue))
       | OpMul \<Rightarrow> push (Float (f64_mul h (f64_of_int64 h leftValue) rightValue))
       | OpDiv \<Rightarrow> push (Float (f64_div h (f64_of_int64 h leftValue) rightValue))
       | _ \<Rightarrow> throw (Errorf ''unknown float operator: %d'' [ArgOp op])))"

definition executeIntRightFloatLeft ::
  "Host \<Rightarrow> Opcode \<Rightarrow> Object \<Rightarrow> Object \<Rightarrow> VM \<Rightarrow> (failure + unit) \<times> VM" where
  "executeIntRightFloatLeft h op left right =
     andThen (lift (asFloat left)) (\<lambda>leftValue.
     andThen (lift (asInteger right)) (\<lambda>rightValue.
       case op of
         OpAdd \<Rightarrow> push (Float (f64_add h leftValue (f64_of_int64 h rightValue)))
       | OpSub \<Rightarrow> push (Float (f64_sub h leftValue (f64_of_int64 h rightValue)))
       | OpMul \<Rightarrow> push (Float (f64_mul h leftValue (f64_of_int64 h rightValue)))
       | OpDiv \<Rightarrow> push (Float (f64_div h leftValue (f64_of_int64 h rightValue)))
       | _ \<Rightarrow> throw (Errorf ''unknown float operator: %d'' [ArgOp op])))"

definition executeBinaryStringOperation ::
  "Opcode \<Rightarrow> Object \<Rightarrow> Object \<Rightarrow> VM \<Rightarrow> (failure + unit) \<times> VM" where
  "executeBinaryStringOperation op left right =
     (if op \<noteq> OpAdd then throw (Errorf ''unknown string operator: %d'' [ArgOp op])
      else andThen (lift (asString left)) (\<lambda>leftValue.
           andThen (lift (asString right)) (\<lambda>rightValue.
             push (String (leftValue @ rightValue)))))"

definition executeBinaryOperation :: "Host \<Rightarrow> Opcode \<Rightarrow> VM \<Rightarrow> (failure + unit) \<times> VM" where
  "executeBinaryOperation h op =
     andThen pop (\<lambda>right.
     andThen pop (\<lambda>left.
     andThen (lift (Type left)) (\<lambda>leftType.
     andThen (lift (Type right)) (\<lambda>rightType.
       if leftType = INTEGER_OBJ \<and> rightType = INTEGER_OBJ
       then executeBinaryIntegerOperation op left right
       else if leftType = FLOAT_OBJ \<and> rightType = FLOAT_OBJ
       then executeFloatOperation h op left right
       else if leftType = INTEGER_OBJ \<and> rightType = FLOAT_OBJ
       then executeIntLeftFloatRight h op left right
       else if leftType = FLOAT_OBJ \<and> rightType = INTEGER_OBJ
       then executeIntRightFloatLeft h op left right
       else if leftType = STRING_OBJ \<and> rightType = STRING_OBJ
       then executeBinaryStringOperation op left right
       else throw (Errorf ''unsupported types for binary operation: %s %s''
                     [ArgType leftType, ArgType rightType])))))"

subsection \<open>Comparison\<close>

text \<open>
  The comparisons of two floats, from the three that the host gives: \<open>a > b\<close> is
  \<open>b < a\<close>, \<open>a >= b\<close> is \<open>b <= a\<close> and \<open>a != b\<close> is the negation of \<open>a == b\<close>.
\<close>

definition floatComparison :: "Host \<Rightarrow> string \<Rightarrow> Opcode \<Rightarrow> float64 \<Rightarrow> float64 \<Rightarrow> VM \<Rightarrow> (failure + unit) \<times> VM" where
  "floatComparison h unknown op leftValue rightValue =
     (case op of
        OpEqual \<Rightarrow> push (nativeBoolToBooleanObject (f64_eq h leftValue rightValue))
      | OpNotEqual \<Rightarrow> push (nativeBoolToBooleanObject (\<not> f64_eq h leftValue rightValue))
      | OpGreaterThan \<Rightarrow> push (nativeBoolToBooleanObject (f64_lt h rightValue leftValue))
      | OpLessThan \<Rightarrow> push (nativeBoolToBooleanObject (f64_lt h leftValue rightValue))
      | OpGreaterThanOrEqual \<Rightarrow> push (nativeBoolToBooleanObject (f64_le h rightValue leftValue))
      | OpLessThanOrEqual \<Rightarrow> push (nativeBoolToBooleanObject (f64_le h leftValue rightValue))
      | _ \<Rightarrow> throw (Errorf unknown [ArgOp op]))"

definition executeIntLeftFloatRightComparison ::
  "Host \<Rightarrow> Opcode \<Rightarrow> Object \<Rightarrow> Object \<Rightarrow> VM \<Rightarrow> (failure + unit) \<times> VM" where
  "executeIntLeftFloatRightComparison h op left right =
     andThen (lift (asInteger left)) (\<lambda>leftValue.
     andThen (lift (asFloat right)) (\<lambda>rightValue.
       floatComparison h ''unknown float operator: %d'' op (f64_of_int64 h leftValue) rightValue))"

definition executeIntRightFloatLeftComparison ::
  "Host \<Rightarrow> Opcode \<Rightarrow> Object \<Rightarrow> Object \<Rightarrow> VM \<Rightarrow> (failure + unit) \<times> VM" where
  "executeIntRightFloatLeftComparison h op left right =
     andThen (lift (asFloat left)) (\<lambda>leftValue.
     andThen (lift (asInteger right)) (\<lambda>rightValue.
       floatComparison h ''unknown float operator: %d'' op leftValue (f64_of_int64 h rightValue)))"

definition executeFloatComparison ::
  "Host \<Rightarrow> Opcode \<Rightarrow> Object \<Rightarrow> Object \<Rightarrow> VM \<Rightarrow> (failure + unit) \<times> VM" where
  "executeFloatComparison h op left right =
     andThen (lift (asFloat left)) (\<lambda>leftValue.
     andThen (lift (asFloat right)) (\<lambda>rightValue.
       floatComparison h ''unknown float operator: %d'' op leftValue rightValue))"

definition executeStringComparison ::
  "Opcode \<Rightarrow> Object \<Rightarrow> Object \<Rightarrow> VM \<Rightarrow> (failure + unit) \<times> VM" where
  "executeStringComparison op left right =
     (if op \<noteq> OpEqual then throw (Errorf ''unknown string operator: %d'' [ArgOp op])
      else andThen (lift (asString left)) (\<lambda>leftValue.
           andThen (lift (asString right)) (\<lambda>rightValue.
             push (nativeBoolToBooleanObject (leftValue = rightValue)))))"

definition executeIntegerComparison ::
  "Opcode \<Rightarrow> Object \<Rightarrow> Object \<Rightarrow> VM \<Rightarrow> (failure + unit) \<times> VM" where
  "executeIntegerComparison op left right =
     andThen (lift (asInteger left)) (\<lambda>leftValue.
     andThen (lift (asInteger right)) (\<lambda>rightValue.
       case op of
         OpEqual \<Rightarrow> push (nativeBoolToBooleanObject (rightValue = leftValue))
       | OpNotEqual \<Rightarrow> push (nativeBoolToBooleanObject (rightValue \<noteq> leftValue))
       | OpGreaterThan \<Rightarrow> push (nativeBoolToBooleanObject (sint leftValue > sint rightValue))
       | OpLessThan \<Rightarrow> push (nativeBoolToBooleanObject (sint leftValue < sint rightValue))
       | OpGreaterThanOrEqual \<Rightarrow> push (nativeBoolToBooleanObject (sint leftValue \<ge> sint rightValue))
       | OpLessThanOrEqual \<Rightarrow> push (nativeBoolToBooleanObject (sint leftValue \<le> sint rightValue))
       | _ \<Rightarrow> throw (Errorf ''unknown operator: %d'' [ArgOp op])))"

text \<open>
  The comparison \<open>right == left\<close> of two interface values that hold pointers: Booleans
  and Null are the singletons of the machine; objects of different types differ; for
  two other objects of one type the host tells whether they are the same pointer.
\<close>

fun identical :: "Host \<Rightarrow> Object \<Rightarrow> Object \<Rightarrow> bool" where
  "identical h (Boolean a) (Boolean b) = (a = b)"
| "identical h Null Null = True"
| "identical h NilObject NilObject = True"
| "identical h x y = (Type x = Type y \<and> same_pointer h x y)"

text \<open>
  The condition \<open>x.Type() == t\<close>, and \<open>a && b\<close> where \<open>b\<close> is evaluated, and may panic,
  only when \<open>a\<close> holds.
\<close>

definition typeIs :: "Object \<Rightarrow> ObjectType \<Rightarrow> GoPanic + bool" where
  "typeIs x t = bindP (Type x) (\<lambda>tx. Inr (tx = t))"

definition andAlso :: "GoPanic + bool \<Rightarrow> GoPanic + bool \<Rightarrow> GoPanic + bool" where
  "andAlso a b = bindP a (\<lambda>c. if c then b else Inr False)"

definition executeComparison :: "Host \<Rightarrow> Opcode \<Rightarrow> VM \<Rightarrow> (failure + unit) \<times> VM" where
  "executeComparison h op =
     andThen pop (\<lambda>right.
     andThen pop (\<lambda>left.
     andThen (lift (andAlso (typeIs left INTEGER_OBJ) (typeIs right INTEGER_OBJ))) (\<lambda>c1.
       if c1 then executeIntegerComparison op left right else
     andThen (lift (andAlso (typeIs left INTEGER_OBJ) (typeIs right FLOAT_OBJ))) (\<lambda>c2.
       if c2 then executeIntLeftFloatRightComparison h op left right else
     andThen (lift (andAlso (typeIs left FLOAT_OBJ) (typeIs right FLOAT_OBJ))) (\<lambda>c3.
       if c3 then executeFloatComparison h op left right else
     andThen (lift (andAlso (typeIs left FLOAT_OBJ) (typeIs right INTEGER_OBJ))) (\<lambda>c4.
       if c4 then executeIntRightFloatLeftComparison h op left right else
     andThen (lift (andAlso (typeIs left STRING_OBJ) (typeIs right STRING_OBJ))) (\<lambda>c5.
       if c5 then executeStringComparison op left right else
       (case op of
          OpEqual \<Rightarrow> push (nativeBoolToBooleanObject (identical h right left))
        | OpNotEqual \<Rightarrow> push (nativeBoolToBooleanObject (\<not> identical h right left))
        | _ \<Rightarrow> andThen (lift (Type left)) (\<lambda>leftType.
               andThen (lift (Type right)) (\<lambda>rightType.
                 throw (Errorf ''unknown operator: %d (%s %s)''
                          [ArgOp op, ArgType leftType, ArgType rightType])))))))))))"

definition executeBangOperator :: "VM \<Rightarrow> (failure + unit) \<times> VM" where
  "executeBangOperator =
     andThen pop (\<lambda>val.
       case val of
         Boolean True \<Rightarrow> push (Boolean False)
       | Boolean False \<Rightarrow> push (Boolean True)
       | Null \<Rightarrow> push (Boolean True)
       | _ \<Rightarrow> push (Boolean False))"

definition executeMinusOperator :: "VM \<Rightarrow> (failure + unit) \<times> VM" where
  "executeMinusOperator =
     andThen pop (\<lambda>val.
     andThen (lift (Type val)) (\<lambda>t.
       if t \<noteq> INTEGER_OBJ then throw (Errorf ''unsupported type for negation: %s'' [ArgType t])
       else andThen (lift (asInteger val)) (\<lambda>v. push (Integer (- v)))))"


subsection \<open>Arrays and dictionaries\<close>

text \<open>
  \<open>buildArray\<close> copies \<open>stack[startIndex..endIndex)\<close>. \<open>make\<close> panics on a negative
  length, and the first read outside the stack panics.
\<close>

definition buildArray :: "int \<Rightarrow> int \<Rightarrow> VM \<Rightarrow> GoPanic + Object" where
  "buildArray startIndex endIndex vm =
     (if endIndex - startIndex < 0 then Inl MakeSliceLen
      else if startIndex < endIndex \<and> (startIndex < 0 \<or> int (length (stack vm)) < endIndex)
      then Inl IndexOutOfRange
      else Inr (Array (take (nat (endIndex - startIndex)) (drop (nat startIndex) (stack vm)))))"

text \<open>
  The loop of \<open>buildDict\<close>: \<open>i\<close> runs from \<open>startIndex\<close> in steps of two, and
  \<open>dictedPairs\<close> is the Go map built so far.
\<close>

function buildDict_loop ::
  "VM \<Rightarrow> int \<Rightarrow> int \<Rightarrow> (DictKey \<Rightarrow> DictPair option) \<Rightarrow> failure + (DictKey \<Rightarrow> DictPair option)" where
  "buildDict_loop vm i endIndex dictedPairs =
     (if i < endIndex then
        (case elemAt (stack vm) i of Inl p \<Rightarrow> Inl (Panic p) | Inr key \<Rightarrow>
         case elemAt (stack vm) (i + 1) of Inl p \<Rightarrow> Inl (Panic p) | Inr val \<Rightarrow>
         case Dictable key of
           None \<Rightarrow> (case Type key of Inl p \<Rightarrow> Inl (Panic p)
                    | Inr t \<Rightarrow> Inl (Errorf ''unusable as hash key: %s'' [ArgType t]))
         | Some dictKey \<Rightarrow>
             buildDict_loop vm (i + 2) endIndex (dictedPairs(dictKey \<mapsto> DictPair key val)))
      else Inr dictedPairs)"
  by pat_completeness auto
termination
  by (relation "measure (\<lambda>(vm, i, endIndex, dictedPairs). nat (endIndex - i))") auto

declare buildDict_loop.simps [simp del]

definition buildDict :: "int \<Rightarrow> int \<Rightarrow> VM \<Rightarrow> failure + Object" where
  "buildDict startIndex endIndex vm =
     (case buildDict_loop vm startIndex endIndex Map.empty of
        Inl e \<Rightarrow> Inl e
      | Inr dictedPairs \<Rightarrow> Inr (Dict dictedPairs))"

definition executeArrayIndex :: "Object \<Rightarrow> Object \<Rightarrow> VM \<Rightarrow> (failure + unit) \<times> VM" where
  "executeArrayIndex array idx =
     andThen (lift (asArray array)) (\<lambda>elements.
     andThen (lift (asInteger idx)) (\<lambda>i.
       if sint i < 0 \<or> sint i > int (length elements) - 1 then push Null
       else andThen (lift (elemAt elements (sint i))) push))"

definition executeDictIndex :: "Object \<Rightarrow> Object \<Rightarrow> VM \<Rightarrow> (failure + unit) \<times> VM" where
  "executeDictIndex dict idx =
     andThen (lift (asDict dict)) (\<lambda>pairs.
       case Dictable idx of
         None \<Rightarrow> andThen (lift (Type idx)) (\<lambda>t.
                   throw (Errorf ''unusable as hash key: %s'' [ArgType t]))
       | Some key \<Rightarrow>
          (case pairs key of
             None \<Rightarrow> push Null
           | Some pair \<Rightarrow> push (Value pair)))"

definition executeIndexExpression :: "Object \<Rightarrow> Object \<Rightarrow> VM \<Rightarrow> (failure + unit) \<times> VM" where
  "executeIndexExpression left idx =
     andThen (lift (andAlso (typeIs left ARRAY_OBJ) (typeIs idx INTEGER_OBJ))) (\<lambda>c1.
       if c1 then executeArrayIndex left idx else
     andThen (lift (typeIs left DICT_OBJ)) (\<lambda>c2.
       if c2 then executeDictIndex left idx else
     andThen (lift (Type left)) (\<lambda>t.
       throw (Errorf ''index operator not supported: %s'' [ArgType t]))))"

subsection \<open>Calls\<close>

definition callClosure :: "Closure \<Rightarrow> int \<Rightarrow> VM \<Rightarrow> (failure + unit) \<times> VM" where
  "callClosure c numArgs =
     (if numArgs \<noteq> NumParameters (Fn c)
      then throw (Errorf ''wrong number of arguments: want=%d, got=%d''
                    [ArgInt (NumParameters (Fn c)), ArgInt numArgs])
      else andThen get_sp (\<lambda>s.
           andThen (pushFrame (NewFrame c (s - numArgs))) (\<lambda>u.
             set_sp (basePointer (NewFrame c (s - numArgs)) + NumLocals (Fn c)))))"

text \<open>
  \<open>callBuiltin\<close>: the arguments are the slice \<open>stack[sp-numArgs : sp]\<close>; the result of
  the built-in, or Null when it is nil, is pushed over the callee, and the error of
  \<open>push\<close> is dropped.
\<close>

definition sliceRange :: "'a list \<Rightarrow> int \<Rightarrow> int \<Rightarrow> GoPanic + 'a list" where
  "sliceRange xs lo hi =
     (if 0 \<le> lo \<and> lo \<le> hi \<and> hi \<le> int (length xs)
      then Inr (take (nat (hi - lo)) (drop (nat lo) xs))
      else Inl SliceBounds)"

definition callBuiltin :: "Host \<Rightarrow> BuiltinFunction \<Rightarrow> int \<Rightarrow> VM \<Rightarrow> (failure + unit) \<times> VM" where
  "callBuiltin h builtin numArgs =
     andThen get_sp (\<lambda>s.
     andThen (\<lambda>vm. lift (sliceRange (stack vm) (s - numArgs) s) vm) (\<lambda>args.
     andThen (lift (Builtin_Fn h builtin args)) (\<lambda>result.
     andThen (set_sp (s - numArgs - 1)) (\<lambda>u.
       case result of
         NilObject \<Rightarrow> ignoreError (push Null)
       | _ \<Rightarrow> ignoreError (push result)))))"

definition executeCall :: "Host \<Rightarrow> int \<Rightarrow> VM \<Rightarrow> (failure + unit) \<times> VM" where
  "executeCall h numArgs =
     andThen (\<lambda>vm. lift (elemAt (stack vm) (sp vm - 1 - numArgs)) vm) (\<lambda>callee.
       case callee of
         ClosureObj c \<Rightarrow> callClosure c numArgs
       | Builtin b \<Rightarrow> callBuiltin h b numArgs
       | _ \<Rightarrow> andThen (lift (Type callee)) (\<lambda>t.
               throw (Errorf ''calling non-function and non-built-in object: %s'' [ArgType t])))"

text \<open>
  \<open>pushClosure\<close>: the constant must be a compiled function; the \<open>numFree\<close> objects on
  top of the stack become the free variables of the closure.
\<close>

definition goType :: "Object \<Rightarrow> ObjectType option" where
  "goType x = (case Type x of Inl p \<Rightarrow> None | Inr t \<Rightarrow> Some t)"

definition pushClosure :: "int \<Rightarrow> int \<Rightarrow> VM \<Rightarrow> (failure + unit) \<times> VM" where
  "pushClosure constIndex numFree =
     andThen (\<lambda>vm. lift (elemAt (constants vm) constIndex) vm) (\<lambda>constant.
       case constant of
         CompiledFunctionObj function \<Rightarrow>
           andThen get_sp (\<lambda>s.
           andThen (\<lambda>vm. lift (if numFree < 0 then Inl MakeSliceLen
                               else if 0 < numFree \<and> (s - numFree < 0 \<or> int (length (stack vm)) < s)
                               then Inl IndexOutOfRange
                               else Inr (take (nat numFree) (drop (nat (s - numFree)) (stack vm)))) vm)
             (\<lambda>free.
           andThen (set_sp (s - numFree)) (\<lambda>u.
             push (ClosureObj (Closure function free)))))
       | _ \<Rightarrow> throw (Errorf ''not a function: %T'' [ArgGoType (goType constant)]))"


subsection \<open>The dispatch loop\<close>

text \<open>The assignments \<open>vm.currentFrame().ip += n\<close> and \<open>vm.currentFrame().ip = n\<close>.\<close>

definition addIp :: "int \<Rightarrow> VM \<Rightarrow> (failure + unit) \<times> VM" where
  "addIp n = currentFrame_ip_update (\<lambda>i. i + n)"

definition setIp :: "int \<Rightarrow> VM \<Rightarrow> (failure + unit) \<times> VM" where
  "setIp n = currentFrame_ip_update (\<lambda>i. n)"

text \<open>
  An assignment \<open>xs[i] = vm.pop()\<close>: the right-hand side is evaluated first, then the
  store checks the index.
\<close>

definition storeStack :: "int \<Rightarrow> Object \<Rightarrow> VM \<Rightarrow> (failure + unit) \<times> VM" where
  "storeStack i v vm =
     (if 0 \<le> i \<and> i < int (length (stack vm))
      then (Inr (), vm\<lparr>stack := (stack vm)[nat i := v]\<rparr>)
      else (Inl (Panic IndexOutOfRange), vm))"

definition storeGlobal :: "int \<Rightarrow> Object \<Rightarrow> VM \<Rightarrow> (failure + unit) \<times> VM" where
  "storeGlobal i v vm =
     (if 0 \<le> i \<and> i < int (length (globals vm))
      then (Inr (), vm\<lparr>globals := (globals vm)[nat i := v]\<rparr>)
      else (Inl (Panic IndexOutOfRange), vm))"

text \<open>
  The body of the \<open>switch\<close> of \<open>Run\<close> for one opcode: \<open>ins\<close> are the instructions of the
  current frame and \<open>i\<close> is the position of the opcode, both read before the switch.
\<close>

fun execute :: "Host \<Rightarrow> Opcode \<Rightarrow> byte list \<Rightarrow> int \<Rightarrow> VM \<Rightarrow> (failure + unit) \<times> VM" where
  "execute h OpConstant ins i =
     andThen (lift (operand16 ins (i + 1))) (\<lambda>constIndex.
     andThen (addIp 2) (\<lambda>u.
     andThen (\<lambda>vm. lift (elemAt (constants vm) constIndex) vm) push))"
| "execute h OpAdd ins i = executeBinaryOperation h OpAdd"
| "execute h OpSub ins i = executeBinaryOperation h OpSub"
| "execute h OpMul ins i = executeBinaryOperation h OpMul"
| "execute h OpDiv ins i = executeBinaryOperation h OpDiv"
| "execute h OpMod ins i = executeBinaryOperation h OpMod"
| "execute h OpAnd ins i =
     andThen pop (\<lambda>right.
     andThen pop (\<lambda>left.
       ignoreError (push (nativeBoolToBooleanObject (isTruthy left \<and> isTruthy right)))))"
| "execute h OpOr ins i =
     andThen pop (\<lambda>right.
     andThen pop (\<lambda>left.
       ignoreError (push (nativeBoolToBooleanObject (isTruthy left \<or> isTruthy right)))))"
| "execute h OpEqual ins i = executeComparison h OpEqual"
| "execute h OpNotEqual ins i = executeComparison h OpNotEqual"
| "execute h OpGreaterThan ins i = executeComparison h OpGreaterThan"
| "execute h OpLessThan ins i = executeComparison h OpLessThan"
| "execute h OpLessThanOrEqual ins i = executeComparison h OpLessThanOrEqual"
| "execute h OpGreaterThanOrEqual ins i = executeComparison h OpGreaterThanOrEqual"
| "execute h OpTrue ins i = push (Boolean True)"
| "execute h OpFalse ins i = push (Boolean False)"
| "execute h OpBang ins i = executeBangOperator"
| "execute h OpMinus ins i = executeMinusOperator"
| "execute h OpPop ins i = andThen pop (\<lambda>v. ok ())"
| "execute h OpJump ins i =
     andThen (lift (operand16 ins (i + 1))) (\<lambda>pos. setIp (pos - 1))"
| "execute h OpJumpNotTruthy ins i =
     andThen (lift (operand16 ins (i + 1))) (\<lambda>pos.
     andThen (addIp 2) (\<lambda>u.
     andThen pop (\<lambda>condition.
       if \<not> isTruthy condition then setIp (pos - 1) else ok ())))"
| "execute h OpNull ins i = push Null"
| "execute h OpSetGlobal ins i =
     andThen (lift (operand16 ins (i + 1))) (\<lambda>globalIndex.
     andThen (addIp 2) (\<lambda>u.
     andThen pop (\<lambda>v. storeGlobal globalIndex v)))"
| "execute h OpGetGlobal ins i =
     andThen (lift (operand16 ins (i + 1))) (\<lambda>globalIndex.
     andThen (addIp 2) (\<lambda>u.
     andThen (\<lambda>vm. lift (elemAt (globals vm) globalIndex) vm) push))"
| "execute h OpArray ins i =
     andThen (lift (operand16 ins (i + 1))) (\<lambda>numElements.
     andThen (addIp 2) (\<lambda>u.
     andThen get_sp (\<lambda>s.
     andThen (\<lambda>vm. lift (buildArray (s - numElements) s vm) vm) (\<lambda>array.
     andThen (set_sp (s - numElements)) (\<lambda>u.
       push array)))))"
| "execute h OpDict ins i =
     andThen (lift (operand16 ins (i + 1))) (\<lambda>numElements.
     andThen (addIp 2) (\<lambda>u.
     andThen get_sp (\<lambda>s.
     andThen (\<lambda>vm. (buildDict (s - numElements) s vm, vm)) (\<lambda>dict.
     andThen (set_sp (s - numElements)) (\<lambda>u.
       push dict)))))"
| "execute h OpIndex ins i =
     andThen pop (\<lambda>idx.
     andThen pop (\<lambda>left.
       executeIndexExpression left idx))"
| "execute h OpCall ins i =
     andThen (lift (operand8 ins (i + 1))) (\<lambda>numArgs.
     andThen (addIp 1) (\<lambda>u.
       executeCall h numArgs))"
| "execute h OpReturnValue ins i =
     andThen pop (\<lambda>returnValue.
     andThen popFrame (\<lambda>frame.
     andThen (set_sp (basePointer frame - 1)) (\<lambda>u.
       push returnValue)))"
| "execute h OpReturn ins i =
     andThen popFrame (\<lambda>frame.
     andThen (set_sp (basePointer frame - 1)) (\<lambda>u.
       push Null))"
| "execute h OpSetLocal ins i =
     andThen (lift (operand8 ins (i + 1))) (\<lambda>localIndex.
     andThen (addIp 1) (\<lambda>u.
     andThen currentFrame (\<lambda>frame.
     andThen pop (\<lambda>v. storeStack (basePointer frame + localIndex) v))))"
| "execute h OpGetLocal ins i =
     andThen (lift (operand8 ins (i + 1))) (\<lambda>localIndex.
     andThen (addIp 1) (\<lambda>u.
     andThen currentFrame (\<lambda>frame.
     andThen (\<lambda>vm. lift (elemAt (stack vm) (basePointer frame + localIndex)) vm) push)))"
| "execute h OpGetBuiltin ins i =
     andThen (lift (operand8 ins (i + 1))) (\<lambda>builtinIndex.
     andThen (addIp 1) (\<lambda>u.
     andThen (lift (elemAt (Builtins h) builtinIndex)) push))"
| "execute h OpClosure ins i =
     andThen (lift (operand16 ins (i + 1))) (\<lambda>constIndex.
     andThen (lift (operand8 ins (i + 3))) (\<lambda>numFree.
     andThen (addIp 3) (\<lambda>u.
       pushClosure constIndex numFree)))"
| "execute h OpGetFree ins i =
     andThen (lift (operand8 ins (i + 1))) (\<lambda>freeIndex.
     andThen (addIp 1) (\<lambda>u.
     andThen currentFrame (\<lambda>frame.
     andThen (lift (elemAt (Free (cl frame)) freeIndex)) push)))"
| "execute h OpCurrentClosure ins i =
     andThen currentFrame (\<lambda>frame. push (ClosureObj (cl frame)))"
| "execute h OpWhile ins i =
     andThen (lift (operand16 ins (i + 1))) (\<lambda>pos.
     andThen (addIp 2) (\<lambda>u.
     andThen pop (\<lambda>condition.
     andThen (if \<not> isTruthy condition then setIp (pos - 1) else ok ()) (\<lambda>u.
       setIp (pos - 1)))))"
| "execute h OpGetAttr ins i =
     andThen pop (\<lambda>attrNameObj.
       case attrNameObj of
         String attrName \<Rightarrow>
           andThen pop (\<lambda>obj.
             case obj of
               Date d \<Rightarrow>
                 if attrName = ''hour'' then ignoreError (push (Integer (of_int (Hour d))))
                 else if attrName = ''minute'' then ignoreError (push (Integer (of_int (Minute d))))
                 else if attrName = ''day'' then ignoreError (push (Integer (of_int (Day d))))
                 else if attrName = ''second'' then ignoreError (push (Integer (of_int (Second d))))
                 else if attrName = ''month'' then ignoreError (push (Integer (of_int (Month d))))
                 else if attrName = ''year'' then ignoreError (push (Integer (of_int (Year d))))
                 else if attrName = ''fullDate'' then ignoreError (push (String (FullDate d)))
                 else throw (Errorf ''unknown attribute %s for Date'' [ArgStr attrName])
             | _ \<Rightarrow> andThen (lift (Type obj)) (\<lambda>t.
                     throw (Errorf ''object type %s has no attributes'' [ArgType t])))
       | _ \<Rightarrow> andThen (lift (Type attrNameObj)) (\<lambda>t.
               throw (Errorf ''attribute name must be a string, got %s'' [ArgType t])))"

text \<open>
  One turn of the loop of \<open>Run\<close>: the instruction pointer of the current frame is
  incremented, the opcode at it is read and dispatched. A byte that is no opcode of the
  switch does nothing.
\<close>

definition step :: "Host \<Rightarrow> VM \<Rightarrow> (failure + unit) \<times> VM" where
  "step h =
     andThen (addIp 1) (\<lambda>u.
     andThen currentFrame (\<lambda>frame.
     andThen (lift (elemAt (Frame_Instructions frame) (ip frame))) (\<lambda>b.
       case opcodeOf h b of
         None \<Rightarrow> ok ()
       | Some op \<Rightarrow> execute h op (Frame_Instructions frame) (ip frame))))"

text \<open>The condition of the loop.\<close>

definition running :: "VM \<Rightarrow> (failure + bool) \<times> VM" where
  "running =
     andThen currentFrame (\<lambda>frame. ok (ip frame < int (length (Frame_Instructions frame)) - 1))"

text \<open>
  \<open>Run\<close>, with a bound on the number of turns of the loop: \<open>None\<close> when the bound is
  reached before the loop ends.
\<close>

fun Run :: "Host \<Rightarrow> nat \<Rightarrow> VM \<Rightarrow> ((failure + unit) \<times> VM) option" where
  "Run h 0 vm = None"
| "Run h (Suc n) vm =
     (case running vm of
        (Inl e, vm') \<Rightarrow> Some (Inl e, vm')
      | (Inr False, vm') \<Rightarrow> Some (Inr (), vm')
      | (Inr True, vm') \<Rightarrow>
         (case step h vm' of
            (Inl e, vm'') \<Rightarrow> Some (Inl e, vm'')
          | (Inr u, vm'') \<Rightarrow> Run h n vm''))"


section \<open>Executions\<close>

text \<open>
  The instruction that the next turn of the loop executes: its opcode, the instructions
  of the current frame and the position of the opcode.
\<close>

definition fetch :: "Host \<Rightarrow> VM \<Rightarrow> (Opcode \<times> byte list \<times> int) option" where
  "fetch h vm =
     (case currentFrame vm of
        (Inl e, vm') \<Rightarrow> None
      | (Inr frame, vm') \<Rightarrow>
         (case elemAt (Frame_Instructions frame) (ip frame + 1) of
            Inl p \<Rightarrow> None
          | Inr b \<Rightarrow>
             (case opcodeOf h b of
                None \<Rightarrow> None
              | Some op \<Rightarrow> Some (op, Frame_Instructions frame, ip frame + 1))))"

text \<open>
  \<open>runs_above h d vm vm'\<close>: the machine gets from \<open>vm\<close> to \<open>vm'\<close> by turns of the loop
  that return no error, and no turn starts or ends with fewer than \<open>d\<close> frames in use.
  From the state after a call, with \<open>d\<close> the number of frames then, these are the
  executions inside the call, up to its own return.
\<close>

inductive runs_above :: "Host \<Rightarrow> int \<Rightarrow> VM \<Rightarrow> VM \<Rightarrow> bool" for h d where
  start: "runs_above h d vm vm"
| turn: "runs_above h d vm vm' \<Longrightarrow> d \<le> framesIndex vm' \<Longrightarrow> step h vm' = (Inr (), vm'') \<Longrightarrow>
         d \<le> framesIndex vm'' \<Longrightarrow> runs_above h d vm vm''"

code_pred (modes: i \<Rightarrow> i \<Rightarrow> i \<Rightarrow> o \<Rightarrow> bool) runs_above .

text \<open>
  The base pointers of the frame slots, and what a turn of the loop keeps of them: the
  base pointer of every frame in use. A computation \<open>keeps\<close> the frames when moreover it
  does not pop one.
\<close>

definition basePointers :: "VM \<Rightarrow> nat \<Rightarrow> int option" where
  "basePointers vm k = map_option basePointer (frames vm ! k)"

definition below_kept :: "VM \<Rightarrow> VM \<Rightarrow> bool" where
  "below_kept vm vm' =
     (length (frames vm') = length (frames vm)
      \<and> (\<forall>k. int k < framesIndex vm \<longrightarrow> basePointers vm' k = basePointers vm k))"

definition frames_kept :: "VM \<Rightarrow> VM \<Rightarrow> bool" where
  "frames_kept vm vm' = (below_kept vm vm' \<and> framesIndex vm \<le> framesIndex vm')"

definition keeps :: "(VM \<Rightarrow> (failure + 'a) \<times> VM) \<Rightarrow> bool" where
  "keeps m = (\<forall>vm. frames_kept vm (snd (m vm)))"

definition keeps_below :: "(VM \<Rightarrow> (failure + 'a) \<times> VM) \<Rightarrow> bool" where
  "keeps_below m = (\<forall>vm. below_kept vm (snd (m vm)))"

text \<open>
  The stack is a slice of \<open>StackSize\<close> objects made once by \<open>New\<close>; the machine stores into
  it by index only. A computation keeps the size of the stack when the slice is as long
  after it as before.
\<close>

definition stack_kept :: "(VM \<Rightarrow> (failure + 'a) \<times> VM) \<Rightarrow> bool" where
  "stack_kept m = (\<forall>vm. length (stack (snd (m vm))) = length (stack vm))"


section \<open>The words of the specification\<close>

text \<open>
  The result of the host on 64-bit signed integers: the exact result is reduced to the
  two's complement range, and division truncates towards zero.
\<close>

definition wrap_int64 :: "int \<Rightarrow> int" where
  "wrap_int64 n = (n + 2 ^ 63) mod 2 ^ 64 - 2 ^ 63"

definition truncated_quotient :: "int \<Rightarrow> int \<Rightarrow> int" where
  "truncated_quotient a b = (if (a < 0) = (b < 0) then \<bar>a\<bar> div \<bar>b\<bar> else - (\<bar>a\<bar> div \<bar>b\<bar>))"

fun host_int64 :: "Opcode \<Rightarrow> int \<Rightarrow> int \<Rightarrow> int" where
  "host_int64 OpAdd a b = wrap_int64 (a + b)"
| "host_int64 OpSub a b = wrap_int64 (a - b)"
| "host_int64 OpMul a b = wrap_int64 (a * b)"
| "host_int64 OpDiv a b = wrap_int64 (truncated_quotient a b)"
| "host_int64 OpMod a b = wrap_int64 (a - b * truncated_quotient a b)"
| "host_int64 other a b = 0"

section \<open>Examples\<close>

text \<open>
  A host for the examples: the opcodes are numbered in the order of their declaration,
  the table of built-ins holds the array library, and the floating-point operations are
  trivial (no example computes with a Float).
\<close>

definition exampleOpcodes :: "Opcode list" where
  "exampleOpcodes =
     [OpConstant, OpAdd, OpSub, OpMul, OpDiv, OpMod, OpAnd, OpOr, OpEqual, OpNotEqual,
      OpGreaterThan, OpLessThan, OpLessThanOrEqual, OpGreaterThanOrEqual, OpTrue, OpFalse,
      OpBang, OpMinus, OpPop, OpJump, OpJumpNotTruthy, OpNull, OpSetGlobal, OpGetGlobal,
      OpArray, OpDict, OpIndex, OpCall, OpReturnValue, OpReturn, OpSetLocal, OpGetLocal,
      OpGetBuiltin, OpClosure, OpGetFree, OpCurrentClosure, OpWhile, OpGetAttr]"

definition exampleHost :: Host where
  "exampleHost =
     \<lparr>opcodeOf = (\<lambda>b. if unat b < length exampleOpcodes then Some (exampleOpcodes ! unat b) else None),
      Builtins = map Builtin [Fn_first, Fn_last, Fn_allButFirst, Fn_addToArrayStart,
        Fn_addToArrayEnd, Fn_removeFromArray, Fn_indexOf, Fn_organize, Fn_sum, Fn_min, Fn_max],
      f64_add = (\<lambda>a b. 0), f64_sub = (\<lambda>a b. 0), f64_mul = (\<lambda>a b. 0), f64_div = (\<lambda>a b. 0),
      f64_eq = (\<lambda>a b. a = b), f64_lt = (\<lambda>a b. False), f64_le = (\<lambda>a b. a = b),
      f64_of_int64 = (\<lambda>v. 0), int64_of_f64 = (\<lambda>v. 0),
      math_Max = (\<lambda>a b. b), math_Min = (\<lambda>a b. b),
      same_pointer = (\<lambda>x y. False)\<rparr>"

text \<open>
  A machine as \<open>New\<close> makes it for the instructions \<open>ins\<close>, after the objects \<open>xs\<close>
  were pushed.
\<close>

definition exampleVM :: "byte list \<Rightarrow> Object list \<Rightarrow> VM" where
  "exampleVM ins xs =
     (New ins [])\<lparr>stack := xs @ replicate (nat StackSize - length xs) NilObject,
                  sp := int (length xs)\<rparr>"


text \<open>The main frame of such a machine, and the code of one \<open>OpWhile\<close> with the target 7.\<close>

definition mainFrame :: "byte list \<Rightarrow> Frame" where
  "mainFrame ins = NewFrame (Closure \<lparr>Instructions = ins, NumLocals = 0, NumParameters = 0\<rparr> []) 0"

definition whileCode :: "byte list" where
  "whileCode = [36, 0, 7]"

text \<open>
  A closure of two parameters and three local slots, and one of no parameter that calls
  itself; the code of a call with two, one and no argument.
\<close>

definition addClosure :: Closure where
  "addClosure = Closure \<lparr>Instructions = [31, 0, 31, 1, 1, 28], NumLocals = 3, NumParameters = 2\<rparr> []"

definition loopClosure :: Closure where
  "loopClosure = Closure \<lparr>Instructions = [35, 27, 0, 28], NumLocals = 0, NumParameters = 0\<rparr> []"

definition callCode :: "nat \<Rightarrow> byte list" where
  "callCode n = [27, of_nat n]"

text \<open>
  The machine in the recursion of \<open>loopClosure\<close> when the frame stack is full: every
  slot holds a frame, and the closure is on the stack to be called again.
\<close>

definition fullFramesVM :: VM where
  "fullFramesVM =
     (exampleVM [] [ClosureObj loopClosure])
       \<lparr>frames := replicate (nat MaxFrames) (Some ((NewFrame loopClosure 1)\<lparr>ip := 0\<rparr>)),
        framesIndex := MaxFrames\<rparr>"

text \<open>An array of three Integers and a dictionary with the one pair \<open>1: 5\<close>.\<close>

definition exampleArray :: Object where
  "exampleArray = Array [Integer 10, Integer 20, Integer 30]"

definition exampleDict :: Object where
  "exampleDict = Dict (Map.empty(Integer_DictKey 1 \<mapsto> DictPair (Integer 1) (Integer 5)))"

text \<open>
  The code of \<open>OpDict\<close> for three pairs, and the stack for the literal
  \<open>{1: 10, 2: 20, 1: 30}\<close>, in which the key 1 is bound twice.
\<close>

definition dictCode :: "byte list" where
  "dictCode = [25, 0, 6]"

definition dictStack :: "Object list" where
  "dictStack = [Integer 1, Integer 10, Integer 2, Integer 20, Integer 1, Integer 30]"

text \<open>
  The call \<open>add(1, 2)\<close> of the closure of two parameters: the machine before the
  \<open>OpCall\<close>, and its states after each turn of the loop.
\<close>

definition callVM :: VM where
  "callVM = exampleVM [27, 2, 18] [ClosureObj addClosure, Integer 1, Integer 2]"

fun callState :: "nat \<Rightarrow> VM" where
  "callState 0 = callVM"
| "callState (Suc n) = snd (step exampleHost (callState n))"

text \<open>
  A closure of no parameter whose body is the one instruction \<open>OpReturn\<close>, the machine
  before its call, and the states after each turn of the loop.
\<close>

definition returnClosure :: Closure where
  "returnClosure = Closure \<lparr>Instructions = [29], NumLocals = 0, NumParameters = 0\<rparr> []"

definition returnVM :: VM where
  "returnVM = exampleVM [27, 0, 18] [ClosureObj returnClosure]"

fun returnState :: "nat \<Rightarrow> VM" where
  "returnState 0 = returnVM"
| "returnState (Suc n) = snd (step exampleHost (returnState n))"

section \<open>Properties\<close>

lemmas example_simps =
  exampleVM_def New_def StackSize_def MaxFrames_def GlobalSize_def NewFrame_def nth_append

subsection \<open>Integer arithmetic\<close>

lemma wrap_signed: "signed_take_bit 63 n = wrap_int64 n"
  by (simp add: wrap_int64_def signed_take_bit_eq_take_bit_shift take_bit_eq_mod)

lemma sdiv_truncated: "b \<noteq> 0 \<Longrightarrow> a sdiv b = truncated_quotient a b"
  by (auto simp: signed_divide_int_def truncated_quotient_def sgn_if)

lemma sint_int64_quo: "b \<noteq> 0 \<Longrightarrow> sint (int64_quo a b) = host_int64 OpDiv (sint a) (sint b)"
proof -
  assume "b \<noteq> 0"
  then have "sint b \<noteq> 0" by (simp add: signed_eq_0_iff)
  then show ?thesis
    by (simp add: int64_quo_def sint_sbintrunc' wrap_signed sdiv_truncated)
qed

lemma sint_int64_rem: "b \<noteq> 0 \<Longrightarrow> sint (int64_rem a b) = host_int64 OpMod (sint a) (sint b)"
proof -
  assume "b \<noteq> 0"
  then have nz: "sint b \<noteq> 0" by (simp add: signed_eq_0_iff)
  have "sint (int64_rem a b) = wrap_int64 (sint a smod sint b)"
    by (simp add: int64_rem_def sint_sbintrunc' wrap_signed)
  also have "sint a smod sint b = sint a - sint b * (sint a sdiv sint b)"
    by (simp add: minus_mult_sdiv_eq_smod)
  also have "sint a sdiv sint b = truncated_quotient (sint a) (sint b)"
    using nz by (rule sdiv_truncated)
  finally show ?thesis by simp
qed

lemma sint_add: "sint (a + b :: int64) = host_int64 OpAdd (sint a) (sint b)"
  by (simp add: sint_word_add wrap_signed)
lemma sint_sub: "sint (a - b :: int64) = host_int64 OpSub (sint a) (sint b)"
  by (simp add: sint_word_diff wrap_signed)
lemma sint_mul: "sint (a * b :: int64) = host_int64 OpMul (sint a) (sint b)"
  by (simp add: sint_word_mult wrap_signed)

lemma pop_top:
  assumes "1 \<le> sp vm" "sp vm \<le> int (length (stack vm))"
  shows "pop vm = (Inr (stack vm ! nat (sp vm - 1)), vm\<lparr>sp := sp vm - 1\<rparr>)"
  using assms by (simp add: pop_def elemAt_def)

lemma push_room:
  assumes "0 \<le> sp vm" "sp vm < int (length (stack vm))" "sp vm < StackSize"
  shows "push obj vm = (Inr (), vm\<lparr>stack := (stack vm)[nat (sp vm) := obj], sp := sp vm + 1\<rparr>)"
  using assms by (simp add: push_def)

lemma binary_int:
  assumes "2 \<le> sp vm" "sp vm \<le> int (length (stack vm))" "int (length (stack vm)) \<le> StackSize"
    and "stack vm ! nat (sp vm - 2) = Integer v1" "stack vm ! nat (sp vm - 1) = Integer v2"
  shows "executeBinaryOperation h op vm =
         executeBinaryIntegerOperation op (Integer v1) (Integer v2) (vm\<lparr>sp := sp vm - 2\<rparr>)"
  using assms by (simp add: executeBinaryOperation_def andThen_def pop_top lift_def)


lemma push_after_two_pops:
  assumes "2 \<le> sp vm" "sp vm \<le> int (length (stack vm))" "int (length (stack vm)) \<le> StackSize"
  shows "push obj (vm\<lparr>sp := sp vm - 2\<rparr>) =
         (Inr (), vm\<lparr>stack := (stack vm)[nat (sp vm - 2) := obj], sp := sp vm - 1\<rparr>)"
  using assms by (simp add: push_def)

text \<open>
  Claim C2, as amended. With two Integers \<open>v1\<close> (below) and \<open>v2\<close> (on top) on the stack,
  each of the opcodes \<open>OpAdd\<close>, \<open>OpSub\<close>, \<open>OpMul\<close>, \<open>OpDiv\<close> and \<open>OpMod\<close> replaces them by
  one Integer, whose signed value is the result of the host on 64-bit signed integers:
  the exact result reduced to two's complement, with the quotient truncated towards
  zero; for \<open>OpDiv\<close> and \<open>OpMod\<close> the divisor \<open>v2\<close> is not zero.
\<close>

theorem integer_arithmetic_matches_host:
  assumes "op = OpAdd \<or> op = OpSub \<or> op = OpMul \<or> (op = OpDiv \<and> v2 \<noteq> 0) \<or> (op = OpMod \<and> v2 \<noteq> 0)"
    and "2 \<le> sp vm" "sp vm \<le> int (length (stack vm))" "int (length (stack vm)) \<le> StackSize"
    and "stack vm ! nat (sp vm - 2) = Integer v1" "stack vm ! nat (sp vm - 1) = Integer v2"
  shows "\<exists>r. execute h op ins i vm =
              (Inr (), vm\<lparr>stack := (stack vm)[nat (sp vm - 2) := Integer r], sp := sp vm - 1\<rparr>)
           \<and> sint r = host_int64 op (sint v1) (sint v2)"
proof -
  note b = binary_int [OF assms(2-6)]
  note p = push_after_two_pops [OF assms(2-4)]
  from assms(1) consider "op = OpAdd" | "op = OpSub" | "op = OpMul"
    | "op = OpDiv" "v2 \<noteq> 0" | "op = OpMod" "v2 \<noteq> 0" by blast
  then show ?thesis
  proof cases
    case 1
    then show ?thesis
      by (intro exI [of _ "v1 + v2"]) (simp add: b p executeBinaryIntegerOperation_def andThen_def lift_def sint_add)
  next
    case 2
    then show ?thesis
      by (intro exI [of _ "v1 - v2"]) (simp add: b p executeBinaryIntegerOperation_def andThen_def lift_def sint_sub)
  next
    case 3
    then show ?thesis
      by (intro exI [of _ "v1 * v2"]) (simp add: b p executeBinaryIntegerOperation_def andThen_def lift_def sint_mul)
  next
    case 4
    then show ?thesis
      by (intro exI [of _ "int64_quo v1 v2"]) (simp add: b p executeBinaryIntegerOperation_def andThen_def lift_def sint_int64_quo)
  next
    case 5
    then show ?thesis
      by (intro exI [of _ "int64_rem v1 v2"]) (simp add: b p executeBinaryIntegerOperation_def andThen_def lift_def sint_int64_rem)
  qed
qed

text \<open>
  Claim C2, an instance of the theorem: \<open>-7 / 2\<close> leaves the Integer \<open>-3\<close>.
\<close>

theorem integer_arithmetic_matches_host_witness:
  "\<exists>r. execute exampleHost OpDiv [] 0 (exampleVM [] [Integer (- 7), Integer 2]) =
         (Inr (), (exampleVM [] [Integer (- 7), Integer 2])
            \<lparr>stack := (stack (exampleVM [] [Integer (- 7), Integer 2]))[0 := Integer r], sp := 1\<rparr>)
       \<and> sint r = - 3"
  using integer_arithmetic_matches_host [of OpDiv 2 "exampleVM [] [Integer (- 7), Integer 2]" "- 7" exampleHost "[]" 0]
  by (simp add: example_simps wrap_int64_def truncated_quotient_def)

text \<open>
  Claim C2 as it is stated, for every pair of Integers, fails at a zero divisor:
  \<open>1 / 0\<close> pushes nothing, the division panics.
\<close>

theorem division_by_zero_counterexample:
  "fst (execute exampleHost OpDiv [] 0 (exampleVM [] [Integer 1, Integer 0])) = Inl (Panic DivideByZero)"
  by (simp add: example_simps executeBinaryOperation_def executeBinaryIntegerOperation_def
      andThen_def pop_def elemAt_def lift_def throw_def)


subsection \<open>Hash keys and the construction of dictionaries\<close>

lemma buildDict_loop_done: "\<not> i < e \<Longrightarrow> buildDict_loop vm i e acc = Inr acc"
  by (subst buildDict_loop.simps) simp

lemma buildDict_loop_next:
  assumes "0 \<le> i" "i + 1 < int (length (stack vm))" "i < e"
    and "Dictable (stack vm ! nat i) = Some dk"
  shows "buildDict_loop vm i e acc =
         buildDict_loop vm (i + 2) e (acc(dk \<mapsto> DictPair (stack vm ! nat i) (stack vm ! nat (i + 1))))"
  using assms by (subst buildDict_loop.simps) (simp add: elemAt_def)

lemma buildDict_loop_unusable:
  assumes "0 \<le> i" "i + 1 < int (length (stack vm))" "i < e"
    and "Dictable (stack vm ! nat i) = None" "Type (stack vm ! nat i) = Inr t"
  shows "buildDict_loop vm i e acc = Inl (Errorf ''unusable as hash key: %s'' [ArgType t])"
  using assms by (subst buildDict_loop.simps) (simp add: elemAt_def)

lemma shift_pairs:
  assumes "\<forall>k<Suc n. P (i + 2 * int k)"
  shows "\<forall>k<n. P (i + 2 + 2 * int k)"
proof (intro allI impI)
  fix k assume "k < n"
  then have "Suc k < Suc n" by simp
  from assms [rule_format, OF this] have p: "P (i + 2 * int (Suc k))" .
  have eq: "i + 2 * int (Suc k) = i + 2 + 2 * int k" by simp
  from p show "P (i + 2 + 2 * int k)" unfolding eq .
qed

lemma first_pair:
  assumes "\<forall>k<Suc n. P (i + 2 * int k)"
  shows "P i"
  using assms [rule_format, of 0] by simp

lemma buildDict_loop_first_unusable:
  assumes "0 \<le> i" "i + 2 * int n + 1 < int (length (stack vm))" "i + 2 * int n < e"
    and "\<forall>k<n. Dictable (stack vm ! nat (i + 2 * int k)) \<noteq> None"
    and "Dictable (stack vm ! nat (i + 2 * int n)) = None"
    and "Type (stack vm ! nat (i + 2 * int n)) = Inr t"
  shows "buildDict_loop vm i e acc = Inl (Errorf ''unusable as hash key: %s'' [ArgType t])"
  using assms
proof (induction n arbitrary: i acc)
  case 0
  then show ?case by (intro buildDict_loop_unusable) simp_all
next
  case (Suc n)
  have "Dictable (stack vm ! nat i) \<noteq> None"
    using first_pair [OF Suc.prems(4)] .
  then obtain dk where dk: "Dictable (stack vm ! nat i) = Some dk" by blast
  let ?acc = "acc(dk \<mapsto> DictPair (stack vm ! nat i) (stack vm ! nat (i + 1)))"
  have e: "i + 2 * int (Suc n) = i + 2 + 2 * int n" by simp
  have b0: "0 \<le> i + 2" using Suc.prems(1) by linarith
  have b1: "i + 1 < int (length (stack vm))" and b2: "i < e"
    using Suc.prems(2,3) unfolding e by linarith+
  have step: "buildDict_loop vm i e acc = buildDict_loop vm (i + 2) e ?acc"
    using Suc.prems(1) b1 b2 dk by (rule buildDict_loop_next)
  have "buildDict_loop vm (i + 2) e ?acc = Inl (Errorf ''unusable as hash key: %s'' [ArgType t])"
  proof (rule Suc.IH [OF b0])
    show "i + 2 + 2 * int n + 1 < int (length (stack vm))" using Suc.prems(2) unfolding e .
    show "i + 2 + 2 * int n < e" using Suc.prems(3) unfolding e .
    show "\<forall>k<n. Dictable (stack vm ! nat (i + 2 + 2 * int k)) \<noteq> None"
      by (rule shift_pairs [OF Suc.prems(4)])
    show "Dictable (stack vm ! nat (i + 2 + 2 * int n)) = None" using Suc.prems(5) unfolding e .
    show "Type (stack vm ! nat (i + 2 + 2 * int n)) = Inr t" using Suc.prems(6) unfolding e .
  qed
  then show ?case unfolding step .
qed

lemma uint_reinterpret: "uint (v::64 word) = reinterpret_unsigned64 (sint v)"
proof -
  have u: "uint v = sint v mod 2 ^ 64"
    by (simp add: uint_sint take_bit_eq_mod)
  have lo: "- (2 ^ 63) \<le> sint v" using sint_ge [of v] by simp
  have hi: "sint v < 2 ^ 63" using sint_lt [of v] by simp
  show ?thesis
  proof (cases "sint v < 0")
    case True
    have "sint v mod 2 ^ 64 = (sint v + 2 ^ 64) mod 2 ^ 64" by simp
    also have "\<dots> = sint v + 2 ^ 64" using lo True by (intro mod_pos_pos_trivial) auto
    finally show ?thesis using True u by (simp add: reinterpret_unsigned64_def)
  next
    case False
    then have "sint v mod 2 ^ 64 = sint v" using hi by (intro mod_pos_pos_trivial) auto
    then show ?thesis using False u by (simp add: reinterpret_unsigned64_def)
  qed
qed

lemma unat_of_char: "unat (of_nat (of_char c) :: 64 word) = of_char c"
proof -
  have "(of_char c :: nat) < 256" by simp
  also have "(256 :: nat) < 2 ^ 64" by simp
  finally have "(of_char c :: nat) < 2 ^ 64" .
  then show ?thesis by (simp add: unat_of_nat)
qed

lemma fnv64a_Write_refines:
  "unat (fnv64a_Write hsh s) = fnv1a_64_spec (unat hsh) (map of_char s)"
proof (induction s arbitrary: hsh)
  case Nil
  then show ?case by simp
next
  case (Cons c cs)
  have "unat ((hsh XOR of_nat (of_char c)) * prime64) = ((unat hsh XOR of_char c) * 1099511628211) mod 2 ^ 64"
    by (simp add: unat_word_ariths unsigned_xor_eq unat_of_char prime64_def)
  then show ?case using Cons.IH by simp
qed

lemma Dictable_iff_Type:
  "(Dictable x \<noteq> None) = (Type x = Inr INTEGER_OBJ \<or> Type x = Inr BOOLEAN_OBJ \<or> Type x = Inr STRING_OBJ)"
  by (cases x) simp_all

lemma executeDictIndex_unusable:
  assumes "Dictable x = None" "Type x = Inr t"
  shows "executeDictIndex (Dict pairs) x vm = (Inl (Errorf ''unusable as hash key: %s'' [ArgType t]), vm)"
  using assms by (simp add: executeDictIndex_def andThen_def lift_def throw_def)

text \<open>
  Claim C8. The projection \<open>DictKey\<close> maps an Integer to the tag \<open>INTEGER_OBJ\<close> and its
  value reinterpreted as unsigned 64-bit, a Boolean to \<open>BOOLEAN_OBJ\<close> and 1 or 0, a String
  to \<open>STRING_OBJ\<close> and the FNV-1a hash on 64 bits of its bytes. An object has a projection
  exactly when its type is one of these three; with any other object as a key, the
  lookup in a dictionary and the construction of a dictionary (at the first such key,
  after \<open>n\<close> pairs with hashable keys) return the error "unusable as hash key".
\<close>

theorem DictKey_projection:
  "(\<exists>w. Dictable (Integer v) = Some (DictKey INTEGER_OBJ w) \<and> uint w = reinterpret_unsigned64 (sint v))
   \<and> Dictable (Boolean b) = Some (DictKey BOOLEAN_OBJ (if b then 1 else 0))
   \<and> (\<exists>w. Dictable (String s) = Some (DictKey STRING_OBJ w)
          \<and> unat w = fnv1a_64_spec 14695981039346656037 (map of_char s))
   \<and> ((Dictable x \<noteq> None) =
        (Type x = Inr INTEGER_OBJ \<or> Type x = Inr BOOLEAN_OBJ \<or> Type x = Inr STRING_OBJ))
   \<and> (Dictable x = None \<and> Type x = Inr t \<longrightarrow>
        executeDictIndex (Dict pairs) x vm = (Inl (Errorf ''unusable as hash key: %s'' [ArgType t]), vm)
        \<and> (0 \<le> i \<and> i + 2 * int n + 1 < int (length (stack vm)) \<and> i + 2 * int n < e
            \<and> (\<forall>k<n. Dictable (stack vm ! nat (i + 2 * int k)) \<noteq> None)
            \<and> stack vm ! nat (i + 2 * int n) = x
           \<longrightarrow> buildDict i e vm = Inl (Errorf ''unusable as hash key: %s'' [ArgType t])))"
proof (intro conjI impI)
  show "\<exists>w. Dictable (Integer v) = Some (DictKey INTEGER_OBJ w) \<and> uint w = reinterpret_unsigned64 (sint v)"
    by (simp add: Integer_DictKey_def uint_reinterpret)
  show "Dictable (Boolean b) = Some (DictKey BOOLEAN_OBJ (if b then 1 else 0))"
    by (simp add: Boolean_DictKey_def)
  have "unat offset64 = 14695981039346656037" by (simp add: offset64_def)
  then show "\<exists>w. Dictable (String s) = Some (DictKey STRING_OBJ w)
          \<and> unat w = fnv1a_64_spec 14695981039346656037 (map of_char s)"
    by (simp add: String_DictKey_def fnv64a_Write_refines)
  show "(Dictable x \<noteq> None) =
        (Type x = Inr INTEGER_OBJ \<or> Type x = Inr BOOLEAN_OBJ \<or> Type x = Inr STRING_OBJ)"
    by (rule Dictable_iff_Type)
next
  assume a: "Dictable x = None \<and> Type x = Inr t"
  then show "executeDictIndex (Dict pairs) x vm = (Inl (Errorf ''unusable as hash key: %s'' [ArgType t]), vm)"
    by (simp add: executeDictIndex_unusable)
  assume b: "0 \<le> i \<and> i + 2 * int n + 1 < int (length (stack vm)) \<and> i + 2 * int n < e
            \<and> (\<forall>k<n. Dictable (stack vm ! nat (i + 2 * int k)) \<noteq> None)
            \<and> stack vm ! nat (i + 2 * int n) = x"
  have "buildDict_loop vm i e Map.empty = Inl (Errorf ''unusable as hash key: %s'' [ArgType t])"
    using a b by (intro buildDict_loop_first_unusable [where n = n]) simp_all
  then show "buildDict i e vm = Inl (Errorf ''unusable as hash key: %s'' [ArgType t])"
    by (simp add: buildDict_def)
qed

text \<open>
  Claim C8, an instance of the theorem: Null is no key, neither for a lookup nor as the
  second key of a dictionary literal.
\<close>

theorem DictKey_projection_witness:
  "Dictable Null = None \<and> Type Null = Inr NULL_OBJ
   \<and> executeDictIndex (Dict Map.empty) Null (exampleVM [] [Integer 1, Integer 2, Null, Integer 3]) =
       (Inl (Errorf ''unusable as hash key: %s'' [ArgType NULL_OBJ]),
        exampleVM [] [Integer 1, Integer 2, Null, Integer 3])
   \<and> buildDict 0 4 (exampleVM [] [Integer 1, Integer 2, Null, Integer 3]) =
       Inl (Errorf ''unusable as hash key: %s'' [ArgType NULL_OBJ])"
  using DictKey_projection [of 0 True "[]" Null NULL_OBJ Map.empty
      "exampleVM [] [Integer 1, Integer 2, Null, Integer 3]" 0 1 4]
  by (simp add: example_simps)

subsection \<open>Comparison of Strings\<close>

lemma two_pops:
  assumes "2 \<le> sp vm" "sp vm \<le> int (length (stack vm))"
  shows "andThen pop (\<lambda>right. andThen pop (\<lambda>left. k left right)) vm =
         k (stack vm ! nat (sp vm - 2)) (stack vm ! nat (sp vm - 1)) (vm\<lparr>sp := sp vm - 2\<rparr>)"
  using assms by (simp add: andThen_def pop_def elemAt_def)

text \<open>
  Claim C3, as amended. With two Strings on top of the stack, \<open>OpEqual\<close> replaces them by
  the Boolean that tells whether they are equal; every other comparison opcode
  (\<open>OpNotEqual\<close>, \<open>OpGreaterThan\<close>, \<open>OpLessThan\<close>, \<open>OpGreaterThanOrEqual\<close>,
  \<open>OpLessThanOrEqual\<close>) pops them and fails with the error "unknown string operator".
\<close>

theorem string_comparison_only_equal:
  assumes "2 \<le> sp vm" "sp vm \<le> int (length (stack vm))" "int (length (stack vm)) \<le> StackSize"
    and "stack vm ! nat (sp vm - 2) = String s1" "stack vm ! nat (sp vm - 1) = String s2"
  shows "execute h OpEqual ins i vm =
           (Inr (), vm\<lparr>stack := (stack vm)[nat (sp vm - 2) := Boolean (s1 = s2)], sp := sp vm - 1\<rparr>)
       \<and> (op = OpNotEqual \<or> op = OpGreaterThan \<or> op = OpLessThan
            \<or> op = OpGreaterThanOrEqual \<or> op = OpLessThanOrEqual \<longrightarrow>
          execute h op ins i vm =
           (Inl (Errorf ''unknown string operator: %d'' [ArgOp op]), vm\<lparr>sp := sp vm - 2\<rparr>))"
proof -
  have c: "executeComparison h op' vm = executeStringComparison op' (String s1) (String s2) (vm\<lparr>sp := sp vm - 2\<rparr>)" for op'
    unfolding executeComparison_def two_pops [OF assms(1,2)] assms(4,5)
    by (simp add: andThen_def lift_def andAlso_def typeIs_def bindP_def)
  have p: "push obj (vm\<lparr>sp := sp vm - 2\<rparr>) =
         (Inr (), vm\<lparr>stack := (stack vm)[nat (sp vm - 2) := obj], sp := sp vm - 1\<rparr>)" for obj
    using assms(1-3) by (simp add: push_def)
  have eq: "execute h OpEqual ins i vm =
           (Inr (), vm\<lparr>stack := (stack vm)[nat (sp vm - 2) := Boolean (s1 = s2)], sp := sp vm - 1\<rparr>)"
    by (simp add: c executeStringComparison_def andThen_def lift_def p nativeBoolToBooleanObject_def)
  have other: "execute h op ins i vm =
           (Inl (Errorf ''unknown string operator: %d'' [ArgOp op]), vm\<lparr>sp := sp vm - 2\<rparr>)"
    if "op = OpNotEqual \<or> op = OpGreaterThan \<or> op = OpLessThan
            \<or> op = OpGreaterThanOrEqual \<or> op = OpLessThanOrEqual"
    using that by (auto simp: c executeStringComparison_def throw_def)
  show ?thesis using eq other by blast
qed

text \<open>
  Claim C3, an instance of the theorem: \<open>"go" == "go"\<close> is true and \<open>"go" > "go"\<close> is an
  error.
\<close>

theorem string_comparison_only_equal_witness:
  "execute exampleHost OpEqual [] 0 (exampleVM [] [String ''go'', String ''go'']) =
     (Inr (), (exampleVM [] [String ''go'', String ''go''])
        \<lparr>stack := (stack (exampleVM [] [String ''go'', String ''go'']))[0 := Boolean True], sp := 1\<rparr>)
   \<and> execute exampleHost OpGreaterThan [] 0 (exampleVM [] [String ''go'', String ''go'']) =
     (Inl (Errorf ''unknown string operator: %d'' [ArgOp OpGreaterThan]),
      (exampleVM [] [String ''go'', String ''go''])\<lparr>sp := 0\<rparr>)"
  using string_comparison_only_equal [of "exampleVM [] [String ''go'', String ''go'']" "''go''" "''go''"
      exampleHost "[]" 0 OpGreaterThan]
  by (simp add: example_simps)

text \<open>
  Claim C3 as it is stated, with \<open>!=\<close> defined on Strings, fails: \<open>"a" != "b"\<close> is the
  error "unknown string operator", no Boolean is pushed.
\<close>

theorem string_not_equal_counterexample:
  "fst (execute exampleHost OpNotEqual [] 0 (exampleVM [] [String ''a'', String ''b''])) =
     Inl (Errorf ''unknown string operator: %d'' [ArgOp OpNotEqual])"
  by (simp add: example_simps executeComparison_def executeStringComparison_def
      andThen_def pop_def elemAt_def lift_def throw_def andAlso_def typeIs_def bindP_def)

subsection \<open>The current frame and its instruction pointer\<close>

lemma currentFrame_Inr:
  "(currentFrame vm = (Inr f, vm')) =
   (vm' = vm \<and> 1 \<le> framesIndex vm \<and> framesIndex vm \<le> int (length (frames vm))
    \<and> frames vm ! nat (framesIndex vm - 1) = Some f)"
  by (auto simp: currentFrame_def elemAt_def split: option.splits)

lemma currentFrame_ip_update_current:
  assumes "currentFrame vm = (Inr f, vm)"
  shows "currentFrame_ip_update g vm =
         (Inr (), vm\<lparr>frames := (frames vm)[nat (framesIndex vm - 1) := Some (f\<lparr>ip := g (ip f)\<rparr>)]\<rparr>)"
  using assms by (simp add: currentFrame_ip_update_def)

lemma currentFrame_updated:
  assumes "currentFrame vm = (Inr f, vm)"
  shows "currentFrame (vm\<lparr>frames := (frames vm)[nat (framesIndex vm - 1) := Some f']\<rparr>) =
         (Inr f', vm\<lparr>frames := (frames vm)[nat (framesIndex vm - 1) := Some f']\<rparr>)"
proof -
  from assms have "nat (framesIndex vm - 1) < length (frames vm)"
    unfolding currentFrame_Inr by linarith
  then show ?thesis using assms by (simp add: currentFrame_Inr)
qed

lemma exampleVM_currentFrame:
  "currentFrame (exampleVM ins xs) = (Inr (mainFrame ins), exampleVM ins xs)"
  by (simp add: currentFrame_Inr example_simps mainFrame_def)

text \<open>
  Claim C5. When \<open>OpWhile\<close> with the operand \<open>target\<close> is executed and there is a
  condition to pop, the handler completes and the instruction pointer of the current
  frame is \<open>target - 1\<close> afterwards, whatever the popped condition is: nothing is assumed
  of it.
\<close>

theorem OpWhile_always_jumps:
  assumes "operand16 ins (i + 1) = Inr target"
    and "currentFrame vm = (Inr f, vm)"
    and "1 \<le> sp vm" "sp vm \<le> int (length (stack vm))"
  shows "\<exists>vm'. execute h OpWhile ins i vm = (Inr (), vm')
           \<and> currentFrame vm' = (Inr (f\<lparr>ip := target - 1\<rparr>), vm')
           \<and> ip (f\<lparr>ip := target - 1\<rparr>) = target - 1
           \<and> vm' = vm\<lparr>frames := (frames vm)[nat (framesIndex vm - 1) := Some (f\<lparr>ip := target - 1\<rparr>)],
                      sp := sp vm - 1\<rparr>"
proof -
  let ?vm1 = "vm\<lparr>frames := (frames vm)[nat (framesIndex vm - 1) := Some (f\<lparr>ip := ip f + 2\<rparr>)]\<rparr>"
  let ?vm2 = "?vm1\<lparr>sp := sp vm - 1\<rparr>"
  let ?vm' = "vm\<lparr>frames := (frames vm)[nat (framesIndex vm - 1) := Some (f\<lparr>ip := target - 1\<rparr>)],
                      sp := sp vm - 1\<rparr>"
  have a: "addIp 2 vm = (Inr (), ?vm1)"
    using assms(2) by (simp add: addIp_def currentFrame_ip_update_current)
  have p: "pop ?vm1 = (Inr (stack vm ! nat (sp vm - 1)), ?vm2)"
    using assms(3,4) by (simp add: pop_def elemAt_def)
  have lt: "nat (framesIndex vm - 1) < length (frames vm)"
    using assms(2) unfolding currentFrame_Inr by linarith
  have c2: "currentFrame ?vm2 = (Inr (f\<lparr>ip := ip f + 2\<rparr>), ?vm2)"
    using assms(2) lt by (simp add: currentFrame_Inr)
  have s2: "setIp (target - 1) ?vm2 = (Inr (), ?vm')"
    using c2 by (simp add: setIp_def currentFrame_ip_update_current)
  have c': "currentFrame ?vm' = (Inr (f\<lparr>ip := target - 1\<rparr>), ?vm')"
    using assms(2) lt by (simp add: currentFrame_Inr)
  have s': "setIp (target - 1) ?vm' = (Inr (), ?vm')"
    using c' by (simp add: setIp_def currentFrame_ip_update_current)
  have "execute h OpWhile ins i vm = (Inr (), ?vm')"
    by (simp add: assms(1) andThen_def lift_def a p s2 s' ok_def)
  then show ?thesis using c' by simp
qed

text \<open>
  Claim C5, two instances of the theorem: with the operand 7 the instruction pointer
  becomes 6 for the condition true and for the condition false.
\<close>

theorem OpWhile_always_jumps_witness:
  "(\<exists>vm'. execute exampleHost OpWhile whileCode 0 (exampleVM whileCode [Boolean True]) = (Inr (), vm')
      \<and> currentFrame vm' = (Inr ((mainFrame whileCode)\<lparr>ip := 6\<rparr>), vm'))
   \<and> (\<exists>vm'. execute exampleHost OpWhile whileCode 0 (exampleVM whileCode [Boolean False]) = (Inr (), vm')
      \<and> currentFrame vm' = (Inr ((mainFrame whileCode)\<lparr>ip := 6\<rparr>), vm'))"
proof -
  have h1: "operand16 whileCode (0 + 1) = Inr 7"
    by (simp add: whileCode_def operand16_def sliceFrom_def ReadUint16_def)
  have h3: "1 \<le> sp (exampleVM whileCode [b])" for b by (simp add: example_simps)
  have h4: "sp (exampleVM whileCode [b]) \<le> int (length (stack (exampleVM whileCode [b])))" for b
    by (simp add: example_simps)
  have e: "(7::int) - 1 = 6" by simp
  show ?thesis
    using OpWhile_always_jumps [OF h1 exampleVM_currentFrame h3 h4, of exampleHost "Boolean True"]
      OpWhile_always_jumps [OF h1 exampleVM_currentFrame h3 h4, of exampleHost "Boolean False"]
    unfolding e by blast
qed

subsection \<open>Calls of closures\<close>

lemma executeCall_closure:
  assumes "elemAt (stack vm) (sp vm - 1 - nargs) = Inr (ClosureObj c)"
  shows "executeCall h nargs vm = callClosure c nargs vm"
  using assms by (simp add: executeCall_def andThen_def lift_def)

lemma callClosure_mismatch:
  assumes "nargs \<noteq> NumParameters (Fn c)"
  shows "callClosure c nargs vm =
         (Inl (Errorf ''wrong number of arguments: want=%d, got=%d''
                 [ArgInt (NumParameters (Fn c)), ArgInt nargs]), vm)"
  using assms by (simp add: callClosure_def throw_def)

lemma callClosure_match:
  assumes "nargs = NumParameters (Fn c)" "0 \<le> framesIndex vm" "framesIndex vm < int (length (frames vm))"
  shows "callClosure c nargs vm =
         (Inr (), vm\<lparr>frames := (frames vm)[nat (framesIndex vm) := Some (NewFrame c (sp vm - nargs))],
                    framesIndex := framesIndex vm + 1,
                    sp := sp vm - nargs + NumLocals (Fn c)\<rparr>)"
  using assms
  by (simp add: callClosure_def andThen_def get_sp_def pushFrame_def set_sp_def NewFrame_def)

lemma callClosure_full:
  assumes "nargs = NumParameters (Fn c)" "framesIndex vm = int (length (frames vm))"
  shows "callClosure c nargs vm = (Inl (Panic IndexOutOfRange), vm)"
  using assms
  by (simp add: callClosure_def andThen_def get_sp_def pushFrame_def set_sp_def NewFrame_def)

text \<open>
  Claim C6, as amended. For an \<open>OpCall\<close> with \<open>nargs\<close> arguments whose callee, at
  \<open>stack[sp - 1 - nargs]\<close>, is a closure: if \<open>nargs\<close> differs from the number of parameters,
  the call fails with the error "wrong number of arguments: want=N, got=M" and no frame
  is pushed (the state differs only by the instruction pointer, advanced over the
  operand); if \<open>nargs\<close> equals the number of parameters and the frame stack has a free
  slot, a frame with the base pointer \<open>sp - nargs\<close> and the instruction pointer -1 is
  pushed and \<open>sp\<close> becomes the base pointer plus the number of locals.
\<close>

theorem OpCall_closure:
  assumes "operand8 ins (i + 1) = Inr nargs"
    and "currentFrame vm = (Inr f, vm)"
    and "elemAt (stack vm) (sp vm - 1 - nargs) = Inr (ClosureObj c)"
  shows "(nargs \<noteq> NumParameters (Fn c) \<longrightarrow>
            execute h OpCall ins i vm =
              (Inl (Errorf ''wrong number of arguments: want=%d, got=%d''
                      [ArgInt (NumParameters (Fn c)), ArgInt nargs]),
               vm\<lparr>frames := (frames vm)[nat (framesIndex vm - 1) := Some (f\<lparr>ip := ip f + 1\<rparr>)]\<rparr>))
       \<and> (nargs = NumParameters (Fn c) \<and> framesIndex vm < int (length (frames vm)) \<longrightarrow>
            execute h OpCall ins i vm =
              (Inr (),
               vm\<lparr>frames := (frames vm)[nat (framesIndex vm - 1) := Some (f\<lparr>ip := ip f + 1\<rparr>),
                                          nat (framesIndex vm) := Some (NewFrame c (sp vm - nargs))],
                  framesIndex := framesIndex vm + 1,
                  sp := sp vm - nargs + NumLocals (Fn c)\<rparr>)
            \<and> basePointer (NewFrame c (sp vm - nargs)) = sp vm - nargs)"
proof -
  let ?vm1 = "vm\<lparr>frames := (frames vm)[nat (framesIndex vm - 1) := Some (f\<lparr>ip := ip f + 1\<rparr>)]\<rparr>"
  have a: "addIp 1 vm = (Inr (), ?vm1)"
    using assms(2) by (simp add: addIp_def currentFrame_ip_update_current)
  have fi: "1 \<le> framesIndex vm" using assms(2) unfolding currentFrame_Inr by simp
  have c: "elemAt (stack ?vm1) (sp ?vm1 - 1 - nargs) = Inr (ClosureObj c)"
    using assms(3) by simp
  have e: "execute h OpCall ins i vm = callClosure c nargs ?vm1"
    by (simp add: assms(1) andThen_def lift_def a executeCall_closure [OF c])
  show ?thesis
  proof (intro conjI impI)
    assume "nargs \<noteq> NumParameters (Fn c)"
    then show "execute h OpCall ins i vm =
              (Inl (Errorf ''wrong number of arguments: want=%d, got=%d''
                      [ArgInt (NumParameters (Fn c)), ArgInt nargs]), ?vm1)"
      unfolding e by (rule callClosure_mismatch)
  next
    assume m: "nargs = NumParameters (Fn c) \<and> framesIndex vm < int (length (frames vm))"
    have "callClosure c nargs ?vm1 =
          (Inr (), ?vm1\<lparr>frames := (frames ?vm1)[nat (framesIndex ?vm1) := Some (NewFrame c (sp ?vm1 - nargs))],
                    framesIndex := framesIndex ?vm1 + 1,
                    sp := sp ?vm1 - nargs + NumLocals (Fn c)\<rparr>)"
      using m fi by (intro callClosure_match) simp_all
    then show "execute h OpCall ins i vm =
              (Inr (),
               vm\<lparr>frames := (frames vm)[nat (framesIndex vm - 1) := Some (f\<lparr>ip := ip f + 1\<rparr>),
                                          nat (framesIndex vm) := Some (NewFrame c (sp vm - nargs))],
                  framesIndex := framesIndex vm + 1,
                  sp := sp vm - nargs + NumLocals (Fn c)\<rparr>)"
      unfolding e by simp
  next
    show "basePointer (NewFrame c (sp vm - nargs)) = sp vm - nargs" by (simp add: NewFrame_def)
  qed
qed


text \<open>
  Claim C6, two instances of the theorem: a closure of two parameters called with one
  argument and with two.
\<close>

theorem OpCall_closure_witness:
  "execute exampleHost OpCall (callCode 1) 0 (exampleVM (callCode 1) [ClosureObj addClosure, Integer 1]) =
     (Inl (Errorf ''wrong number of arguments: want=%d, got=%d'' [ArgInt 2, ArgInt 1]),
      (exampleVM (callCode 1) [ClosureObj addClosure, Integer 1])
        \<lparr>frames := (replicate 1024 None)[0 := Some ((mainFrame (callCode 1))\<lparr>ip := 0\<rparr>)]\<rparr>)
   \<and> execute exampleHost OpCall (callCode 2) 0
        (exampleVM (callCode 2) [ClosureObj addClosure, Integer 1, Integer 2]) =
     (Inr (),
      (exampleVM (callCode 2) [ClosureObj addClosure, Integer 1, Integer 2])
        \<lparr>frames := (replicate 1024 None)[0 := Some ((mainFrame (callCode 2))\<lparr>ip := 0\<rparr>),
                                          1 := Some \<lparr>cl = addClosure, ip = - 1, basePointer = 1\<rparr>],
         framesIndex := 2, sp := 4\<rparr>)"
proof -
  let ?vm1 = "exampleVM (callCode 1) [ClosureObj addClosure, Integer 1]"
  let ?vm2 = "exampleVM (callCode 2) [ClosureObj addClosure, Integer 1, Integer 2]"
  have o: "operand8 (callCode n) (0 + 1) = Inr (int n)" if "n < 256" for n
    using that by (simp add: callCode_def operand8_def sliceFrom_def ReadUint8_def uint_nat unat_of_nat)
  have c1: "elemAt (stack ?vm1) (sp ?vm1 - 1 - int 1) = Inr (ClosureObj addClosure)"
    by (simp add: example_simps elemAt_def)
  have c2: "elemAt (stack ?vm2) (sp ?vm2 - 1 - int 2) = Inr (ClosureObj addClosure)"
    by (simp add: example_simps elemAt_def)
  have m1: "int 1 \<noteq> NumParameters (Fn addClosure)" by (simp add: addClosure_def)
  have m2: "int 2 = NumParameters (Fn addClosure) \<and> framesIndex ?vm2 < int (length (frames ?vm2))"
    by (simp add: addClosure_def example_simps)
  have r1: "execute exampleHost OpCall (callCode 1) 0 ?vm1 =
     (Inl (Errorf ''wrong number of arguments: want=%d, got=%d''
             [ArgInt (NumParameters (Fn addClosure)), ArgInt (int 1)]),
      ?vm1\<lparr>frames := (frames ?vm1)[nat (framesIndex ?vm1 - 1) :=
                 Some ((mainFrame (callCode 1))\<lparr>ip := ip (mainFrame (callCode 1)) + 1\<rparr>)]\<rparr>)"
    using OpCall_closure [OF o exampleVM_currentFrame c1, of exampleHost] m1 by simp
  have r2: "execute exampleHost OpCall (callCode 2) 0 ?vm2 =
     (Inr (),
      ?vm2\<lparr>frames := (frames ?vm2)[nat (framesIndex ?vm2 - 1) :=
                 Some ((mainFrame (callCode 2))\<lparr>ip := ip (mainFrame (callCode 2)) + 1\<rparr>),
               nat (framesIndex ?vm2) := Some (NewFrame addClosure (sp ?vm2 - int 2))],
         framesIndex := framesIndex ?vm2 + 1,
         sp := sp ?vm2 - int 2 + NumLocals (Fn addClosure)\<rparr>)"
    using OpCall_closure [OF o exampleVM_currentFrame c2, of exampleHost] m2 by simp
  have s1: "?vm1\<lparr>frames := (frames ?vm1)[nat (framesIndex ?vm1 - 1) :=
                 Some ((mainFrame (callCode 1))\<lparr>ip := ip (mainFrame (callCode 1)) + 1\<rparr>)]\<rparr> =
        ?vm1\<lparr>frames := (replicate 1024 None)[0 := Some ((mainFrame (callCode 1))\<lparr>ip := 0\<rparr>)]\<rparr>"
    by (simp add: example_simps mainFrame_def)
  have s2: "?vm2\<lparr>frames := (frames ?vm2)[nat (framesIndex ?vm2 - 1) :=
                 Some ((mainFrame (callCode 2))\<lparr>ip := ip (mainFrame (callCode 2)) + 1\<rparr>),
               nat (framesIndex ?vm2) := Some (NewFrame addClosure (sp ?vm2 - int 2))],
         framesIndex := framesIndex ?vm2 + 1,
         sp := sp ?vm2 - int 2 + NumLocals (Fn addClosure)\<rparr> =
        ?vm2\<lparr>frames := (replicate 1024 None)[0 := Some ((mainFrame (callCode 2))\<lparr>ip := 0\<rparr>),
                                          1 := Some \<lparr>cl = addClosure, ip = - 1, basePointer = 1\<rparr>],
         framesIndex := 2, sp := 4\<rparr>"
    by (simp add: example_simps mainFrame_def addClosure_def)
  have a1: "NumParameters (Fn addClosure) = 2" by (simp add: addClosure_def)
  show ?thesis using r1 r2 unfolding s1 s2 a1 by simp
qed

text \<open>
  Claim C6 as it is stated, for every \<open>OpCall\<close> of a closure, fails when all the frames
  are in use: the callee is a closure of no parameter, called with no argument, and no
  frame is pushed; the store into the frame stack panics.
\<close>

theorem OpCall_full_frame_stack_counterexample:
  "elemAt (stack fullFramesVM) (sp fullFramesVM - 1 - 0) = Inr (ClosureObj loopClosure)
   \<and> NumParameters (Fn loopClosure) = 0
   \<and> fst (execute exampleHost OpCall [35, 27, 0, 28] 1 fullFramesVM) = Inl (Panic IndexOutOfRange)"
  by (simp add: fullFramesVM_def loopClosure_def example_simps elemAt_def operand8_def sliceFrom_def
      ReadUint8_def andThen_def lift_def addIp_def currentFrame_ip_update_def currentFrame_def
      executeCall_def callClosure_def get_sp_def pushFrame_def)

subsection \<open>Indexing\<close>

lemma executeIndexExpression_array:
  "executeIndexExpression (Array elements) (Integer n) vm' =
     push (if 0 \<le> sint n \<and> sint n \<le> int (length elements) - 1
           then elements ! nat (sint n) else Null) vm'"
  by (simp add: executeIndexExpression_def executeArrayIndex_def andThen_def
      lift_def andAlso_def typeIs_def bindP_def elemAt_def)

lemma executeIndexExpression_dict:
  "executeIndexExpression (Dict pairs) idx vm' = executeDictIndex (Dict pairs) idx vm'"
  by (simp add: executeIndexExpression_def andThen_def lift_def andAlso_def typeIs_def bindP_def)

lemma executeDictIndex_key:
  assumes "Dictable idx = Some key"
  shows "executeDictIndex (Dict pairs) idx vm' =
         push (case pairs key of Some pair \<Rightarrow> Value pair | None \<Rightarrow> Null) vm'"
  using assms by (simp add: executeDictIndex_def andThen_def lift_def split: option.split)

lemma executeIndexExpression_unsupported:
  assumes "Type left = Inr t" "t \<noteq> DICT_OBJ"
    and "t = ARRAY_OBJ \<longrightarrow> (\<exists>ti. Type idx = Inr ti \<and> ti \<noteq> INTEGER_OBJ)"
  shows "executeIndexExpression left idx vm' =
         (Inl (Errorf ''index operator not supported: %s'' [ArgType t]), vm')"
  using assms
  by (auto simp: executeIndexExpression_def andThen_def lift_def andAlso_def typeIs_def bindP_def
      throw_def)

text \<open>
  Claim C4. With a container \<open>left\<close> and an index \<open>idx\<close> on top of the stack, \<open>OpIndex\<close>
  replaces them as follows. On an Array with an Integer index it pushes the element when
  \<open>0 \<le> i \<le> len - 1\<close> and Null otherwise. On a Dict with a hashable key it pushes the
  stored value when the key is present and Null when it is absent. On a Dict with an
  unhashable key it fails with the error "unusable as hash key". Every other
  combination (a container that is neither Array nor Dict, or an Array with an index
  that is no Integer) fails with the error "index operator not supported".
\<close>

theorem OpIndex_behaviour:
  assumes "2 \<le> sp vm" "sp vm \<le> int (length (stack vm))" "int (length (stack vm)) \<le> StackSize"
    and "stack vm ! nat (sp vm - 2) = left" "stack vm ! nat (sp vm - 1) = idx"
  shows
   "(left = Array elements \<and> idx = Integer n \<longrightarrow>
       execute h OpIndex ins i vm =
         (Inr (), vm\<lparr>stack := (stack vm)[nat (sp vm - 2) :=
                      (if 0 \<le> sint n \<and> sint n \<le> int (length elements) - 1
                       then elements ! nat (sint n) else Null)],
                    sp := sp vm - 1\<rparr>))
    \<and> (left = Dict pairs \<and> Dictable idx = Some key \<longrightarrow>
       execute h OpIndex ins i vm =
         (Inr (), vm\<lparr>stack := (stack vm)[nat (sp vm - 2) :=
                      (case pairs key of Some pair \<Rightarrow> Value pair | None \<Rightarrow> Null)],
                    sp := sp vm - 1\<rparr>))
    \<and> (left = Dict pairs \<and> Dictable idx = None \<and> Type idx = Inr ti \<longrightarrow>
       execute h OpIndex ins i vm =
         (Inl (Errorf ''unusable as hash key: %s'' [ArgType ti]), vm\<lparr>sp := sp vm - 2\<rparr>))
    \<and> (Type left = Inr t \<and> t \<noteq> DICT_OBJ
        \<and> (t = ARRAY_OBJ \<longrightarrow> (\<exists>ti. Type idx = Inr ti \<and> ti \<noteq> INTEGER_OBJ)) \<longrightarrow>
       execute h OpIndex ins i vm =
         (Inl (Errorf ''index operator not supported: %s'' [ArgType t]), vm\<lparr>sp := sp vm - 2\<rparr>))"
proof -
  have e: "execute h OpIndex ins i vm = executeIndexExpression left idx (vm\<lparr>sp := sp vm - 2\<rparr>)"
    using assms by (simp add: andThen_def pop_def elemAt_def)
  note p = push_after_two_pops [OF assms(1-3)]
  show ?thesis
  proof (intro conjI impI)
    assume "left = Array elements \<and> idx = Integer n"
    then show "execute h OpIndex ins i vm =
         (Inr (), vm\<lparr>stack := (stack vm)[nat (sp vm - 2) :=
                      (if 0 \<le> sint n \<and> sint n \<le> int (length elements) - 1
                       then elements ! nat (sint n) else Null)],
                    sp := sp vm - 1\<rparr>)"
      unfolding e by (simp only: executeIndexExpression_array p)
  next
    assume "left = Dict pairs \<and> Dictable idx = Some key"
    then show "execute h OpIndex ins i vm =
         (Inr (), vm\<lparr>stack := (stack vm)[nat (sp vm - 2) :=
                      (case pairs key of Some pair \<Rightarrow> Value pair | None \<Rightarrow> Null)],
                    sp := sp vm - 1\<rparr>)"
      unfolding e by (simp only: executeIndexExpression_dict executeDictIndex_key p)
  next
    assume "left = Dict pairs \<and> Dictable idx = None \<and> Type idx = Inr ti"
    then show "execute h OpIndex ins i vm =
         (Inl (Errorf ''unusable as hash key: %s'' [ArgType ti]), vm\<lparr>sp := sp vm - 2\<rparr>)"
      unfolding e by (simp only: executeIndexExpression_dict executeDictIndex_unusable)
  next
    assume "Type left = Inr t \<and> t \<noteq> DICT_OBJ
        \<and> (t = ARRAY_OBJ \<longrightarrow> (\<exists>ti. Type idx = Inr ti \<and> ti \<noteq> INTEGER_OBJ))"
    then show "execute h OpIndex ins i vm =
         (Inl (Errorf ''index operator not supported: %s'' [ArgType t]), vm\<lparr>sp := sp vm - 2\<rparr>)"
      unfolding e by (intro executeIndexExpression_unsupported) blast+
  qed
qed


text \<open>
  Claim C4, instances of the theorem: an Array at an index in range, beyond the end and
  negative; a Dict at a present key, an absent key and an unhashable key; a String as
  the container; an Array with a String as the index.
\<close>

theorem OpIndex_behaviour_witness:
  "execute exampleHost OpIndex [] 0 (exampleVM [] [exampleArray, Integer 1]) =
     (Inr (), exampleVM [] [Integer 20, Integer 1]\<lparr>sp := 1\<rparr>)
   \<and> execute exampleHost OpIndex [] 0 (exampleVM [] [exampleArray, Integer 3]) =
     (Inr (), exampleVM [] [Null, Integer 3]\<lparr>sp := 1\<rparr>)
   \<and> execute exampleHost OpIndex [] 0 (exampleVM [] [exampleArray, Integer (- 1)]) =
     (Inr (), exampleVM [] [Null, Integer (- 1)]\<lparr>sp := 1\<rparr>)
   \<and> execute exampleHost OpIndex [] 0 (exampleVM [] [exampleDict, Integer 1]) =
     (Inr (), exampleVM [] [Integer 5, Integer 1]\<lparr>sp := 1\<rparr>)
   \<and> execute exampleHost OpIndex [] 0 (exampleVM [] [exampleDict, Boolean True]) =
     (Inr (), exampleVM [] [Null, Boolean True]\<lparr>sp := 1\<rparr>)
   \<and> execute exampleHost OpIndex [] 0 (exampleVM [] [exampleDict, exampleArray]) =
     (Inl (Errorf ''unusable as hash key: %s'' [ArgType ARRAY_OBJ]),
      exampleVM [] [exampleDict, exampleArray]\<lparr>sp := 0\<rparr>)
   \<and> execute exampleHost OpIndex [] 0 (exampleVM [] [String ''abc'', Integer 0]) =
     (Inl (Errorf ''index operator not supported: %s'' [ArgType STRING_OBJ]),
      exampleVM [] [String ''abc'', Integer 0]\<lparr>sp := 0\<rparr>)
   \<and> execute exampleHost OpIndex [] 0 (exampleVM [] [exampleArray, String ''0'']) =
     (Inl (Errorf ''index operator not supported: %s'' [ArgType ARRAY_OBJ]),
      exampleVM [] [exampleArray, String ''0'']\<lparr>sp := 0\<rparr>)"
proof -
  have 1: "execute exampleHost OpIndex [] 0 (exampleVM [] [exampleArray, Integer 1]) =
     (Inr (), exampleVM [] [Integer 20, Integer 1]\<lparr>sp := 1\<rparr>)"
    using OpIndex_behaviour [where vm = "exampleVM [] [exampleArray, Integer 1]" and h = exampleHost and ins = "[]" and i = 0 and left = "exampleArray" and idx = "Integer 1" and elements = "[Integer 10, Integer 20, Integer 30]" and n = "1"]
    by (simp del: execute.simps add: example_simps exampleArray_def exampleDict_def
        Integer_DictKey_def Boolean_DictKey_def)
  have 2: "execute exampleHost OpIndex [] 0 (exampleVM [] [exampleArray, Integer 3]) =
     (Inr (), exampleVM [] [Null, Integer 3]\<lparr>sp := 1\<rparr>)"
    using OpIndex_behaviour [where vm = "exampleVM [] [exampleArray, Integer 3]" and h = exampleHost and ins = "[]" and i = 0 and left = "exampleArray" and idx = "Integer 3" and elements = "[Integer 10, Integer 20, Integer 30]" and n = "3"]
    by (simp del: execute.simps add: example_simps exampleArray_def exampleDict_def
        Integer_DictKey_def Boolean_DictKey_def)
  have 3: "execute exampleHost OpIndex [] 0 (exampleVM [] [exampleArray, Integer (- 1)]) =
     (Inr (), exampleVM [] [Null, Integer (- 1)]\<lparr>sp := 1\<rparr>)"
    using OpIndex_behaviour [where vm = "exampleVM [] [exampleArray, Integer (- 1)]" and h = exampleHost and ins = "[]" and i = 0 and left = "exampleArray" and idx = "Integer (- 1)" and elements = "[Integer 10, Integer 20, Integer 30]" and n = "- 1"]
    by (simp del: execute.simps add: example_simps exampleArray_def exampleDict_def
        Integer_DictKey_def Boolean_DictKey_def)
  have 4: "execute exampleHost OpIndex [] 0 (exampleVM [] [exampleDict, Integer 1]) =
     (Inr (), exampleVM [] [Integer 5, Integer 1]\<lparr>sp := 1\<rparr>)"
    using OpIndex_behaviour [where vm = "exampleVM [] [exampleDict, Integer 1]" and h = exampleHost and ins = "[]" and i = 0 and left = "exampleDict" and idx = "Integer 1" and pairs = "Map.empty(Integer_DictKey 1 \<mapsto> DictPair (Integer 1) (Integer 5))" and key = "Integer_DictKey 1"]
    by (simp del: execute.simps add: example_simps exampleArray_def exampleDict_def
        Integer_DictKey_def Boolean_DictKey_def)
  have 5: "execute exampleHost OpIndex [] 0 (exampleVM [] [exampleDict, Boolean True]) =
     (Inr (), exampleVM [] [Null, Boolean True]\<lparr>sp := 1\<rparr>)"
    using OpIndex_behaviour [where vm = "exampleVM [] [exampleDict, Boolean True]" and h = exampleHost and ins = "[]" and i = 0 and left = "exampleDict" and idx = "Boolean True" and pairs = "Map.empty(Integer_DictKey 1 \<mapsto> DictPair (Integer 1) (Integer 5))" and key = "Boolean_DictKey True"]
    by (simp del: execute.simps add: example_simps exampleArray_def exampleDict_def
        Integer_DictKey_def Boolean_DictKey_def)
  have 6: "execute exampleHost OpIndex [] 0 (exampleVM [] [exampleDict, exampleArray]) =
     (Inl (Errorf ''unusable as hash key: %s'' [ArgType ARRAY_OBJ]),
      exampleVM [] [exampleDict, exampleArray]\<lparr>sp := 0\<rparr>)"
    using OpIndex_behaviour [where vm = "exampleVM [] [exampleDict, exampleArray]" and h = exampleHost and ins = "[]" and i = 0 and left = "exampleDict" and idx = "exampleArray" and pairs = "Map.empty(Integer_DictKey 1 \<mapsto> DictPair (Integer 1) (Integer 5))" and ti = "ARRAY_OBJ"]
    by (simp del: execute.simps add: example_simps exampleArray_def exampleDict_def
        Integer_DictKey_def Boolean_DictKey_def)
  have 7: "execute exampleHost OpIndex [] 0 (exampleVM [] [String ''abc'', Integer 0]) =
     (Inl (Errorf ''index operator not supported: %s'' [ArgType STRING_OBJ]),
      exampleVM [] [String ''abc'', Integer 0]\<lparr>sp := 0\<rparr>)"
    using OpIndex_behaviour [where vm = "exampleVM [] [String ''abc'', Integer 0]" and h = exampleHost and ins = "[]" and i = 0 and left = "String ''abc''" and idx = "Integer 0" and t = "STRING_OBJ"]
    by (simp del: execute.simps add: example_simps exampleArray_def exampleDict_def
        Integer_DictKey_def Boolean_DictKey_def)
  have 8: "execute exampleHost OpIndex [] 0 (exampleVM [] [exampleArray, String ''0'']) =
     (Inl (Errorf ''index operator not supported: %s'' [ArgType ARRAY_OBJ]),
      exampleVM [] [exampleArray, String ''0'']\<lparr>sp := 0\<rparr>)"
    using OpIndex_behaviour [where vm = "exampleVM [] [exampleArray, String ''0'']" and h = exampleHost and ins = "[]" and i = 0 and left = "exampleArray" and idx = "String ''0''" and t = "ARRAY_OBJ"]
    by (simp del: execute.simps add: example_simps exampleArray_def exampleDict_def
        Integer_DictKey_def Boolean_DictKey_def)
  show ?thesis using 1 2 3 4 5 6 7 8 by blast
qed

subsection \<open>Calls of built-ins\<close>

lemma builtin_empty_array:
  assumes "b = Fn_first \<or> b = Fn_last \<or> b = Fn_allButFirst \<or> b = Fn_min \<or> b = Fn_max"
  shows "Builtin_Fn h b [Array []] = Inr NilObject"
  using assms
  by (auto simp: ArrayFirstBuiltin_def ArrayLastBuiltin_def AllButFirstBuiltin_def
      MinBuiltin_def MaxBuiltin_def bindP_def)

lemma sliceRange_top:
  assumes "1 \<le> s" "s \<le> int (length xs)"
  shows "sliceRange xs (s - 1) s = Inr [xs ! nat (s - 1)]"
proof -
  have lt: "nat (s - 1) < length xs" using assms by linarith
  have "take 1 (drop (nat (s - 1)) xs) = [xs ! nat (s - 1)]"
    using lt by (simp add: take_Suc_conv_app_nth)
  then show ?thesis using assms by (simp add: sliceRange_def)
qed

lemma callBuiltin_one_nil:
  assumes "2 \<le> sp vm" "sp vm \<le> int (length (stack vm))" "int (length (stack vm)) \<le> StackSize"
    and "Builtin_Fn h b [stack vm ! nat (sp vm - 1)] = Inr NilObject"
  shows "callBuiltin h b 1 vm =
         (Inr (), vm\<lparr>stack := (stack vm)[nat (sp vm - 2) := Null], sp := sp vm - 1\<rparr>)"
proof -
  have s: "sliceRange (stack vm) (sp vm - 1) (sp vm) = Inr [stack vm ! nat (sp vm - 1)]"
    using assms(1,2) by (intro sliceRange_top) simp_all
  have p: "push Null (vm\<lparr>sp := sp vm - 2\<rparr>) =
         (Inr (), vm\<lparr>stack := (stack vm)[nat (sp vm - 2) := Null], sp := sp vm - 1\<rparr>)"
    by (rule push_after_two_pops [OF assms(1-3)])
  have "sp vm - 1 - 1 = sp vm - 2" by simp
  then show ?thesis
    by (simp add: callBuiltin_def andThen_def get_sp_def lift_def s assms(4) set_sp_def
        ignoreError_def p)
qed

text \<open>
  Claim C10. Each of the built-ins \<open>first\<close>, \<open>last\<close>, \<open>allButFirst\<close>, \<open>min\<close> and \<open>max\<close>,
  called with one argument that is the empty Array, returns no value (the nil
  interface); the \<open>OpCall\<close> with one argument of such a built-in on the empty Array then
  replaces the callee and the argument by Null and returns no error.
\<close>

theorem builtin_on_empty_array_pushes_Null:
  assumes "b = Fn_first \<or> b = Fn_last \<or> b = Fn_allButFirst \<or> b = Fn_min \<or> b = Fn_max"
    and "operand8 ins (i + 1) = Inr 1"
    and "currentFrame vm = (Inr f, vm)"
    and "2 \<le> sp vm" "sp vm \<le> int (length (stack vm))" "int (length (stack vm)) \<le> StackSize"
    and "stack vm ! nat (sp vm - 2) = Builtin b" "stack vm ! nat (sp vm - 1) = Array []"
  shows "Builtin_Fn h b [Array []] = Inr NilObject
       \<and> execute h OpCall ins i vm =
           (Inr (), vm\<lparr>frames := (frames vm)[nat (framesIndex vm - 1) := Some (f\<lparr>ip := ip f + 1\<rparr>)],
                      stack := (stack vm)[nat (sp vm - 2) := Null],
                      sp := sp vm - 1\<rparr>)"
proof -
  let ?vm1 = "vm\<lparr>frames := (frames vm)[nat (framesIndex vm - 1) := Some (f\<lparr>ip := ip f + 1\<rparr>)]\<rparr>"
  have n: "Builtin_Fn h b [Array []] = Inr NilObject"
    by (rule builtin_empty_array [OF assms(1)])
  have a: "addIp 1 vm = (Inr (), ?vm1)"
    using assms(3) by (simp add: addIp_def currentFrame_ip_update_current)
  have c: "elemAt (stack vm) (sp vm - 2) = Inr (Builtin b)"
    using assms(4,5,7) by (simp add: elemAt_def)
  have "callBuiltin h b 1 ?vm1 =
         (Inr (), ?vm1\<lparr>stack := (stack ?vm1)[nat (sp ?vm1 - 2) := Null], sp := sp ?vm1 - 1\<rparr>)"
    using assms(4-6,8) n by (intro callBuiltin_one_nil) simp_all
  then have "execute h OpCall ins i vm =
           (Inr (), ?vm1\<lparr>stack := (stack ?vm1)[nat (sp ?vm1 - 2) := Null], sp := sp ?vm1 - 1\<rparr>)"
    by (simp add: assms(2) andThen_def lift_def a executeCall_def c)
  then show ?thesis using n by simp
qed

text \<open>
  Claim C10, five instances of the theorem, one for each of the built-ins.
\<close>

theorem builtin_on_empty_array_pushes_Null_witness:
  "execute exampleHost OpCall (callCode 1) 0 (exampleVM (callCode 1) [Builtin Fn_first, Array []]) =
       (Inr (), (exampleVM (callCode 1) [Null, Array []])
          \<lparr>frames := (replicate 1024 None)[0 := Some ((mainFrame (callCode 1))\<lparr>ip := 0\<rparr>)], sp := 1\<rparr>)
   \<and> execute exampleHost OpCall (callCode 1) 0 (exampleVM (callCode 1) [Builtin Fn_last, Array []]) =
       (Inr (), (exampleVM (callCode 1) [Null, Array []])
          \<lparr>frames := (replicate 1024 None)[0 := Some ((mainFrame (callCode 1))\<lparr>ip := 0\<rparr>)], sp := 1\<rparr>)
   \<and> execute exampleHost OpCall (callCode 1) 0 (exampleVM (callCode 1) [Builtin Fn_allButFirst, Array []]) =
       (Inr (), (exampleVM (callCode 1) [Null, Array []])
          \<lparr>frames := (replicate 1024 None)[0 := Some ((mainFrame (callCode 1))\<lparr>ip := 0\<rparr>)], sp := 1\<rparr>)
   \<and> execute exampleHost OpCall (callCode 1) 0 (exampleVM (callCode 1) [Builtin Fn_min, Array []]) =
       (Inr (), (exampleVM (callCode 1) [Null, Array []])
          \<lparr>frames := (replicate 1024 None)[0 := Some ((mainFrame (callCode 1))\<lparr>ip := 0\<rparr>)], sp := 1\<rparr>)
   \<and> execute exampleHost OpCall (callCode 1) 0 (exampleVM (callCode 1) [Builtin Fn_max, Array []]) =
       (Inr (), (exampleVM (callCode 1) [Null, Array []])
          \<lparr>frames := (replicate 1024 None)[0 := Some ((mainFrame (callCode 1))\<lparr>ip := 0\<rparr>)], sp := 1\<rparr>)"
proof -
  have o: "operand8 (callCode 1) (0 + 1) = Inr 1"
    by (simp add: callCode_def operand8_def sliceFrom_def ReadUint8_def)
  have w: "execute exampleHost OpCall (callCode 1) 0 (exampleVM (callCode 1) [Builtin b, Array []]) =
       (Inr (), (exampleVM (callCode 1) [Null, Array []])
          \<lparr>frames := (replicate 1024 None)[0 := Some ((mainFrame (callCode 1))\<lparr>ip := 0\<rparr>)], sp := 1\<rparr>)"
    if b: "b = Fn_first \<or> b = Fn_last \<or> b = Fn_allButFirst \<or> b = Fn_min \<or> b = Fn_max" for b
  proof -
    let ?vm = "exampleVM (callCode 1) [Builtin b, Array []]"
    have r: "?vm\<lparr>frames := (frames ?vm)[nat (framesIndex ?vm - 1) :=
                Some ((mainFrame (callCode 1))\<lparr>ip := ip (mainFrame (callCode 1)) + 1\<rparr>)],
              stack := (stack ?vm)[nat (sp ?vm - 2) := Null], sp := sp ?vm - 1\<rparr> =
           (exampleVM (callCode 1) [Null, Array []])
          \<lparr>frames := (replicate 1024 None)[0 := Some ((mainFrame (callCode 1))\<lparr>ip := 0\<rparr>)], sp := 1\<rparr>"
      by (simp add: example_simps mainFrame_def)
    have "execute exampleHost OpCall (callCode 1) 0 ?vm =
       (Inr (), ?vm\<lparr>frames := (frames ?vm)[nat (framesIndex ?vm - 1) :=
                Some ((mainFrame (callCode 1))\<lparr>ip := ip (mainFrame (callCode 1)) + 1\<rparr>)],
              stack := (stack ?vm)[nat (sp ?vm - 2) := Null], sp := sp ?vm - 1\<rparr>)"
      using builtin_on_empty_array_pushes_Null [OF b o exampleVM_currentFrame,
          where xs1 = "[Builtin b, Array []]" and h = exampleHost]
      by (simp del: execute.simps add: example_simps)
    then show ?thesis unfolding r .
  qed
  show ?thesis by (intro conjI w) simp_all
qed

text \<open>
  Claim C7 says that a built-in returns a value of error kind for a wrong arity or a
  wrongly typed array element. The code does otherwise: \<open>organize\<close> with no argument
  reads \<open>args[0]\<close> and panics; \<open>max\<close> and \<open>min\<close> on an Array that holds an Integer and a
  String panic in the type assertion; \<open>max\<close> on an Array that holds one String returns
  the String. In the machine the panic of the built-in is the panic of \<open>OpCall\<close>.
\<close>

theorem builtins_panic_on_unchecked_arguments:
  "OrganizeBuiltins [] = Inl IndexOutOfRange
   \<and> MaxBuiltin h [Array [Integer 1, String ''a'']] = Inl TypeAssertion
   \<and> MinBuiltin h [Array [Integer 1, String ''a'']] = Inl TypeAssertion
   \<and> MaxBuiltin h [Array [String ''a'']] = Inr (String ''a'')
   \<and> fst (execute exampleHost OpCall (callCode 0) 0 (exampleVM (callCode 0) [Builtin Fn_organize])) =
       Inl (Panic IndexOutOfRange)
   \<and> fst (execute exampleHost OpCall (callCode 1) 0
            (exampleVM (callCode 1) [Builtin Fn_max, Array [Integer 1, String ''a'']])) =
       Inl (Panic TypeAssertion)"
  by (simp add: OrganizeBuiltins_def MaxBuiltin_def MinBuiltin_def bindP_def elemAt_def
      example_simps callCode_def operand8_def sliceFrom_def ReadUint8_def andThen_def lift_def
      addIp_def currentFrame_ip_update_def currentFrame_def executeCall_def callBuiltin_def
      get_sp_def sliceRange_def)

subsection \<open>Dictionary literals with a repeated key\<close>

lemma buildDict_loop_succeeds:
  assumes "0 \<le> i" "i + 2 * int n \<le> int (length (stack vm))"
    and "\<forall>k<n. Dictable (stack vm ! nat (i + 2 * int k)) \<noteq> None"
  shows "\<exists>m. buildDict_loop vm i (i + 2 * int n) acc = Inr m"
  using assms
proof (induction n arbitrary: i acc)
  case 0
  then show ?case by (simp add: buildDict_loop_done)
next
  case (Suc n)
  have "Dictable (stack vm ! nat i) \<noteq> None"
    using first_pair [OF Suc.prems(3)] .
  then obtain dk where dk: "Dictable (stack vm ! nat i) = Some dk" by blast
  let ?acc = "acc(dk \<mapsto> DictPair (stack vm ! nat i) (stack vm ! nat (i + 1)))"
  have e: "i + 2 * int (Suc n) = i + 2 + 2 * int n" by simp
  have b1: "i + 1 < int (length (stack vm))" and b2: "i < i + 2 + 2 * int n"
    and b3: "i + 2 + 2 * int n \<le> int (length (stack vm))"
    using Suc.prems(2) unfolding e by linarith+
  have step: "buildDict_loop vm i (i + 2 + 2 * int n) acc = buildDict_loop vm (i + 2) (i + 2 + 2 * int n) ?acc"
    using Suc.prems(1) b1 b2 dk by (rule buildDict_loop_next)
  have "\<exists>m. buildDict_loop vm (i + 2) (i + 2 + 2 * int n) ?acc = Inr m"
  proof (rule Suc.IH)
    show "0 \<le> i + 2" using Suc.prems(1) by linarith
    show "i + 2 + 2 * int n \<le> int (length (stack vm))" by (rule b3)
    show "\<forall>k<n. Dictable (stack vm ! nat (i + 2 + 2 * int k)) \<noteq> None"
      by (rule shift_pairs [OF Suc.prems(3)])
  qed
  then show ?case unfolding e step .
qed

lemma buildDict_loop_untouched:
  assumes "0 \<le> i" "i + 2 * int n \<le> int (length (stack vm))"
    and "\<forall>k<n. Dictable (stack vm ! nat (i + 2 * int k)) \<noteq> None"
    and "\<forall>k<n. Dictable (stack vm ! nat (i + 2 * int k)) \<noteq> Some dk"
    and "buildDict_loop vm i (i + 2 * int n) acc = Inr m"
  shows "m dk = acc dk"
  using assms
proof (induction n arbitrary: i acc)
  case 0
  then show ?case by (simp add: buildDict_loop_done)
next
  case (Suc n)
  have "Dictable (stack vm ! nat i) \<noteq> None"
    using first_pair [OF Suc.prems(3)] .
  then obtain dk0 where dk0: "Dictable (stack vm ! nat i) = Some dk0" by blast
  have "Dictable (stack vm ! nat i) \<noteq> Some dk"
    using first_pair [OF Suc.prems(4)] .
  then have ne: "dk0 \<noteq> dk" using dk0 by simp
  let ?acc = "acc(dk0 \<mapsto> DictPair (stack vm ! nat i) (stack vm ! nat (i + 1)))"
  have e: "i + 2 * int (Suc n) = i + 2 + 2 * int n" by simp
  have b1: "i + 1 < int (length (stack vm))" and b2: "i < i + 2 + 2 * int n"
    and b3: "i + 2 + 2 * int n \<le> int (length (stack vm))"
    using Suc.prems(2) unfolding e by linarith+
  have step: "buildDict_loop vm i (i + 2 + 2 * int n) acc = buildDict_loop vm (i + 2) (i + 2 + 2 * int n) ?acc"
    using Suc.prems(1) b1 b2 dk0 by (rule buildDict_loop_next)
  have run: "buildDict_loop vm (i + 2) (i + 2 + 2 * int n) ?acc = Inr m"
    using Suc.prems(5) unfolding e step .
  have "m dk = ?acc dk"
  proof (rule Suc.IH [OF _ b3 _ _ run])
    show "0 \<le> i + 2" using Suc.prems(1) by linarith
    show "\<forall>k<n. Dictable (stack vm ! nat (i + 2 + 2 * int k)) \<noteq> None"
      by (rule shift_pairs [OF Suc.prems(3)])
    show "\<forall>k<n. Dictable (stack vm ! nat (i + 2 + 2 * int k)) \<noteq> Some dk"
      by (rule shift_pairs [OF Suc.prems(4)])
  qed
  then show ?case using ne by simp
qed

lemma buildDict_loop_latest:
  assumes "0 \<le> i" "i + 2 * int n \<le> int (length (stack vm))"
    and "\<forall>k<n. Dictable (stack vm ! nat (i + 2 * int k)) \<noteq> None"
    and "j < n" "Dictable (stack vm ! nat (i + 2 * int j)) = Some dk"
    and "\<forall>k<n. j < k \<longrightarrow> Dictable (stack vm ! nat (i + 2 * int k)) \<noteq> Some dk"
    and "buildDict_loop vm i (i + 2 * int n) acc = Inr m"
  shows "m dk = Some (DictPair (stack vm ! nat (i + 2 * int j)) (stack vm ! nat (i + 2 * int j + 1)))"
  using assms
proof (induction n arbitrary: i acc j)
  case 0
  then show ?case by simp
next
  case (Suc n)
  have "Dictable (stack vm ! nat i) \<noteq> None"
    using first_pair [OF Suc.prems(3)] .
  then obtain dk0 where dk0: "Dictable (stack vm ! nat i) = Some dk0" by blast
  let ?acc = "acc(dk0 \<mapsto> DictPair (stack vm ! nat i) (stack vm ! nat (i + 1)))"
  have e: "i + 2 * int (Suc n) = i + 2 + 2 * int n" by simp
  have b0: "0 \<le> i + 2" using Suc.prems(1) by linarith
  have b1: "i + 1 < int (length (stack vm))" and b2: "i < i + 2 + 2 * int n"
    and b3: "i + 2 + 2 * int n \<le> int (length (stack vm))"
    using Suc.prems(2) unfolding e by linarith+
  have step: "buildDict_loop vm i (i + 2 + 2 * int n) acc = buildDict_loop vm (i + 2) (i + 2 + 2 * int n) ?acc"
    using Suc.prems(1) b1 b2 dk0 by (rule buildDict_loop_next)
  have run: "buildDict_loop vm (i + 2) (i + 2 + 2 * int n) ?acc = Inr m"
    using Suc.prems(7) unfolding e step .
  have h1: "\<forall>k<n. Dictable (stack vm ! nat (i + 2 + 2 * int k)) \<noteq> None"
    by (rule shift_pairs [OF Suc.prems(3)])
  have h6: "\<forall>k<n. j < Suc k \<longrightarrow> Dictable (stack vm ! nat (i + 2 + 2 * int k)) \<noteq> Some dk"
  proof (intro allI impI)
    fix k assume k: "k < n" and jk: "j < Suc k"
    from k have "Suc k < Suc n" by simp
    from Suc.prems(6) [rule_format, OF this jk]
    have p: "Dictable (stack vm ! nat (i + 2 * int (Suc k))) \<noteq> Some dk" .
    have eq: "i + 2 * int (Suc k) = i + 2 + 2 * int k" by simp
    from p show "Dictable (stack vm ! nat (i + 2 + 2 * int k)) \<noteq> Some dk" unfolding eq .
  qed
  show ?case
  proof (cases j)
    case 0
    have d: "dk0 = dk" using Suc.prems(5) dk0 unfolding 0 by simp
    have h2: "\<forall>k<n. Dictable (stack vm ! nat (i + 2 + 2 * int k)) \<noteq> Some dk"
      using h6 unfolding 0 by simp
    have "m dk = ?acc dk"
      by (rule buildDict_loop_untouched [OF b0 b3 h1 h2 run])
    then show ?thesis unfolding 0 d by simp
  next
    case (Suc j')
    have a: "j' < n" using Suc.prems(4) unfolding Suc by simp
    have eqj: "i + 2 * int (Suc j') = i + 2 + 2 * int j'" by simp
    have b: "Dictable (stack vm ! nat (i + 2 + 2 * int j')) = Some dk"
      using Suc.prems(5) unfolding Suc eqj .
    have c: "\<forall>k<n. j' < k \<longrightarrow> Dictable (stack vm ! nat (i + 2 + 2 * int k)) \<noteq> Some dk"
      using h6 unfolding Suc by simp
    have "m dk = Some (DictPair (stack vm ! nat (i + 2 + 2 * int j')) (stack vm ! nat (i + 2 + 2 * int j' + 1)))"
      by (rule Suc.IH [OF b0 b3 h1 a b c run])
    then show ?thesis unfolding Suc eqj .
  qed
qed

lemma all_less_3: "(\<forall>k<3. P k) = (P (0::nat) \<and> P 1 \<and> P 2)"
proof -
  have "k < 3 \<longleftrightarrow> k = 0 \<or> k = 1 \<or> k = 2" for k :: nat by linarith
  then show ?thesis by auto
qed

text \<open>
  Claim C9. Let \<open>OpDict\<close> pop \<open>n\<close> pairs whose keys are all hashable, let the key of the
  pair \<open>j\<close> have the projection \<open>dk\<close>, and let no later pair have a key with that
  projection (earlier pairs may). Then the construction succeeds without error, the
  pairs are replaced by one Dict, and that Dict maps \<open>dk\<close> to the pair \<open>j\<close>: of several
  bindings of one key, the latest in stack order is the one that stays.
\<close>

theorem OpDict_later_binding_wins:
  assumes "operand16 ins (i + 1) = Inr (2 * int n)"
    and "currentFrame vm = (Inr f, vm)"
    and "2 * int n \<le> sp vm" "sp vm \<le> int (length (stack vm))" "int (length (stack vm)) \<le> StackSize"
    and "\<forall>k<n. Dictable (stack vm ! nat (sp vm - 2 * int n + 2 * int k)) \<noteq> None"
    and "j < n" "Dictable (stack vm ! nat (sp vm - 2 * int n + 2 * int j)) = Some dk"
    and "\<forall>k<n. j < k \<longrightarrow> Dictable (stack vm ! nat (sp vm - 2 * int n + 2 * int k)) \<noteq> Some dk"
  shows "\<exists>m. execute h OpDict ins i vm =
              (Inr (), vm\<lparr>frames := (frames vm)[nat (framesIndex vm - 1) := Some (f\<lparr>ip := ip f + 2\<rparr>)],
                         stack := (stack vm)[nat (sp vm - 2 * int n) := Dict m],
                         sp := sp vm - 2 * int n + 1\<rparr>)
           \<and> m dk = Some (DictPair (stack vm ! nat (sp vm - 2 * int n + 2 * int j))
                                    (stack vm ! nat (sp vm - 2 * int n + 2 * int j + 1)))"
proof -
  let ?s = "sp vm - 2 * int n"
  let ?vm1 = "vm\<lparr>frames := (frames vm)[nat (framesIndex vm - 1) := Some (f\<lparr>ip := ip f + 2\<rparr>)]\<rparr>"
  have a: "addIp 2 vm = (Inr (), ?vm1)"
    using assms(2) by (simp add: addIp_def currentFrame_ip_update_current)
  have s0: "0 \<le> ?s" using assms(3) by simp
  have e: "?s + 2 * int n = sp vm" by simp
  have len: "?s + 2 * int n \<le> int (length (stack ?vm1))" using assms(4) by simp
  have hk: "\<forall>k<n. Dictable (stack ?vm1 ! nat (?s + 2 * int k)) \<noteq> None" using assms(6) by simp
  obtain m where m: "buildDict_loop ?vm1 ?s (?s + 2 * int n) Map.empty = Inr m"
    using buildDict_loop_succeeds [OF s0 len hk] by blast
  have hj: "Dictable (stack ?vm1 ! nat (?s + 2 * int j)) = Some dk" using assms(8) by simp
  have hl: "\<forall>k<n. j < k \<longrightarrow> Dictable (stack ?vm1 ! nat (?s + 2 * int k)) \<noteq> Some dk"
    using assms(9) by simp
  have v: "m dk = Some (DictPair (stack ?vm1 ! nat (?s + 2 * int j)) (stack ?vm1 ! nat (?s + 2 * int j + 1)))"
    by (rule buildDict_loop_latest [OF s0 len hk assms(7) hj hl m])
  have b: "buildDict ?s (sp vm) ?vm1 = Inr (Dict m)"
    using m unfolding e by (simp add: buildDict_def)
  have n1: "1 \<le> int n" using assms(7) by linarith
  have p: "push (Dict m) (?vm1\<lparr>sp := ?s\<rparr>) =
           (Inr (), ?vm1\<lparr>stack := (stack vm)[nat ?s := Dict m], sp := ?s + 1\<rparr>)"
    using s0 n1 assms(4,5) by (simp add: push_def)
  have "execute h OpDict ins i vm =
        (Inr (), ?vm1\<lparr>stack := (stack vm)[nat ?s := Dict m], sp := ?s + 1\<rparr>)"
    by (simp add: assms(1) andThen_def lift_def a get_sp_def b set_sp_def p)
  then show ?thesis using v by (intro exI [of _ m]) simp
qed

text \<open>
  Claim C9, an instance of the theorem: in \<open>{1: 10, 2: 20, 1: 30}\<close> the key 1 is bound
  to 30.
\<close>

theorem OpDict_later_binding_wins_witness:
  "\<exists>m vm'. execute exampleHost OpDict dictCode 0 (exampleVM dictCode dictStack) = (Inr (), vm')
      \<and> sp vm' = 1 \<and> stack vm' ! 0 = Dict m
      \<and> m (Integer_DictKey 1) = Some (DictPair (Integer 1) (Integer 30))"
proof -
  let ?vm = "exampleVM dictCode dictStack"
  have o: "operand16 dictCode (0 + 1) = Inr (2 * int 3)"
    by (simp add: dictCode_def operand16_def sliceFrom_def ReadUint16_def)
  have h3: "2 * int 3 \<le> sp ?vm" and h4: "sp ?vm \<le> int (length (stack ?vm))"
    and h5: "int (length (stack ?vm)) \<le> StackSize"
    by (simp_all add: example_simps dictStack_def)
  have h6: "\<forall>k<3. Dictable (stack ?vm ! nat (sp ?vm - 2 * int 3 + 2 * int k)) \<noteq> None"
    by (simp add: all_less_3 example_simps dictStack_def)
  have h8: "Dictable (stack ?vm ! nat (sp ?vm - 2 * int 3 + 2 * int 2)) = Some (Integer_DictKey 1)"
    by (simp add: example_simps dictStack_def)
  have h9: "\<forall>k<3. 2 < k \<longrightarrow> Dictable (stack ?vm ! nat (sp ?vm - 2 * int 3 + 2 * int k)) \<noteq> Some (Integer_DictKey 1)"
    by (simp add: all_less_3)
  have v: "stack ?vm ! nat (sp ?vm - 2 * int 3 + 2 * int 2) = Integer 1"
    "stack ?vm ! nat (sp ?vm - 2 * int 3 + 2 * int 2 + 1) = Integer 30"
    by (simp_all add: example_simps dictStack_def)
  have s: "sp ?vm - 2 * int 3 = 0" by (simp add: example_simps dictStack_def)
  from OpDict_later_binding_wins [OF o exampleVM_currentFrame h3 h4 h5 h6 _ h8 h9, of exampleHost]
  obtain m where
    e: "execute exampleHost OpDict dictCode 0 ?vm =
        (Inr (), ?vm\<lparr>frames := (frames ?vm)[nat (framesIndex ?vm - 1) :=
                     Some ((mainFrame dictCode)\<lparr>ip := ip (mainFrame dictCode) + 2\<rparr>)],
                   stack := (stack ?vm)[nat (sp ?vm - 2 * int 3) := Dict m],
                   sp := sp ?vm - 2 * int 3 + 1\<rparr>)"
    and m: "m (Integer_DictKey 1) = Some (DictPair (Integer 1) (Integer 30))"
    unfolding v by auto
  let ?vm' = "?vm\<lparr>frames := (frames ?vm)[nat (framesIndex ?vm - 1) :=
                     Some ((mainFrame dictCode)\<lparr>ip := ip (mainFrame dictCode) + 2\<rparr>)],
                   stack := (stack ?vm)[nat (sp ?vm - 2 * int 3) := Dict m],
                   sp := sp ?vm - 2 * int 3 + 1\<rparr>"
  have "sp ?vm' = 1" "stack ?vm' ! 0 = Dict m"
    unfolding s by (simp_all add: example_simps dictStack_def)
  then show ?thesis using e m by blast
qed

subsection \<open>Frames along an execution\<close>

lemma frames_kept_refl: "frames_kept vm vm"
  by (simp add: frames_kept_def below_kept_def)

lemma frames_kept_trans: "frames_kept a b \<Longrightarrow> frames_kept b c \<Longrightarrow> frames_kept a c"
  by (auto simp: frames_kept_def below_kept_def)

lemma keepsI: "(\<And>vm. frames_kept vm (snd (m vm))) \<Longrightarrow> keeps m"
  by (simp add: keeps_def)

lemma keeps_unchanged: "(\<And>vm. frames (snd (m vm)) = frames vm \<and> framesIndex (snd (m vm)) = framesIndex vm) \<Longrightarrow> keeps m"
  by (simp add: keeps_def frames_kept_def below_kept_def basePointers_def)

lemma keeps_ok [intro!, simp]: "keeps (ok x)" by (rule keeps_unchanged) (simp add: ok_def)
lemma keeps_throw [intro!, simp]: "keeps (throw e)" by (rule keeps_unchanged) (simp add: throw_def)
lemma keeps_lift [intro!, simp]: "keeps (lift r)" by (rule keeps_unchanged) (simp add: lift_def split: sum.split)
lemma keeps_lift_state [intro!, simp]: "keeps (\<lambda>vm. lift (g vm) vm)"
  by (rule keeps_unchanged) (simp add: lift_def split: sum.split)
lemma keeps_pure_state [intro!, simp]: "keeps (\<lambda>vm. (g vm, vm))"
  by (rule keeps_unchanged) simp
lemma keeps_pop [intro!, simp]: "keeps pop"
  by (rule keeps_unchanged) (simp add: pop_def split: sum.split)
lemma keeps_push [intro!, simp]: "keeps (push obj)"
  by (rule keeps_unchanged) (simp add: push_def)
lemma keeps_set_sp [intro!, simp]: "keeps (set_sp n)"
  by (rule keeps_unchanged) (simp add: set_sp_def)
lemma keeps_get_sp [intro!, simp]: "keeps get_sp"
  by (rule keeps_unchanged) (simp add: get_sp_def)
lemma keeps_currentFrame [intro!, simp]: "keeps currentFrame"
  by (rule keeps_unchanged) (simp add: currentFrame_def split: sum.split option.split)
lemma keeps_storeStack [intro!, simp]: "keeps (storeStack n v)"
  by (rule keeps_unchanged) (simp add: storeStack_def)
lemma keeps_storeGlobal [intro!, simp]: "keeps (storeGlobal n v)"
  by (rule keeps_unchanged) (simp add: storeGlobal_def)

lemma keeps_andThen [intro!]:
  assumes "keeps m" "\<And>x. keeps (f x)"
  shows "keeps (andThen m f)"
proof (rule keepsI)
  fix vm
  obtain r vm1 where m: "m vm = (r, vm1)" by (cases "m vm")
  have k1: "frames_kept vm vm1" using assms(1) m by (auto simp: keeps_def dest: spec [of _ vm])
  show "frames_kept vm (snd (andThen m f vm))"
  proof (cases r)
    case (Inl e)
    then show ?thesis using m k1 by (simp add: andThen_def)
  next
    case (Inr x)
    have "frames_kept vm1 (snd (f x vm1))" using assms(2) by (simp add: keeps_def)
    then show ?thesis using m k1 Inr by (auto simp: andThen_def intro: frames_kept_trans)
  qed
qed

lemma keeps_ignoreError [intro!]:
  assumes "keeps m"
  shows "keeps (ignoreError m)"
proof (rule keepsI)
  fix vm
  have "snd (ignoreError m vm) = snd (m vm)"
    by (simp add: ignoreError_def split: prod.split sum.split failure.split)
  then show "frames_kept vm (snd (ignoreError m vm))" using assms by (simp add: keeps_def)
qed

lemma keeps_if [intro!]: "keeps a \<Longrightarrow> keeps b \<Longrightarrow> keeps (if c then a else b)"
  by simp

lemma keeps_currentFrame_ip_update [intro!, simp]: "keeps (currentFrame_ip_update g)"
proof (rule keepsI)
  fix vm
  show "frames_kept vm (snd (currentFrame_ip_update g vm))"
  proof (cases "currentFrame vm")
    case (Pair r vm1)
    show ?thesis
    proof (cases r)
      case (Inl e)
      then have "vm1 = vm" using Pair by (auto simp: currentFrame_def split: sum.splits option.splits)
      then show ?thesis using Pair Inl by (simp add: currentFrame_ip_update_def frames_kept_refl)
    next
      case (Inr f)
      then have c: "currentFrame vm = (Inr f, vm1)" using Pair by simp
      then have v: "vm1 = vm" and i: "1 \<le> framesIndex vm" "framesIndex vm \<le> int (length (frames vm))"
        and f: "frames vm ! nat (framesIndex vm - 1) = Some f"
        unfolding currentFrame_Inr by simp_all
      have "basePointers (vm\<lparr>frames := (frames vm)[nat (framesIndex vm - 1) := Some (f\<lparr>ip := g (ip f)\<rparr>)]\<rparr>) k
            = basePointers vm k" for k
        using f i by (cases "k = nat (framesIndex vm - 1)") (simp_all add: basePointers_def)
      then show ?thesis using c v
        by (simp add: currentFrame_ip_update_def frames_kept_def below_kept_def)
    qed
  qed
qed

lemma keeps_addIp [intro!, simp]: "keeps (addIp n)" by (simp add: addIp_def)
lemma keeps_setIp [intro!, simp]: "keeps (setIp n)" by (simp add: setIp_def)

lemma keeps_pushFrame [intro!, simp]: "keeps (pushFrame f)"
proof (rule keepsI)
  fix vm
  show "frames_kept vm (snd (pushFrame f vm))"
    by (simp add: pushFrame_def frames_kept_def below_kept_def basePointers_def)
qed


lemma keeps_executeBinaryIntegerOperation [intro!, simp]:
  "keeps (executeBinaryIntegerOperation op l r)"
  unfolding executeBinaryIntegerOperation_def by (auto split: Opcode.split)

lemma keeps_executeFloatOperation [intro!, simp]: "keeps (executeFloatOperation h op l r)"
  unfolding executeFloatOperation_def by (auto split: Opcode.split)

lemma keeps_executeIntLeftFloatRight [intro!, simp]: "keeps (executeIntLeftFloatRight h op l r)"
  unfolding executeIntLeftFloatRight_def by (auto split: Opcode.split)

lemma keeps_executeIntRightFloatLeft [intro!, simp]: "keeps (executeIntRightFloatLeft h op l r)"
  unfolding executeIntRightFloatLeft_def by (auto split: Opcode.split)

lemma keeps_executeBinaryStringOperation [intro!, simp]: "keeps (executeBinaryStringOperation op l r)"
  unfolding executeBinaryStringOperation_def by auto

lemma keeps_executeBinaryOperation [intro!, simp]: "keeps (executeBinaryOperation h op)"
  unfolding executeBinaryOperation_def by auto

lemma keeps_floatComparison [intro!, simp]: "keeps (floatComparison h u op a b)"
  unfolding floatComparison_def by (auto split: Opcode.split)

lemma keeps_executeIntLeftFloatRightComparison [intro!, simp]:
  "keeps (executeIntLeftFloatRightComparison h op l r)"
  unfolding executeIntLeftFloatRightComparison_def by auto

lemma keeps_executeIntRightFloatLeftComparison [intro!, simp]:
  "keeps (executeIntRightFloatLeftComparison h op l r)"
  unfolding executeIntRightFloatLeftComparison_def by auto

lemma keeps_executeFloatComparison [intro!, simp]: "keeps (executeFloatComparison h op l r)"
  unfolding executeFloatComparison_def by auto

lemma keeps_executeStringComparison [intro!, simp]: "keeps (executeStringComparison op l r)"
  unfolding executeStringComparison_def by auto

lemma keeps_executeIntegerComparison [intro!, simp]: "keeps (executeIntegerComparison op l r)"
  unfolding executeIntegerComparison_def by (auto split: Opcode.split)

lemma keeps_executeComparison [intro!, simp]: "keeps (executeComparison h op)"
  unfolding executeComparison_def by (auto split: Opcode.split)

lemma keeps_executeBangOperator [intro!, simp]: "keeps executeBangOperator"
  unfolding executeBangOperator_def by (auto split: Object.split bool.split)

lemma keeps_executeMinusOperator [intro!, simp]: "keeps executeMinusOperator"
  unfolding executeMinusOperator_def by auto

lemma keeps_executeArrayIndex [intro!, simp]: "keeps (executeArrayIndex a b)"
  unfolding executeArrayIndex_def by auto

lemma keeps_executeDictIndex [intro!, simp]: "keeps (executeDictIndex a b)"
  unfolding executeDictIndex_def by (auto split: option.split)

lemma keeps_executeIndexExpression [intro!, simp]: "keeps (executeIndexExpression a b)"
  unfolding executeIndexExpression_def by auto

lemma keeps_callClosure [intro!, simp]: "keeps (callClosure c n)"
  unfolding callClosure_def by auto

lemma keeps_callBuiltin [intro!, simp]: "keeps (callBuiltin h b n)"
  unfolding callBuiltin_def by (auto split: Object.split)

lemma keeps_executeCall [intro!, simp]: "keeps (executeCall h n)"
  unfolding executeCall_def by (auto split: Object.split)

lemma keeps_pushClosure [intro!, simp]: "keeps (pushClosure a b)"
  unfolding pushClosure_def by (auto split: Object.split)

lemma keeps_execute:
  assumes "op \<noteq> OpReturnValue" "op \<noteq> OpReturn"
  shows "keeps (execute h op ins i)"
  using assms by (cases op) (auto split: Object.split)


lemma keeps_below_keeps: "keeps m \<Longrightarrow> keeps_below m"
  by (simp add: keeps_def keeps_below_def frames_kept_def)

lemma keeps_below_andThen:
  assumes "keeps m" "\<And>x. keeps_below (f x)"
  shows "keeps_below (andThen m f)"
  unfolding keeps_below_def
proof
  fix vm
  obtain r vm1 where m: "m vm = (r, vm1)" by (cases "m vm")
  have k1: "frames_kept vm vm1" using assms(1) m by (auto simp: keeps_def dest: spec [of _ vm])
  show "below_kept vm (snd (andThen m f vm))"
  proof (cases r)
    case (Inl e)
    then show ?thesis using m k1 by (simp add: andThen_def frames_kept_def)
  next
    case (Inr x)
    have "below_kept vm1 (snd (f x vm1))" using assms(2) by (simp add: keeps_below_def)
    then show ?thesis using m k1 Inr
      by (auto simp: andThen_def frames_kept_def below_kept_def)
  qed
qed

lemma return_frames:
  "frames (snd (execute h OpReturnValue ins i vm)) = frames vm"
  "frames (snd (execute h OpReturn ins i vm)) = frames vm"
  by (simp_all add: andThen_def pop_def popFrame_def set_sp_def push_def Let_def
      split: sum.split option.split prod.split)

lemma keeps_below_execute: "keeps_below (execute h op ins i)"
proof (cases "op = OpReturnValue \<or> op = OpReturn")
  case True
  then show ?thesis
    using return_frames [of h ins i]
    by (auto simp: keeps_below_def below_kept_def basePointers_def simp del: execute.simps)
next
  case False
  then show ?thesis by (intro keeps_below_keeps keeps_execute) simp_all
qed

lemma keeps_below_step: "keeps_below (step h)"
  unfolding step_def
  by (intro keeps_below_andThen keeps_addIp keeps_currentFrame keeps_lift)
     (auto split: option.split intro: keeps_below_execute keeps_below_keeps simp del: execute.simps)

lemma step_below_kept: "step h vm = (r, vm') \<Longrightarrow> below_kept vm vm'"
  using keeps_below_step [of h] by (auto simp: keeps_below_def dest: spec [of _ vm])

lemma runs_above_basePointer:
  assumes "runs_above h d vm vm'" "1 \<le> d" "d \<le> framesIndex vm"
  shows "basePointers vm' (nat (d - 1)) = basePointers vm (nat (d - 1))"
  using assms
proof (induction rule: runs_above.induct)
  case (start vm)
  then show ?case by simp
next
  case (turn vm vm' vm'')
  have "below_kept vm' vm''" using turn.hyps(3) by (rule step_below_kept)
  moreover have "int (nat (d - 1)) < framesIndex vm'" using turn.prems(1) turn.hyps(2) by simp
  ultimately have "basePointers vm'' (nat (d - 1)) = basePointers vm' (nat (d - 1))"
    by (simp add: below_kept_def)
  then show ?case using turn.IH turn.prems by simp
qed

lemma step_fetch:
  assumes "fetch h vm = Some (op, ins, i)"
  shows "\<exists>f. currentFrame vm = (Inr f, vm)
           \<and> step h vm = execute h op ins i
               (vm\<lparr>frames := (frames vm)[nat (framesIndex vm - 1) := Some (f\<lparr>ip := ip f + 1\<rparr>)]\<rparr>)"
proof -
  from assms obtain f where c: "currentFrame vm = (Inr f, vm)"
    and b: "\<exists>b. elemAt (Frame_Instructions f) (ip f + 1) = Inr b \<and> opcodeOf h b = Some op"
    and e: "ins = Frame_Instructions f" "i = ip f + 1"
    by (auto simp: fetch_def currentFrame_def split: sum.splits option.splits prod.splits)
  let ?f' = "f\<lparr>ip := ip f + 1\<rparr>"
  let ?vm1 = "vm\<lparr>frames := (frames vm)[nat (framesIndex vm - 1) := Some ?f']\<rparr>"
  have a: "addIp 1 vm = (Inr (), ?vm1)"
    using c by (simp add: addIp_def currentFrame_ip_update_current)
  have c1: "currentFrame ?vm1 = (Inr ?f', ?vm1)" by (rule currentFrame_updated [OF c])
  have "step h vm = execute h op ins i ?vm1"
    using b e by (auto simp: step_def andThen_def a c1 lift_def Frame_Instructions_def simp del: execute.simps)
  then show ?thesis using c by blast
qed

text \<open>
  The size of the stack along an execution: every operation of the machine keeps it, so
  it is the one \<open>New\<close> made.
\<close>

lemma stack_keptI: "(\<And>vm. length (stack (snd (m vm))) = length (stack vm)) \<Longrightarrow> stack_kept m"
  by (simp add: stack_kept_def)

lemma stack_keptD: "stack_kept m \<Longrightarrow> length (stack (snd (m vm))) = length (stack vm)"
  by (simp add: stack_kept_def)

lemma stack_kept_ok [intro!, simp]: "stack_kept (ok x)" by (rule stack_keptI) (simp add: ok_def)
lemma stack_kept_throw [intro!, simp]: "stack_kept (throw e)" by (rule stack_keptI) (simp add: throw_def)
lemma stack_kept_lift [intro!, simp]: "stack_kept (lift r)" by (rule stack_keptI) (simp add: lift_def split: sum.split)
lemma stack_kept_lift_state [intro!, simp]: "stack_kept (\<lambda>vm. lift (g vm) vm)"
  by (rule stack_keptI) (simp add: lift_def split: sum.split)
lemma stack_kept_pure_state [intro!, simp]: "stack_kept (\<lambda>vm. (g vm, vm))"
  by (rule stack_keptI) simp
lemma stack_kept_pop [intro!, simp]: "stack_kept pop"
  by (rule stack_keptI) (simp add: pop_def split: sum.split)
lemma stack_kept_push [intro!, simp]: "stack_kept (push obj)"
  by (rule stack_keptI) (simp add: push_def)
lemma stack_kept_set_sp [intro!, simp]: "stack_kept (set_sp n)"
  by (rule stack_keptI) (simp add: set_sp_def)
lemma stack_kept_get_sp [intro!, simp]: "stack_kept get_sp"
  by (rule stack_keptI) (simp add: get_sp_def)
lemma stack_kept_currentFrame [intro!, simp]: "stack_kept currentFrame"
  by (rule stack_keptI) (simp add: currentFrame_def split: sum.split option.split)
lemma stack_kept_storeStack [intro!, simp]: "stack_kept (storeStack n v)"
  by (rule stack_keptI) (simp add: storeStack_def)
lemma stack_kept_storeGlobal [intro!, simp]: "stack_kept (storeGlobal n v)"
  by (rule stack_keptI) (simp add: storeGlobal_def)
lemma stack_kept_pushFrame [intro!, simp]: "stack_kept (pushFrame f)"
  by (rule stack_keptI) (simp add: pushFrame_def)
lemma stack_kept_popFrame [intro!, simp]: "stack_kept popFrame"
  by (rule stack_keptI) (simp add: popFrame_def Let_def split: sum.split option.split)
lemma stack_kept_currentFrame_ip_update [intro!, simp]: "stack_kept (currentFrame_ip_update g)"
  by (rule stack_keptI)
     (simp add: currentFrame_ip_update_def currentFrame_def split: sum.split option.split)

lemma stack_kept_andThen [intro!]:
  assumes "stack_kept m" "\<And>x. stack_kept (f x)"
  shows "stack_kept (andThen m f)"
proof (rule stack_keptI)
  fix vm
  obtain r vm1 where m: "m vm = (r, vm1)" by (cases "m vm")
  have k1: "length (stack vm1) = length (stack vm)"
    using stack_keptD [OF assms(1), of vm] m by simp
  show "length (stack (snd (andThen m f vm))) = length (stack vm)"
  proof (cases r)
    case (Inl e)
    then show ?thesis using m k1 by (simp add: andThen_def)
  next
    case (Inr x)
    have "length (stack (snd (f x vm1))) = length (stack vm1)"
      using assms(2) by (rule stack_keptD)
    then show ?thesis using m k1 Inr by (simp add: andThen_def)
  qed
qed

lemma stack_kept_ignoreError [intro!]:
  assumes "stack_kept m"
  shows "stack_kept (ignoreError m)"
proof (rule stack_keptI)
  fix vm
  have "snd (ignoreError m vm) = snd (m vm)"
    by (simp add: ignoreError_def split: prod.split sum.split failure.split)
  then show "length (stack (snd (ignoreError m vm))) = length (stack vm)"
    using stack_keptD [OF assms, of vm] by simp
qed

lemma stack_kept_if [intro!]: "stack_kept a \<Longrightarrow> stack_kept b \<Longrightarrow> stack_kept (if c then a else b)"
  by simp

lemma stack_kept_addIp [intro!, simp]: "stack_kept (addIp n)" by (simp add: addIp_def)
lemma stack_kept_setIp [intro!, simp]: "stack_kept (setIp n)" by (simp add: setIp_def)

lemma stack_kept_executeBinaryIntegerOperation [intro!, simp]:
  "stack_kept (executeBinaryIntegerOperation op l r)"
  unfolding executeBinaryIntegerOperation_def by (auto split: Opcode.split)

lemma stack_kept_executeFloatOperation [intro!, simp]: "stack_kept (executeFloatOperation h op l r)"
  unfolding executeFloatOperation_def by (auto split: Opcode.split)

lemma stack_kept_executeIntLeftFloatRight [intro!, simp]: "stack_kept (executeIntLeftFloatRight h op l r)"
  unfolding executeIntLeftFloatRight_def by (auto split: Opcode.split)

lemma stack_kept_executeIntRightFloatLeft [intro!, simp]: "stack_kept (executeIntRightFloatLeft h op l r)"
  unfolding executeIntRightFloatLeft_def by (auto split: Opcode.split)

lemma stack_kept_executeBinaryStringOperation [intro!, simp]: "stack_kept (executeBinaryStringOperation op l r)"
  unfolding executeBinaryStringOperation_def by auto

lemma stack_kept_executeBinaryOperation [intro!, simp]: "stack_kept (executeBinaryOperation h op)"
  unfolding executeBinaryOperation_def by auto

lemma stack_kept_floatComparison [intro!, simp]: "stack_kept (floatComparison h u op a b)"
  unfolding floatComparison_def by (auto split: Opcode.split)

lemma stack_kept_executeIntLeftFloatRightComparison [intro!, simp]:
  "stack_kept (executeIntLeftFloatRightComparison h op l r)"
  unfolding executeIntLeftFloatRightComparison_def by auto

lemma stack_kept_executeIntRightFloatLeftComparison [intro!, simp]:
  "stack_kept (executeIntRightFloatLeftComparison h op l r)"
  unfolding executeIntRightFloatLeftComparison_def by auto

lemma stack_kept_executeFloatComparison [intro!, simp]: "stack_kept (executeFloatComparison h op l r)"
  unfolding executeFloatComparison_def by auto

lemma stack_kept_executeStringComparison [intro!, simp]: "stack_kept (executeStringComparison op l r)"
  unfolding executeStringComparison_def by auto

lemma stack_kept_executeIntegerComparison [intro!, simp]: "stack_kept (executeIntegerComparison op l r)"
  unfolding executeIntegerComparison_def by (auto split: Opcode.split)

lemma stack_kept_executeComparison [intro!, simp]: "stack_kept (executeComparison h op)"
  unfolding executeComparison_def by (auto split: Opcode.split)

lemma stack_kept_executeBangOperator [intro!, simp]: "stack_kept executeBangOperator"
  unfolding executeBangOperator_def by (auto split: Object.split bool.split)

lemma stack_kept_executeMinusOperator [intro!, simp]: "stack_kept executeMinusOperator"
  unfolding executeMinusOperator_def by auto

lemma stack_kept_executeArrayIndex [intro!, simp]: "stack_kept (executeArrayIndex a b)"
  unfolding executeArrayIndex_def by auto

lemma stack_kept_executeDictIndex [intro!, simp]: "stack_kept (executeDictIndex a b)"
  unfolding executeDictIndex_def by (auto split: option.split)

lemma stack_kept_executeIndexExpression [intro!, simp]: "stack_kept (executeIndexExpression a b)"
  unfolding executeIndexExpression_def by auto

lemma stack_kept_callClosure [intro!, simp]: "stack_kept (callClosure c n)"
  unfolding callClosure_def by auto

lemma stack_kept_callBuiltin [intro!, simp]: "stack_kept (callBuiltin h b n)"
  unfolding callBuiltin_def by (auto split: Object.split)

lemma stack_kept_executeCall [intro!, simp]: "stack_kept (executeCall h n)"
  unfolding executeCall_def by (auto split: Object.split)

lemma stack_kept_pushClosure [intro!, simp]: "stack_kept (pushClosure a b)"
  unfolding pushClosure_def by (auto split: Object.split)

lemma stack_kept_execute: "stack_kept (execute h op ins i)"
  by (cases op) (auto split: Object.split)

lemma stack_kept_step: "stack_kept (step h)"
  unfolding step_def
  by (intro stack_kept_andThen stack_kept_addIp stack_kept_currentFrame stack_kept_lift)
     (auto split: option.split intro: stack_kept_execute simp del: execute.simps)

lemma step_stack_size: "step h vm = (r, vm') \<Longrightarrow> length (stack vm') = length (stack vm)"
  using stack_keptD [OF stack_kept_step, of h vm] by simp

lemma runs_above_stack_size:
  "runs_above h d vm vm' \<Longrightarrow> length (stack vm') = length (stack vm)"
  by (induction rule: runs_above.induct) (simp_all add: step_stack_size)

lemma New_stack_size: "int (length (stack (New instructions consts))) = StackSize"
  by (simp add: New_def StackSize_def)

lemma Run_stack_size:
  "Run h n vm = Some (r, vm') \<Longrightarrow> length (stack vm') = length (stack vm)"
proof (induction n arbitrary: vm)
  case 0
  then show ?case by simp
next
  case (Suc n)
  have run: "snd (running vm) = vm"
    by (simp add: running_def andThen_def currentFrame_def ok_def split: sum.split option.split)
  show ?case
  proof (cases "running vm")
    case (Pair c vm1)
    then have vm1: "vm1 = vm" using run by simp
    show ?thesis
    proof (cases c)
      case (Inl e)
      then show ?thesis using Suc.prems Pair vm1 by simp
    next
      case (Inr b)
      show ?thesis
      proof (cases b)
        case False
        then show ?thesis using Suc.prems Pair Inr vm1 by simp
      next
        case True
        obtain q vm2 where st: "step h vm = (q, vm2)" by (cases "step h vm")
        have len: "length (stack vm2) = length (stack vm)" using st by (rule step_stack_size)
        show ?thesis
        proof (cases q)
          case (Inl e)
          then show ?thesis using Suc.prems Pair Inr True vm1 st len by simp
        next
          case (Inr u)
          then have "Run h n vm2 = Some (r, vm')" using Suc.prems Pair \<open>c = Inr b\<close> True vm1 st by simp
          then show ?thesis using Suc.IH len by simp
        qed
      qed
    qed
  qed
qed

text \<open>A return succeeds when the frame to pop is there and the stack has room below it.\<close>

lemma return_total:
  assumes "op = OpReturnValue \<or> op = OpReturn"
    and "frames vm ! nat (framesIndex vm - 1) = Some fr"
    and "1 \<le> framesIndex vm" "framesIndex vm \<le> int (length (frames vm))"
    and "1 \<le> basePointer fr" "basePointer fr - 1 < StackSize"
    and "basePointer fr - 1 < int (length (stack vm))"
    and "op = OpReturnValue \<Longrightarrow> elemAt (stack vm) (sp vm - 1) = Inr v"
  shows "\<exists>vm'. execute h op ins i vm = (Inr (), vm') \<and> sp vm' = basePointer fr
            \<and> framesIndex vm' = framesIndex vm - 1
            \<and> stack vm' ! nat (sp vm' - 1) = (if op = OpReturnValue then v else Null)"
  using assms
  by (auto simp: andThen_def pop_def popFrame_def set_sp_def push_def Let_def elemAt_def
      split: if_splits)

text \<open>
  Claim C1. Let a turn of the loop execute \<open>OpCall\<close> with \<open>nargs\<close> arguments on a closure,
  let the machine run on inside that call (never with fewer frames than right after the
  call), and let it then, with the frame of the call on top again, come to \<open>OpReturnValue\<close>
  or \<open>OpReturn\<close>: the matching return. The stack has the \<open>StackSize\<close> slots that \<open>New\<close> gives
  it, and before \<open>OpReturnValue\<close> the value \<open>v\<close> to return is on top. Then the turn of the
  return succeeds, and after it the stack pointer is the one at the moment of the call
  minus \<open>nargs\<close> minus 1, plus 1 for the pushed result; the result (the popped return
  value, or Null for \<open>OpReturn\<close>) is on top, and the number of frames is the one before
  the call.
\<close>

theorem return_restores_stack_pointer:
  assumes "fetch h vm0 = Some (OpCall, ins, i)"
    and "operand8 ins (i + 1) = Inr nargs"
    and "elemAt (stack vm0) (sp vm0 - 1 - nargs) = Inr (ClosureObj c)"
    and "step h vm0 = (Inr (), vm1)"
    and "runs_above h (framesIndex vm1) vm1 vm2"
    and "framesIndex vm2 = framesIndex vm1"
    and "fetch h vm2 = Some (op, ins', i')"
    and "op = OpReturnValue \<or> op = OpReturn"
    and "int (length (stack vm0)) = StackSize"
    and "op = OpReturnValue \<Longrightarrow> elemAt (stack vm2) (sp vm2 - 1) = Inr v"
  shows "\<exists>vm3. step h vm2 = (Inr (), vm3)
       \<and> sp vm3 = sp vm0 - nargs - 1 + 1
       \<and> stack vm3 ! nat (sp vm3 - 1) = (if op = OpReturnValue then v else Null)
       \<and> framesIndex vm3 = framesIndex vm0"
proof -
  from step_fetch [OF assms(1)] obtain f where
    c0: "currentFrame vm0 = (Inr f, vm0)" and
    s0: "step h vm0 = execute h OpCall ins i
               (vm0\<lparr>frames := (frames vm0)[nat (framesIndex vm0 - 1) := Some (f\<lparr>ip := ip f + 1\<rparr>)]\<rparr>)"
    by blast
  let ?vmA = "vm0\<lparr>frames := (frames vm0)[nat (framesIndex vm0 - 1) := Some (f\<lparr>ip := ip f + 1\<rparr>)]\<rparr>"
  let ?vmB = "?vmA\<lparr>frames := (frames ?vmA)[nat (framesIndex ?vmA - 1) := Some (f\<lparr>ip := ip f + 1 + 1\<rparr>)]\<rparr>"
  have fi0: "1 \<le> framesIndex vm0" "framesIndex vm0 \<le> int (length (frames vm0))"
    using c0 unfolding currentFrame_Inr by simp_all
  have cA: "currentFrame ?vmA = (Inr (f\<lparr>ip := ip f + 1\<rparr>), ?vmA)"
    by (rule currentFrame_updated [OF c0])
  have aA: "addIp 1 ?vmA = (Inr (), ?vmB)"
    using cA by (simp add: addIp_def currentFrame_ip_update_current)
  have cl: "elemAt (stack ?vmB) (sp ?vmB - 1 - nargs) = Inr (ClosureObj c)"
    using assms(3) by simp
  have "execute h OpCall ins i ?vmA = executeCall h nargs ?vmB"
    by (simp add: assms(2) andThen_def lift_def aA)
  also have "\<dots> = callClosure c nargs ?vmB"
    by (rule executeCall_closure [OF cl])
  finally have e: "execute h OpCall ins i ?vmA = callClosure c nargs ?vmB" .
  have call: "callClosure c nargs ?vmB = (Inr (), vm1)"
    using assms(4) unfolding s0 e .
  have m: "nargs = NumParameters (Fn c)"
    using call by (auto simp: callClosure_def throw_def split: if_splits)
  have room: "framesIndex vm0 < int (length (frames vm0))"
    using call m fi0
    by (auto simp: callClosure_def andThen_def get_sp_def pushFrame_def split: if_splits)
  have v1: "vm1 = ?vmB\<lparr>frames := (frames ?vmB)[nat (framesIndex ?vmB) := Some (NewFrame c (sp ?vmB - nargs))],
                    framesIndex := framesIndex ?vmB + 1,
                    sp := sp ?vmB - nargs + NumLocals (Fn c)\<rparr>"
    using call callClosure_match [OF m, of ?vmB] fi0 room by simp
  have fi1: "framesIndex vm1 = framesIndex vm0 + 1" using v1 by simp
  have bp1: "basePointers vm1 (nat (framesIndex vm1 - 1)) = Some (sp vm0 - nargs)"
    using v1 fi0 room by (simp add: basePointers_def NewFrame_def)
  have bp2: "basePointers vm2 (nat (framesIndex vm1 - 1)) = Some (sp vm0 - nargs)"
    using runs_above_basePointer [OF assms(5)] fi1 fi0 bp1 by simp
  from step_fetch [OF assms(7)] obtain f2 where
    c2: "currentFrame vm2 = (Inr f2, vm2)" and
    s2: "step h vm2 = execute h op ins' i'
               (vm2\<lparr>frames := (frames vm2)[nat (framesIndex vm2 - 1) := Some (f2\<lparr>ip := ip f2 + 1\<rparr>)]\<rparr>)"
    by blast
  let ?vmC = "vm2\<lparr>frames := (frames vm2)[nat (framesIndex vm2 - 1) := Some (f2\<lparr>ip := ip f2 + 1\<rparr>)]\<rparr>"
  let ?fr = "f2\<lparr>ip := ip f2 + 1\<rparr>"
  have f2: "frames vm2 ! nat (framesIndex vm2 - 1) = Some f2"
    and fi2: "1 \<le> framesIndex vm2" "framesIndex vm2 \<le> int (length (frames vm2))"
    using c2 unfolding currentFrame_Inr by simp_all
  have b2: "basePointer f2 = sp vm0 - nargs"
    using bp2 f2 assms(6) by (simp add: basePointers_def)
  have len1: "length (stack vm1) = length (stack vm0)"
    using assms(4) by (rule step_stack_size)
  have len2: "length (stack vm2) = length (stack vm0)"
    using runs_above_stack_size [OF assms(5)] len1 by simp
  have callee: "0 \<le> sp vm0 - 1 - nargs" "sp vm0 - 1 - nargs < int (length (stack vm0))"
    using assms(3) by (simp_all add: elemAt_def split: if_splits)
  have in_range: "nat (framesIndex vm2 - 1) < length (frames vm2)" using fi2 by linarith
  have t1: "frames ?vmC ! nat (framesIndex ?vmC - 1) = Some ?fr" using in_range by simp
  have t2: "1 \<le> framesIndex ?vmC" "framesIndex ?vmC \<le> int (length (frames ?vmC))"
    using fi2 by simp_all
  have t3: "1 \<le> basePointer ?fr" "basePointer ?fr - 1 < StackSize"
    using b2 callee assms(9) by simp_all
  have t4: "basePointer ?fr - 1 < int (length (stack ?vmC))"
    using b2 callee len2 by simp
  have t5: "elemAt (stack ?vmC) (sp ?vmC - 1) = Inr v" if "op = OpReturnValue"
    using assms(10) [OF that] by simp
  from return_total [OF assms(8) t1 t2 t3 t4 t5, of h ins' i'] obtain vm3 where
    ex: "execute h op ins' i' ?vmC = (Inr (), vm3)" and
    sp3: "sp vm3 = basePointer ?fr" and fi3: "framesIndex vm3 = framesIndex ?vmC - 1" and
    top: "stack vm3 ! nat (sp vm3 - 1) = (if op = OpReturnValue then v else Null)"
    by blast
  have "step h vm2 = (Inr (), vm3)" using ex unfolding s2 .
  moreover have "sp vm3 = sp vm0 - nargs - 1 + 1" using sp3 b2 by simp
  moreover have "framesIndex vm3 = framesIndex vm0" using fi3 fi1 assms(6) by simp
  ultimately show ?thesis using top by blast
qed

lemma callState_numerals:
  "callState 1 = snd (step exampleHost (callState 0))"
  "callState 2 = snd (step exampleHost (callState 1))"
  "callState 3 = snd (step exampleHost (callState 2))"
  "callState 4 = snd (step exampleHost (callState 3))"
  "callState 5 = snd (step exampleHost (callState 4))"
  by (simp_all add: eval_nat_numeral)

lemmas run_simps = step_def andThen_def addIp_def setIp_def currentFrame_ip_update_def currentFrame_def
  elemAt_def lift_def Frame_Instructions_def exampleHost_def exampleOpcodes_def
  operand8_def operand16_def sliceFrom_def ReadUint8_def ReadUint16_def
  executeCall_def callClosure_def get_sp_def set_sp_def pushFrame_def popFrame_def
  push_def pop_def ok_def throw_def addClosure_def executeBinaryOperation_def
  executeBinaryIntegerOperation_def callVM_def callState_numerals

lemma returnState_numerals:
  "returnState 1 = snd (step exampleHost (returnState 0))"
  "returnState 2 = snd (step exampleHost (returnState 1))"
  by (simp_all add: eval_nat_numeral)

lemmas return_simps = returnClosure_def returnVM_def returnState_numerals

text \<open>
  Claim C1, two instances of the theorem. The call \<open>add(1, 2)\<close> starts with three objects
  on the stack; three turns of the loop run inside the call; \<open>OpReturnValue\<close> succeeds and
  leaves the one result 3. The call of the closure whose body is \<open>OpReturn\<close> starts with
  one object on the stack; \<open>OpReturn\<close> succeeds and leaves the one result Null.
\<close>

theorem return_restores_stack_pointer_witness:
  "sp (callState 0) = 3
   \<and> fst (step exampleHost (callState 4)) = Inr ()
   \<and> sp (callState 5) = 3 - 2 - 1 + 1
   \<and> stack (callState 5) ! 0 = Integer 3
   \<and> framesIndex (callState 5) = framesIndex (callState 0)
   \<and> sp (returnState 0) = 1
   \<and> fst (step exampleHost (returnState 1)) = Inr ()
   \<and> sp (returnState 2) = 1 - 0 - 1 + 1
   \<and> stack (returnState 2) ! 0 = Null
   \<and> framesIndex (returnState 2) = framesIndex (returnState 0)"
proof -
  have st: "step exampleHost (callState k) = (Inr (), callState (Suc k))"
    if "fst (step exampleHost (callState k)) = Inr ()" for k
    using that by (cases "step exampleHost (callState k)") simp
  have ok: "fst (step exampleHost (callState 0)) = Inr ()"
    "fst (step exampleHost (callState 1)) = Inr ()"
    "fst (step exampleHost (callState 2)) = Inr ()"
    "fst (step exampleHost (callState 3)) = Inr ()"
    by (simp_all add: example_simps run_simps)
  have s0: "step exampleHost (callState 0) = (Inr (), callState 1)"
    using st [OF ok(1)] by (simp only: One_nat_def)
  have s1: "step exampleHost (callState 1) = (Inr (), callState 2)"
    using st [OF ok(2)] by (simp only: Suc_1)
  have s2: "step exampleHost (callState 2) = (Inr (), callState 3)"
    using st [OF ok(3)] by (simp only: Suc_numeral Num.add_One Num.inc.simps)
  have s3: "step exampleHost (callState 3) = (Inr (), callState 4)"
    using st [OF ok(4)] by (simp only: Suc_numeral Num.add_One Num.inc.simps)
  have fi: "framesIndex (callState 1) = 2" "framesIndex (callState 2) = 2"
    "framesIndex (callState 3) = 2" "framesIndex (callState 4) = 2"
    by (simp_all add: example_simps run_simps)
  have h1: "fetch exampleHost (callState 0) = Some (OpCall, [27, 2, 18], 0)"
    by (simp add: fetch_def example_simps run_simps)
  have h2: "operand8 [27, 2, 18] (0 + 1) = Inr 2"
    by (simp add: run_simps)
  have h3: "elemAt (stack (callState 0)) (sp (callState 0) - 1 - 2) = Inr (ClosureObj addClosure)"
    by (simp add: example_simps run_simps)
  have g: "2 \<le> framesIndex (callState 1)" "2 \<le> framesIndex (callState 2)"
    "2 \<le> framesIndex (callState 3)" "2 \<le> framesIndex (callState 4)"
    unfolding fi by simp_all
  have r1: "runs_above exampleHost 2 (callState 1) (callState 1)" by (rule runs_above.start)
  have r2: "runs_above exampleHost 2 (callState 1) (callState 2)"
    by (rule runs_above.turn [OF r1 g(1) s1 g(2)])
  have r3: "runs_above exampleHost 2 (callState 1) (callState 3)"
    by (rule runs_above.turn [OF r2 g(2) s2 g(3)])
  have r4: "runs_above exampleHost 2 (callState 1) (callState 4)"
    by (rule runs_above.turn [OF r3 g(3) s3 g(4)])
  have h5: "runs_above exampleHost (framesIndex (callState 1)) (callState 1) (callState 4)"
    using r4 by (simp only: fi)
  have h6: "framesIndex (callState 4) = framesIndex (callState 1)" by (simp only: fi)
  have h7: "fetch exampleHost (callState 4) = Some (OpReturnValue, [31, 0, 31, 1, 1, 28], 5)"
    by (simp add: fetch_def example_simps run_simps)
  have h8: "OpReturnValue = OpReturnValue \<or> OpReturnValue = OpReturn" by simp
  have h9: "int (length (stack (callState 0))) = StackSize"
    by (simp add: example_simps run_simps)
  have h10: "elemAt (stack (callState 4)) (sp (callState 4) - 1) = Inr (Integer 3)"
    by (simp add: example_simps run_simps)
  have sp0: "sp (callState 0) = 3" by (simp add: example_simps run_simps)
  from return_restores_stack_pointer [OF h1 h2 h3 s0 h5 h6 h7 h8 h9 h10]
  obtain vm3 where a: "step exampleHost (callState 4) = (Inr (), vm3)"
    and p1: "sp vm3 = sp (callState 0) - 2 - 1 + 1"
    and p2: "stack vm3 ! nat (sp vm3 - 1) = (if OpReturnValue = OpReturnValue then Integer 3 else Null)"
    and p3: "framesIndex vm3 = framesIndex (callState 0)"
    by blast
  have v3: "callState 5 = vm3" unfolding callState_numerals(5) a by simp
  have a1: "fst (step exampleHost (callState 4)) = Inr ()" unfolding a by simp
  have a2: "sp (callState 5) = 3 - 2 - 1 + 1" using p1 unfolding v3 sp0 .
  have "stack (callState 5) ! nat (3 - 2 - 1 + 1 - 1) = Integer 3"
    using p2 unfolding v3 [symmetric] a2 by (simp only: if_True refl)
  then have a3: "stack (callState 5) ! 0 = Integer 3" by simp
  have a4: "framesIndex (callState 5) = framesIndex (callState 0)" using p3 unfolding v3 .

  have ok': "fst (step exampleHost (returnState 0)) = Inr ()"
    by (simp add: example_simps run_simps return_simps)
  have s0': "step exampleHost (returnState 0) = (Inr (), returnState 1)"
    using ok' unfolding returnState_numerals(1)
    by (cases "step exampleHost (returnState 0)") simp
  have k1: "fetch exampleHost (returnState 0) = Some (OpCall, [27, 0, 18], 0)"
    by (simp add: fetch_def example_simps run_simps return_simps)
  have k2: "operand8 [27, 0, 18] (0 + 1) = Inr 0"
    by (simp add: run_simps)
  have k3: "elemAt (stack (returnState 0)) (sp (returnState 0) - 1 - 0) = Inr (ClosureObj returnClosure)"
    by (simp add: example_simps run_simps returnVM_def)
  have k5: "runs_above exampleHost (framesIndex (returnState 1)) (returnState 1) (returnState 1)"
    by (rule runs_above.start)
  have k6: "framesIndex (returnState 1) = framesIndex (returnState 1)" by (rule refl)
  have k7: "fetch exampleHost (returnState 1) = Some (OpReturn, [29], 0)"
    by (simp add: fetch_def example_simps run_simps return_simps)
  have k8: "OpReturn = OpReturnValue \<or> OpReturn = OpReturn" by simp
  have k9: "int (length (stack (returnState 0))) = StackSize"
    by (simp add: example_simps run_simps returnVM_def)
  have k10: "elemAt (stack (returnState 1)) (sp (returnState 1) - 1) = Inr (ClosureObj returnClosure)"
    by (simp add: example_simps run_simps return_simps)
  have sp0': "sp (returnState 0) = 1" by (simp add: example_simps run_simps returnVM_def)
  from return_restores_stack_pointer [OF k1 k2 k3 s0' k5 k6 k7 k8 k9 k10]
  obtain vm3' where b: "step exampleHost (returnState 1) = (Inr (), vm3')"
    and q1: "sp vm3' = sp (returnState 0) - 0 - 1 + 1"
    and q2: "stack vm3' ! nat (sp vm3' - 1) =
               (if OpReturn = OpReturnValue then ClosureObj returnClosure else Null)"
    and q3: "framesIndex vm3' = framesIndex (returnState 0)"
    by blast
  have w3: "returnState 2 = vm3'" unfolding returnState_numerals(2) b by simp
  have b1: "fst (step exampleHost (returnState 1)) = Inr ()" unfolding b by simp
  have b2: "sp (returnState 2) = 1 - 0 - 1 + 1" using q1 unfolding w3 sp0' .
  have "stack (returnState 2) ! nat (1 - 0 - 1 + 1 - 1) = Null"
    using q2 unfolding w3 [symmetric] b2 by simp
  then have b3: "stack (returnState 2) ! 0 = Null" by simp
  have b4: "framesIndex (returnState 2) = framesIndex (returnState 0)" using q3 unfolding w3 .
  show ?thesis using sp0 a1 a2 a3 a4 sp0' b1 b2 b3 b4 by blast
qed

end
